theory Spec2Isabelle
  imports Complex_Main "HOL-Library.Sublist"
begin

section \<open>The date arithmetic used by the notebook\<close>

text \<open>
  The notebook \<^verbatim>\<open>get_ship_data.ipynb\<close> configures two \<^verbatim>\<open>datetime.datetime\<close> values and
  computes with them through \<^verbatim>\<open>end_datetime - start_datetime\<close>, \<^verbatim>\<open>.days\<close>,
  \<^verbatim>\<open>start_datetime + dt.timedelta(days = x)\<close>, \<^verbatim>\<open>.month\<close> and \<^verbatim>\<open>.day\<close>.
  These operations are those of Python's \<^verbatim>\<open>datetime\<close> module, which works on proleptic
  Gregorian ordinals (1 January of year 1 is day 1). The definitions below follow the
  module's functions \<^verbatim>\<open>_is_leap\<close>, \<^verbatim>\<open>_days_before_year\<close>, \<^verbatim>\<open>_days_in_month\<close>,
  \<^verbatim>\<open>_days_before_month\<close>, \<^verbatim>\<open>_ymd2ord\<close> and \<^verbatim>\<open>_ord2ymd\<close> line by line. Python's integers
  are unbounded and \<^verbatim>\<open>divmod\<close> rounds towards minus infinity, as \<open>div\<close> and \<open>mod\<close> on
  \<^typ>\<open>int\<close> do.
\<close>

definition MAXORDINAL :: int where
  "MAXORDINAL = 3652059"

definition DAYS_IN_MONTH :: "int list" where
  "DAYS_IN_MONTH = [-1, 31, 28, 31, 30, 31, 30, 31, 31, 30, 31, 30, 31]"

definition DAYS_BEFORE_MONTH :: "int list" where
  "DAYS_BEFORE_MONTH = [-1, 0, 31, 59, 90, 120, 151, 181, 212, 243, 273, 304, 334]"

definition is_leap :: "int \<Rightarrow> bool" where
  "is_leap year \<longleftrightarrow> year mod 4 = 0 \<and> (year mod 100 \<noteq> 0 \<or> year mod 400 = 0)"

definition days_before_year :: "int \<Rightarrow> int" where
  "days_before_year year = (let y = year - 1 in y * 365 + y div 4 - y div 100 + y div 400)"

definition days_in_month :: "int \<Rightarrow> int \<Rightarrow> int" where
  "days_in_month year month =
     (if month = 2 \<and> is_leap year then 29 else DAYS_IN_MONTH ! nat month)"

definition days_before_month :: "int \<Rightarrow> int \<Rightarrow> int" where
  "days_before_month year month =
     DAYS_BEFORE_MONTH ! nat month + (if month > 2 \<and> is_leap year then 1 else 0)"

definition ymd2ord :: "int \<Rightarrow> int \<Rightarrow> int \<Rightarrow> int" where
  "ymd2ord year month day =
     days_before_year year + days_before_month year month + day"

definition DI400Y :: int where
  "DI400Y = days_before_year 401"

definition DI100Y :: int where
  "DI100Y = days_before_year 101"

definition DI4Y :: int where
  "DI4Y = days_before_year 5"

text \<open>
  \<^verbatim>\<open>_ord2ymd\<close>: the successive \<^verbatim>\<open>divmod\<close>s rebind \<^verbatim>\<open>n\<close>; the bindings of the \<open>let\<close>
  below shadow one another in the same order. \<^verbatim>\<open>(n + 50) >> 5\<close> is a division by 32.
\<close>

definition ord2ymd :: "int \<Rightarrow> int \<times> int \<times> int" where
  "ord2ymd n0 =
     (let n = n0 - 1;
          n400 = n div DI400Y; n = n mod DI400Y;
          year = n400 * 400 + 1;
          n100 = n div DI100Y; n = n mod DI100Y;
          n4 = n div DI4Y; n = n mod DI4Y;
          n1 = n div 365; n = n mod 365;
          year = year + (n100 * 100 + n4 * 4 + n1)
      in if n1 = 4 \<or> n100 = 4 then (year - 1, 12, 31)
         else
           let leapyear = (n1 = 3 \<and> (n4 \<noteq> 24 \<or> n100 = 3));
               month = (n + 50) div 32;
               preceding = DAYS_BEFORE_MONTH ! nat month
                             + (if month > 2 \<and> leapyear then 1 else 0)
           in if preceding > n then
                let month = month - 1;
                    preceding = preceding
                                  - (DAYS_IN_MONTH ! nat month
                                       + (if month = 2 \<and> leapyear then 1 else 0))
                in (year, month, n - preceding + 1)
              else (year, month, n - preceding + 1))"


subsection \<open>Exceptions\<close>

text \<open>
  A raised exception is a value: its class and the text \<^verbatim>\<open>str(e)\<close> it carries. The class
  matters to the notebook only through \<^verbatim>\<open>except Exception\<close>, so the classes are the ones
  Python's own operations raise here, \<open>OtherException\<close> for any other subclass of
  \<^verbatim>\<open>Exception\<close> an external library raises, and \<open>NonException\<close> for the
  \<^verbatim>\<open>BaseException\<close>s outside \<^verbatim>\<open>Exception\<close> (\<^verbatim>\<open>KeyboardInterrupt\<close>, \<^verbatim>\<open>SystemExit\<close>).
  A computation that may raise returns \<open>py_exc + 'a\<close>, \<open>Inl\<close> being the exception.
\<close>

datatype exc_class =
  OverflowError | FileExistsError | FileNotFoundError | NotADirectoryError | OSError
  | OtherException | NonException

datatype py_exc = Raise exc_class string

fun exc_str :: "py_exc \<Rightarrow> string" where
  "exc_str (Raise c msg) = msg"

fun is_Exception :: "py_exc \<Rightarrow> bool" where
  "is_Exception (Raise c msg) \<longleftrightarrow> c \<noteq> NonException"

subsection \<open>Strings of integers\<close>

definition digit_char :: "nat \<Rightarrow> char" where
  "digit_char d = ''0123456789'' ! d"

fun str_nat :: "nat \<Rightarrow> string" where
  "str_nat n = (if n < 10 then [digit_char n] else str_nat (n div 10) @ [digit_char (n mod 10)])"

declare str_nat.simps [simp del]

text \<open>\<^verbatim>\<open>str(i)\<close> for an integer.\<close>

definition str_int :: "int \<Rightarrow> string" where
  "str_int i = (if i < 0 then CHR ''-'' # str_nat (nat (- i)) else str_nat (nat i))"

text \<open>
  \<^verbatim>\<open>s.zfill(width)\<close>: zeros on the left up to \<open>width\<close> characters, after a leading sign
  when there is one.
\<close>

definition zfill :: "string \<Rightarrow> nat \<Rightarrow> string" where
  "zfill s width =
     (if width \<le> length s then s
      else let fill = replicate (width - length s) CHR ''0''
           in case s of
                [] \<Rightarrow> fill
              | c # rest \<Rightarrow> if c = CHR ''+'' \<or> c = CHR ''-'' then c # fill @ rest else fill @ s)"

subsection \<open>\<^verbatim>\<open>datetime\<close> and \<^verbatim>\<open>timedelta\<close>\<close>

record datetime =
  year :: int
  month :: int
  day :: int
  hour :: int
  minute :: int
  second :: int
  microsecond :: int

text \<open>
  The constructor \<^verbatim>\<open>dt.datetime(...)\<close> accepts exactly the field values below and raises
  \<^verbatim>\<open>ValueError\<close> on any other, so every datetime the notebook can hold satisfies
  \<open>valid_datetime\<close>.
\<close>

definition valid_datetime :: "datetime \<Rightarrow> bool" where
  "valid_datetime t \<longleftrightarrow>
     1 \<le> year t \<and> year t \<le> 9999 \<and> 1 \<le> month t \<and> month t \<le> 12
     \<and> 1 \<le> day t \<and> day t \<le> days_in_month (year t) (month t)
     \<and> 0 \<le> hour t \<and> hour t < 24 \<and> 0 \<le> minute t \<and> minute t < 60
     \<and> 0 \<le> second t \<and> second t < 60 \<and> 0 \<le> microsecond t \<and> microsecond t < 1000000"

record timedelta =
  days :: int
  seconds :: int
  microseconds :: int

text \<open>
  \<^verbatim>\<open>timedelta(days, seconds, microseconds)\<close> on integers: the constructor carries
  microseconds into seconds and seconds into days, and refuses more than 999999999 days.
\<close>

definition timedelta_new :: "int \<Rightarrow> int \<Rightarrow> int \<Rightarrow> py_exc + timedelta" where
  "timedelta_new days0 seconds0 microseconds0 =
     (let d = days0 + seconds0 div (24 * 3600);
          s = seconds0 mod (24 * 3600);
          seconds1 = microseconds0 div 1000000;
          us = microseconds0 mod 1000000;
          d = d + seconds1 div (24 * 3600);
          s = s + seconds1 mod (24 * 3600);
          d = d + s div (24 * 3600);
          s = s mod (24 * 3600)
      in if abs d > 999999999
         then Inl (Raise OverflowError (''timedelta # of days is too large: '' @ str_int d))
         else Inr \<lparr>days = d, seconds = s, microseconds = us\<rparr>)"

definition toordinal :: "datetime \<Rightarrow> int" where
  "toordinal t = ymd2ord (year t) (month t) (day t)"

text \<open>\<^verbatim>\<open>self - other\<close> for two naive datetimes (\<^verbatim>\<open>datetime.__sub__\<close>).\<close>

definition datetime_sub :: "datetime \<Rightarrow> datetime \<Rightarrow> py_exc + timedelta" where
  "datetime_sub self other =
     (let days1 = toordinal self;
          days2 = toordinal other;
          secs1 = second self + minute self * 60 + hour self * 3600;
          secs2 = second other + minute other * 60 + hour other * 3600
      in timedelta_new (days1 - days2) (secs1 - secs2) (microsecond self - microsecond other))"

text \<open>
  \<^verbatim>\<open>self + other\<close> for a datetime and a timedelta (\<^verbatim>\<open>datetime.__add__\<close>): the sum is
  formed as a timedelta counted from ordinal 0 and converted back; a day outside
  \<^verbatim>\<open>1 .. _MAXORDINAL\<close> raises \<^verbatim>\<open>OverflowError\<close>.
\<close>

definition datetime_add :: "datetime \<Rightarrow> timedelta \<Rightarrow> py_exc + datetime" where
  "datetime_add self other =
     (case timedelta_new (toordinal self)
             (second self + minute self * 60 + hour self * 3600) (microsecond self) of
        Inl e \<Rightarrow> Inl e
      | Inr delta0 \<Rightarrow>
          (case timedelta_new (days delta0 + days other) (seconds delta0 + seconds other)
                  (microseconds delta0 + microseconds other) of
             Inl e \<Rightarrow> Inl e
           | Inr delta \<Rightarrow>
               let hour' = seconds delta div 3600;
                   rem = seconds delta mod 3600;
                   minute' = rem div 60;
                   second' = rem mod 60
               in if 0 < days delta \<and> days delta \<le> MAXORDINAL
                  then (case ord2ymd (days delta) of
                          (y, m, d) \<Rightarrow>
                            Inr \<lparr>year = y, month = m, day = d, hour = hour', minute = minute',
                                 second = second', microsecond = microseconds delta\<rparr>)
                  else Inl (Raise OverflowError ''result out of range'')))"

section \<open>The Date Filter\<close>

text \<open>
  \<^verbatim>\<open>
  date_list = []
  for x in range(0, (end_datetime-start_datetime).days + 1):
      date = start_datetime + dt.timedelta(days = x)
      date_list.append(str(date.month).zfill(2)+str(date.day).zfill(2))
  \<close>
  \<^verbatim>\<open>range(0, n)\<close> is \<open>[0..n - 1]\<close>, empty when \<open>n \<le> 0\<close>. The loop is a recursion over
  that list with the growing \<^verbatim>\<open>date_list\<close> as accumulator; an exception raised by the
  date arithmetic leaves the loop at once.
\<close>

definition day_token :: "datetime \<Rightarrow> string" where
  "day_token date = zfill (str_int (month date)) 2 @ zfill (str_int (day date)) 2"

fun date_list_loop :: "datetime \<Rightarrow> int list \<Rightarrow> string list \<Rightarrow> py_exc + string list" where
  "date_list_loop start_datetime [] date_list = Inr date_list"
| "date_list_loop start_datetime (x # xs) date_list =
     (case timedelta_new x 0 0 of
        Inl e \<Rightarrow> Inl e
      | Inr td \<Rightarrow>
          (case datetime_add start_datetime td of
             Inl e \<Rightarrow> Inl e
           | Inr date \<Rightarrow> date_list_loop start_datetime xs (date_list @ [day_token date])))"

definition date_list :: "datetime \<Rightarrow> datetime \<Rightarrow> py_exc + string list" where
  "date_list start_datetime end_datetime =
     (case datetime_sub end_datetime start_datetime of
        Inl e \<Rightarrow> Inl e
      | Inr delta \<Rightarrow> date_list_loop start_datetime [0..days delta + 1 - 1] [])"

text \<open>
  \<^verbatim>\<open>
  s3rawfiles = [
      s3path for s3path in s3rawfiles
      if any([f"D2017{datestr}" in s3path for datestr in date_list])
  ]
  \<close>
  \<^verbatim>\<open>a in b\<close> on strings holds when \<open>a\<close> occurs in \<open>b\<close> as a contiguous run of characters,
  which is \<^const>\<open>sublist\<close>.
\<close>

definition date_filter :: "string list \<Rightarrow> string list \<Rightarrow> string list" where
  "date_filter datestrs s3rawfiles =
     [s3path \<leftarrow> s3rawfiles. list_ex (\<lambda>datestr. sublist (''D2017'' @ datestr) s3path) datestrs]"


subsection \<open>The calendar the claims speak of\<close>

text \<open>
  The claims speak of calendar days, not of ordinals. The definitions below state the
  Gregorian calendar directly, without the notebook's arithmetic: which years are leap
  years, how long each month is, which day follows a given day, and the zero-padded
  \<^verbatim>\<open>MMDD\<close> token of a day. A date is a triple (year, month, day).
\<close>

type_synonym date = "int \<times> int \<times> int"

definition calendar_leap_year :: "int \<Rightarrow> bool" where
  "calendar_leap_year y \<longleftrightarrow> 4 dvd y \<and> (\<not> 100 dvd y \<or> 400 dvd y)"

definition calendar_month_length :: "int \<Rightarrow> int \<Rightarrow> int" where
  "calendar_month_length y m =
     (if m = 2 then (if calendar_leap_year y then 29 else 28)
      else if m = 4 \<or> m = 6 \<or> m = 9 \<or> m = 11 then 30 else 31)"

definition calendar_date :: "date \<Rightarrow> bool" where
  "calendar_date c \<longleftrightarrow>
     (case c of (y, m, d) \<Rightarrow> 1 \<le> m \<and> m \<le> 12 \<and> 1 \<le> d \<and> d \<le> calendar_month_length y m)"

definition next_calendar_day :: "date \<Rightarrow> date" where
  "next_calendar_day c =
     (case c of (y, m, d) \<Rightarrow>
        if d < calendar_month_length y m then (y, m, d + 1)
        else if m < 12 then (y, m + 1, 1)
        else (y + 1, 1, 1))"

text \<open>\<open>calendar_days c n\<close>: the \<open>n\<close> consecutive calendar days of which \<open>c\<close> is the first.\<close>

fun calendar_days :: "date \<Rightarrow> nat \<Rightarrow> date list" where
  "calendar_days c 0 = []"
| "calendar_days c (Suc n) = c # calendar_days (next_calendar_day c) n"

definition mmdd :: "date \<Rightarrow> string" where
  "mmdd c =
     (case c of (y, m, d) \<Rightarrow>
        [digit_char (nat m div 10), digit_char (nat m mod 10),
         digit_char (nat d div 10), digit_char (nat d mod 10)])"

definition date_of :: "datetime \<Rightarrow> date" where
  "date_of t = (year t, month t, day t)"

text \<open>The time of day of a datetime, in microseconds since midnight.\<close>

definition time_of_day :: "datetime \<Rightarrow> int" where
  "time_of_day t = ((hour t * 3600 + minute t * 60 + second t) * 1000000 + microsecond t)"


section \<open>Paths and the local file system\<close>

text \<open>
  \<^verbatim>\<open>pathlib.Path(s)\<close> on a POSIX system splits \<open>s\<close> at \<^verbatim>\<open>/\<close> and drops the empty
  components and the components \<^verbatim>\<open>.\<close>. \<open>split_on\<close> is \<^verbatim>\<open>str.split(sep)\<close>; \<open>path_parts\<close>
  gives the components of a relative path (every path the notebook builds itself starts
  with \<^verbatim>\<open>./\<close>; for a remote path only \<^verbatim>\<open>.name\<close> and \<^verbatim>\<open>.stem\<close> are read, which the root
  does not influence).
\<close>

fun split_on :: "char \<Rightarrow> string \<Rightarrow> string list" where
  "split_on sep [] = [[]]"
| "split_on sep (c # cs) =
     (if c = sep then [] # split_on sep cs
      else (case split_on sep cs of
              [] \<Rightarrow> [[c]]
            | x # xs \<Rightarrow> (c # x) # xs))"

type_synonym path = "string list"

definition path_parts :: "string \<Rightarrow> path" where
  "path_parts s = filter (\<lambda>x. x \<noteq> [] \<and> x \<noteq> ''.'') (split_on CHR ''/'' s)"

text \<open>\<^verbatim>\<open>PurePath.name\<close>: the final component, or the empty string when there is none.\<close>

definition path_name :: "string \<Rightarrow> string" where
  "path_name s = (if path_parts s = [] then [] else last (path_parts s))"

text \<open>\<^verbatim>\<open>str.rfind(c)\<close>: the index of the last occurrence of \<open>c\<close>, or \<open>-1\<close>.\<close>

definition rfind :: "string \<Rightarrow> char \<Rightarrow> int" where
  "rfind s c =
     (if c \<in> set s then int (length s) - 1 - int (length (takeWhile (\<lambda>x. x \<noteq> c) (rev s)))
      else - 1)"

text \<open>
  \<^verbatim>\<open>PurePath.stem\<close>:
  \<^verbatim>\<open>
  name = self.name
  i = name.rfind('.')
  if 0 < i < len(name) - 1: return name[:i]
  else: return name
  \<close>
\<close>

definition path_stem :: "string \<Rightarrow> string" where
  "path_stem s =
     (let name = path_name s;
          i = rfind name CHR ''.''
      in if 0 < i \<and> i < int (length name) - 1 then take (nat i) name else name)"

text \<open>\<^verbatim>\<open>str(path)\<close> of a relative path: the components joined by \<^verbatim>\<open>/\<close>, or \<^verbatim>\<open>.\<close>.\<close>

fun join_parts :: "path \<Rightarrow> string" where
  "join_parts [] = []"
| "join_parts [x] = x"
| "join_parts (x # y # ys) = x @ ''/'' @ join_parts (y # ys)"

definition path_str :: "path \<Rightarrow> string" where
  "path_str p = (if p = [] then ''.'' else join_parts p)"

text \<open>
  The local file system is a map from relative paths (component lists, counted from the
  working directory) to nodes: a directory, or a file holding the dataset written to it.
  The working directory itself, the empty path, is a directory. Component lists identify
  locations as long as no component is \<^verbatim>\<open>..\<close> and no symbolic link is involved.
\<close>

datatype 'ds node = Dir | File 'ds

type_synonym 'ds fsys = "path \<rightharpoonup> 'ds node"

definition node_at :: "'ds fsys \<Rightarrow> path \<Rightarrow> 'ds node option" where
  "node_at disk p = (if p = [] then Some Dir else disk p)"

text \<open>
  \<^verbatim>\<open>Path.mkdir(exist_ok=True)\<close>, with \<^verbatim>\<open>parents=False\<close>: \<^verbatim>\<open>os.mkdir\<close> creates the
  directory when nothing is there and the parent is a directory. The
  \<^verbatim>\<open>FileExistsError\<close> of an existing path is swallowed only when the path is a
  directory; a missing parent (\<^verbatim>\<open>FileNotFoundError\<close>) and a parent that is a file
  (\<^verbatim>\<open>NotADirectoryError\<close>) are raised. The exception carries the path.
\<close>

definition mkdir_exist_ok :: "'ds fsys \<Rightarrow> path \<Rightarrow> py_exc + 'ds fsys" where
  "mkdir_exist_ok disk p =
     (case node_at disk p of
        Some Dir \<Rightarrow> Inr disk
      | Some (File _) \<Rightarrow> Inl (Raise FileExistsError (path_str p))
      | None \<Rightarrow>
          (case node_at disk (butlast p) of
             Some Dir \<Rightarrow> Inr (disk(p \<mapsto> Dir))
           | Some (File _) \<Rightarrow> Inl (Raise NotADirectoryError (path_str p))
           | None \<Rightarrow> Inl (Raise FileNotFoundError (path_str p))))"

section \<open>Configuration and external services\<close>

text \<open>
  \<^verbatim>\<open>
  data_type='Hake'
  range_meter_bin = 0.2
  ping_time_bin = '2s'
  start_datetime = dt.datetime(2017, 7, 24, 0, 0)
  end_datetime = dt.datetime(2017, 8, 24, 23, 59)
  \<close>
  The constants are edited in place before a run, so they are the fields of a record.
  \<^verbatim>\<open>range_meter_bin\<close> is a Python float; its type is left open (\<open>'f\<close>), since the
  notebook only formats it and hands it on.
\<close>

record 'f config =
  data_type :: string
  range_meter_bin :: 'f
  ping_time_bin :: string
  start_datetime :: datetime
  end_datetime :: datetime

text \<open>
  A write that raises does so either before the target file is opened, or after: the
  target has then been created, or an earlier file there emptied, and holds what the
  interrupted write left of it, the incomplete content \<open>r\<close> of \<open>After_open e r\<close>.
\<close>

datatype 'ds fault = Before_open py_exc | After_open py_exc 'ds

text \<open>
  Everything the notebook delegates is a field of \<open>services\<close>: the remote object
  store, echopype, xarray, the clock, and the ways the local disk can refuse a write.
  \<open>'ed\<close> is echopype's \<^verbatim>\<open>EchoData\<close>, \<open>'ds\<close> an xarray \<^verbatim>\<open>Dataset\<close> or \<^verbatim>\<open>DataArray\<close>.
  A service that can raise returns \<open>py_exc + 'a\<close>. The claims about the notebook's own
  statements hold for every value of this record; the claim about the dataset the Merger
  produces is about the four xarray operations as the section on datasets gives them.

  \<^item> \<open>float_str\<close>: \<^verbatim>\<open>format(x)\<close> of a float inside an f-string.
  \<^item> \<open>fsspec_filesystem\<close>: \<^verbatim>\<open>fsspec.filesystem('s3', anon=True)\<close>.
  \<^item> \<open>s3_glob\<close>: \<^verbatim>\<open>fs.glob(pattern)\<close> on the bucket.
  \<^item> \<open>open_raw\<close>: \<^verbatim>\<open>ep.open_raw(url, sonar_model='EK60', storage_options={'anon': True})\<close>.
  \<^item> \<open>compute_Sv\<close>, \<open>compute_MVBS\<close>: \<^verbatim>\<open>ep.calibrate.compute_Sv\<close>,
    \<^verbatim>\<open>ep.commongrid.compute_MVBS\<close>.
  \<^item> \<open>platform_longitude\<close>, \<open>platform_latitude\<close>: \<^verbatim>\<open>ed['Platform'].longitude\<close> and
    \<^verbatim>\<open>.latitude\<close>.
  \<^item> \<open>write_fault\<close>: how \<^verbatim>\<open>to_netcdf\<close> fails for a path and a dataset on a given disk,
    if it does (see \<open>to_netcdf\<close> below).
  \<^item> \<open>glob_sorted\<close>, \<open>open_files\<close>: inside \<^verbatim>\<open>xr.open_mfdataset\<close>, the sorted expansion
    of the pattern on the local disk, and the opening and combining of the files found
    (\<^verbatim>\<open>data_vars='minimal', coords='minimal', combine='by_coords'\<close>).
  \<^item> \<open>getitem\<close>, \<open>interp_time1\<close>, \<open>setitem\<close>, \<open>assign_attrs_history\<close>: \<^verbatim>\<open>ds[key]\<close>,
    \<^verbatim>\<open>da.interp(time1=t)\<close>, \<^verbatim>\<open>ds[key] = v\<close>, \<^verbatim>\<open>da.assign_attrs({"history": h})\<close>.
  \<^item> \<open>utcnow_str\<close>: \<^verbatim>\<open>str(datetime.datetime.utcnow())\<close> when the merge cell runs.
\<close>

record ('f, 'ed, 'ds) services =
  float_str :: "'f \<Rightarrow> string"
  fsspec_filesystem :: "py_exc + unit"
  s3_glob :: "string \<Rightarrow> py_exc + string list"
  open_raw :: "string \<Rightarrow> py_exc + 'ed"
  compute_Sv :: "'ed \<Rightarrow> py_exc + 'ds"
  compute_MVBS :: "'ds \<Rightarrow> 'f \<Rightarrow> string \<Rightarrow> py_exc + 'ds"
  platform_longitude :: "'ed \<Rightarrow> py_exc + 'ds"
  platform_latitude :: "'ed \<Rightarrow> py_exc + 'ds"
  write_fault :: "'ds fsys \<Rightarrow> path \<Rightarrow> 'ds \<Rightarrow> 'ds fault option"
  glob_sorted :: "'ds fsys \<Rightarrow> string \<Rightarrow> string list"
  open_files :: "'ds fsys \<Rightarrow> string list \<Rightarrow> py_exc + 'ds"
  getitem :: "'ds \<Rightarrow> string \<Rightarrow> py_exc + 'ds"
  interp_time1 :: "'ds \<Rightarrow> 'ds \<Rightarrow> py_exc + 'ds"
  setitem :: "'ds \<Rightarrow> string \<Rightarrow> 'ds \<Rightarrow> py_exc + 'ds"
  assign_attrs_history :: "'ds \<Rightarrow> string \<Rightarrow> py_exc + 'ds"
  utcnow_str :: string

text \<open>
  What a run changes: the local disk and the lines printed. A stage returns its outcome
  (\<open>Inl\<close> the exception that left it) together with the world as it is then.
\<close>

record 'ds world =
  disk :: "'ds fsys"
  stdout :: "string list"

text \<open>
  \<^verbatim>\<open>ds.to_netcdf(path)\<close> opens the target in the default mode \<^verbatim>\<open>'w'\<close>, which creates the
  file or empties an earlier file at that path, writes the encoded dataset and closes
  the file. When it returns, the file at \<open>path\<close> holds the dataset. When it raises before
  the target is opened, the disk is as it was. When it raises after, the target is
  there with the incomplete content, whatever the path held before. The outcome comes
  with the disk as the call leaves it.
\<close>

definition to_netcdf ::
  "('f, 'ed, 'ds) services \<Rightarrow> 'ds fsys \<Rightarrow> path \<Rightarrow> 'ds \<Rightarrow> (py_exc + unit) \<times> 'ds fsys" where
  "to_netcdf sv dk p ds =
     (case write_fault sv dk p ds of
        None \<Rightarrow> (Inr (), dk(p \<mapsto> File ds))
      | Some (Before_open e) \<Rightarrow> (Inl e, dk)
      | Some (After_open e r) \<Rightarrow> (Inl e, dk(p \<mapsto> File r)))"


section \<open>The Output Layout Builder\<close>

text \<open>
  \<^verbatim>\<open>
  base_dpath = Path('./'+f"{data_type}_range={range_meter_bin}_ping={ping_time_bin}_start={start_datetime.strftime('%Y-%m-%d-%H-%M')}_end={end_datetime.strftime('%Y-%m-%d-%H-%M')}")
  base_dpath.mkdir(exist_ok=True)
  calibrated_dpath = (base_dpath / 'HakeSurvey')
  calibrated_dpath.mkdir(exist_ok=True)
  lon_dpath = (base_dpath / 'Lon')
  lon_dpath.mkdir(exist_ok=True)
  lat_dpath = (base_dpath / 'Lat')
  lat_dpath.mkdir(exist_ok=True)
  \<close>
  \<^verbatim>\<open>strftime\<close> pads every field with zeros (the year to four digits, as the Python
  documentation gives it).
\<close>

definition strftime_Ymd_HM :: "datetime \<Rightarrow> string" where
  "strftime_Ymd_HM t =
     zfill (str_int (year t)) 4 @ ''-'' @ zfill (str_int (month t)) 2 @ ''-''
       @ zfill (str_int (day t)) 2 @ ''-'' @ zfill (str_int (hour t)) 2 @ ''-''
       @ zfill (str_int (minute t)) 2"

definition root_name :: "('f, 'ed, 'ds) services \<Rightarrow> 'f config \<Rightarrow> string" where
  "root_name sv cfg =
     data_type cfg @ ''_range='' @ float_str sv (range_meter_bin cfg)
       @ ''_ping='' @ ping_time_bin cfg
       @ ''_start='' @ strftime_Ymd_HM (start_datetime cfg)
       @ ''_end='' @ strftime_Ymd_HM (end_datetime cfg)"

definition base_dpath :: "('f, 'ed, 'ds) services \<Rightarrow> 'f config \<Rightarrow> path" where
  "base_dpath sv cfg = path_parts (''./'' @ root_name sv cfg)"

definition calibrated_dpath :: "('f, 'ed, 'ds) services \<Rightarrow> 'f config \<Rightarrow> path" where
  "calibrated_dpath sv cfg = base_dpath sv cfg @ [''HakeSurvey'']"

definition lon_dpath :: "('f, 'ed, 'ds) services \<Rightarrow> 'f config \<Rightarrow> path" where
  "lon_dpath sv cfg = base_dpath sv cfg @ [''Lon'']"

definition lat_dpath :: "('f, 'ed, 'ds) services \<Rightarrow> 'f config \<Rightarrow> path" where
  "lat_dpath sv cfg = base_dpath sv cfg @ [''Lat'']"

text \<open>
  The four \<^verbatim>\<open>mkdir\<close> calls in the order of the cell. The first that raises ends the
  cell; the directories made before it stay.
\<close>

definition layout_builder ::
  "('f, 'ed, 'ds) services \<Rightarrow> 'f config \<Rightarrow> 'ds fsys \<Rightarrow> (py_exc + unit) \<times> 'ds fsys" where
  "layout_builder sv cfg dk =
     (case mkdir_exist_ok dk (base_dpath sv cfg) of
        Inl e \<Rightarrow> (Inl e, dk)
      | Inr dk1 \<Rightarrow>
          (case mkdir_exist_ok dk1 (calibrated_dpath sv cfg) of
             Inl e \<Rightarrow> (Inl e, dk1)
           | Inr dk2 \<Rightarrow>
               (case mkdir_exist_ok dk2 (lon_dpath sv cfg) of
                  Inl e \<Rightarrow> (Inl e, dk2)
                | Inr dk3 \<Rightarrow>
                    (case mkdir_exist_ok dk3 (lat_dpath sv cfg) of
                       Inl e \<Rightarrow> (Inl e, dk3)
                     | Inr dk4 \<Rightarrow> (Inr (), dk4)))))"

section \<open>The Per-File Converter\<close>

text \<open>
  \<^verbatim>\<open>
  for s3rawfpath in s3rawfiles:
      raw_fpath = Path(s3rawfpath)
      try:
          ed = ep.open_raw(f"s3://{s3rawfpath}", sonar_model='EK60', storage_options={'anon': True})
          ds_Sv = ep.calibrate.compute_Sv(ed)
          ds_MVBS = ep.commongrid.compute_MVBS(ds_Sv, range_meter_bin=range_meter_bin, ping_time_bin=ping_time_bin)
          ds_MVBS.to_netcdf(calibrated_dpath / f"MVBS_{raw_fpath.stem}.nc")
          ds_lon = ed['Platform'].longitude
          ds_lon.to_netcdf(lon_dpath / f"MVBS_{raw_fpath.stem}.nc")
          ds_lat = ed['Platform'].latitude
          ds_lat.to_netcdf(lat_dpath / f"MVBS_{raw_fpath.stem}.nc")
          print(f"MVBS_{raw_fpath.stem}.nc created")
      except Exception as e:
          print(f"Failed to process raw file {raw_fpath.name}: {e}")
  \<close>
  \<open>try_body\<close> is the body of the \<^verbatim>\<open>try\<close>: it stops at the first statement that raises and
  returns the exception together with the world as that statement left it.
\<close>

definition mvbs_fname :: "string \<Rightarrow> string" where
  "mvbs_fname s3rawfpath = ''MVBS_'' @ path_stem s3rawfpath @ ''.nc''"

definition try_body ::
  "('f, 'ed, 'ds) services \<Rightarrow> 'f config \<Rightarrow> string \<Rightarrow> 'ds world \<Rightarrow> (py_exc + unit) \<times> 'ds world" where
  "try_body sv cfg s3rawfpath w =
     (case open_raw sv (''s3://'' @ s3rawfpath) of
        Inl e \<Rightarrow> (Inl e, w)
      | Inr ed \<Rightarrow>
     (case compute_Sv sv ed of
        Inl e \<Rightarrow> (Inl e, w)
      | Inr ds_Sv \<Rightarrow>
     (case compute_MVBS sv ds_Sv (range_meter_bin cfg) (ping_time_bin cfg) of
        Inl e \<Rightarrow> (Inl e, w)
      | Inr ds_MVBS \<Rightarrow>
     (case to_netcdf sv (disk w) (calibrated_dpath sv cfg @ [mvbs_fname s3rawfpath]) ds_MVBS of
        (Inl e, dk1) \<Rightarrow> (Inl e, w\<lparr>disk := dk1\<rparr>)
      | (Inr u, dk1) \<Rightarrow>
     (case platform_longitude sv ed of
        Inl e \<Rightarrow> (Inl e, w\<lparr>disk := dk1\<rparr>)
      | Inr ds_lon \<Rightarrow>
     (case to_netcdf sv dk1 (lon_dpath sv cfg @ [mvbs_fname s3rawfpath]) ds_lon of
        (Inl e, dk2) \<Rightarrow> (Inl e, w\<lparr>disk := dk2\<rparr>)
      | (Inr u, dk2) \<Rightarrow>
     (case platform_latitude sv ed of
        Inl e \<Rightarrow> (Inl e, w\<lparr>disk := dk2\<rparr>)
      | Inr ds_lat \<Rightarrow>
     (case to_netcdf sv dk2 (lat_dpath sv cfg @ [mvbs_fname s3rawfpath]) ds_lat of
        (Inl e, dk3) \<Rightarrow> (Inl e, w\<lparr>disk := dk3\<rparr>)
      | (Inr u, dk3) \<Rightarrow>
          (Inr (), w\<lparr>disk := dk3,
                     stdout := stdout w @ [mvbs_fname s3rawfpath @ '' created'']\<rparr>)))))))))"

definition failed_message :: "string \<Rightarrow> py_exc \<Rightarrow> string" where
  "failed_message s3rawfpath e =
     ''Failed to process raw file '' @ path_name s3rawfpath @ '': '' @ exc_str e"

text \<open>
  The loop. \<^verbatim>\<open>except Exception\<close> handles the instances of \<^verbatim>\<open>Exception\<close>; any other
  exception leaves the loop and the cell.
\<close>

fun main_loop ::
  "('f, 'ed, 'ds) services \<Rightarrow> 'f config \<Rightarrow> string list \<Rightarrow> 'ds world \<Rightarrow> (py_exc + unit) \<times> 'ds world" where
  "main_loop sv cfg [] w = (Inr (), w)"
| "main_loop sv cfg (s3rawfpath # rest) w =
     (case try_body sv cfg s3rawfpath w of
        (Inr u, w1) \<Rightarrow> main_loop sv cfg rest w1
      | (Inl e, w1) \<Rightarrow>
          if is_Exception e
          then main_loop sv cfg rest
                 (w1\<lparr>stdout := stdout w1 @ [failed_message s3rawfpath e]\<rparr>)
          else (Inl e, w1))"

text \<open>How many of the three output paths of a remote file are taken on a disk.\<close>

definition outputs_present ::
  "('f, 'ed, 'ds) services \<Rightarrow> 'f config \<Rightarrow> string \<Rightarrow> 'ds fsys \<Rightarrow> nat" where
  "outputs_present sv cfg s3rawfpath dk =
     length (filter (\<lambda>p. dk p \<noteq> None)
               [calibrated_dpath sv cfg @ [mvbs_fname s3rawfpath],
                lon_dpath sv cfg @ [mvbs_fname s3rawfpath],
                lat_dpath sv cfg @ [mvbs_fname s3rawfpath]])"

section \<open>The Merger\<close>




definition history :: "('f, 'ed, 'ds) services \<Rightarrow> string" where
  "history sv = utcnow_str sv @ '' +00:00. '' @ ''Interpolated from Platform latitude/longitude.''"



section \<open>The whole run\<close>

definition bucket :: string where
  "bucket = ''ncei-wcsd-archive''"

definition rawdirpath :: string where
  "rawdirpath = ''data/raw/Bell_M._Shimada/SH1707/EK60''"

text \<open>
  The cells in order, from the layout to the final file. An exception outside the
  \<^verbatim>\<open>try\<close> of the loop ends the run with that exception.
  \<^verbatim>\<open>
  fs = fsspec.filesystem('s3', anon=True)
  s3rawfiles = fs.glob(f"{bucket}/{rawdirpath}/*.raw")
  ...
  print(f"There are {len(s3rawfiles)} target raw files available")
  \<close>
\<close>

text \<open>
  The Date Filter as one stage: the day tokens of the configured range, then the
  selection from a listing.
\<close>

definition target_files :: "'f config \<Rightarrow> string list \<Rightarrow> py_exc + string list" where
  "target_files cfg listing =
     (case date_list (start_datetime cfg) (end_datetime cfg) of
        Inl e \<Rightarrow> Inl e
      | Inr datestrs \<Rightarrow> Inr (date_filter datestrs listing))"



section \<open>The datasets of the Merger\<close>

text \<open>
  The Merger's claim is about what xarray returns, and xarray is not code of the
  repository. The definitions of this section give the datasets and the four operations
  the Merger calls on them the meaning the specification states, and no more: only the
  time axis of a dataset is represented. Numbers are exact rationals, so the rounding of
  floating-point arithmetic is not represented; a missing value (\<^verbatim>\<open>NaN\<close>) is \<open>None\<close>.
\<close>

text \<open>
  Modelled from the spec: xarray's \<^verbatim>\<open>DataArray\<close>, absent from the repository. It is a
  "time-indexed coordinate series": the name of its time axis, the points of that axis,
  one value (or a missing value) at each point, and its textual attributes.
\<close>

record data_array =
  dim_name :: string
  coord :: "rat list"
  data :: "rat option list"
  attrs :: "string \<rightharpoonup> string"











section \<open>Example inputs\<close>

text \<open>
  The notebook's own configuration, and a small listing in the shape the remote lister
  returns: one file of the day before the range, one of its first day, one of its last
  day, one of the day after, and one stamped with another year.
\<close>

definition notebook_start :: datetime where
  "notebook_start = \<lparr>year = 2017, month = 7, day = 24, hour = 0, minute = 0, second = 0, microsecond = 0\<rparr>"

definition notebook_end :: datetime where
  "notebook_end = \<lparr>year = 2017, month = 8, day = 24, hour = 23, minute = 59, second = 0, microsecond = 0\<rparr>"

definition example_listing :: "string list" where
  "example_listing =
     [bucket @ ''/'' @ rawdirpath @ ''/Summer2017-D20170723-T235959.raw'',
      bucket @ ''/'' @ rawdirpath @ ''/Summer2017-D20170724-T000000.raw'',
      bucket @ ''/'' @ rawdirpath @ ''/Summer2017-D20170824-T120000.raw'',
      bucket @ ''/'' @ rawdirpath @ ''/Summer2017-D20170825-T000000.raw'',
      bucket @ ''/'' @ rawdirpath @ ''/Summer2018-D20180724-T000000.raw'']"

definition notebook_config :: "string config" where
  "notebook_config =
     \<lparr>data_type = ''Hake'', range_meter_bin = ''0.2'', ping_time_bin = ''2s'',
      start_datetime = notebook_start, end_datetime = notebook_end\<rparr>"

text \<open>
  A start late in the evening and an end early in the next morning: two calendar days,
  less than 24 hours apart.
\<close>

definition late_start :: datetime where
  "late_start = \<lparr>year = 2017, month = 7, day = 24, hour = 23, minute = 0, second = 0, microsecond = 0\<rparr>"

definition early_end :: datetime where
  "early_end = \<lparr>year = 2017, month = 7, day = 25, hour = 1, minute = 0, second = 0, microsecond = 0\<rparr>"

text \<open>
  Services for the examples: every call succeeds, except that the conversion of a file
  stamped 24 August 2017 raises an exception; a dataset is a number. And the world
  before a first run: an empty working directory, nothing printed.
\<close>

definition example_services :: "(string, nat, nat) services" where
  "example_services =
     \<lparr>float_str = (\<lambda>x. x),
      fsspec_filesystem = Inr (),
      s3_glob = (\<lambda>pattern. Inr example_listing),
      open_raw = (\<lambda>url. if sublist ''D20170824'' url
                           then Inl (Raise OtherException ''corrupt datagram'')
                           else Inr (length url)),
      compute_Sv = (\<lambda>ed. Inr (ed + 1)),
      compute_MVBS = (\<lambda>ds r p. Inr (ds + 1)),
      platform_longitude = (\<lambda>ed. Inr (ed + 3)),
      platform_latitude = (\<lambda>ed. Inr (ed + 4)),
      write_fault = (\<lambda>dk p ds. None),
      glob_sorted = (\<lambda>dk pattern. []),
      open_files = (\<lambda>dk paths. Inr 0),
      getitem = (\<lambda>ds key. Inr ds),
      interp_time1 = (\<lambda>da t. Inr da),
      setitem = (\<lambda>ds key v. Inr ds),
      assign_attrs_history = (\<lambda>da h. Inr da),
      utcnow_str = ''2017-09-01 12:00:00.000000''\<rparr>"

definition empty_world :: "nat world" where
  "empty_world = \<lparr>disk = Map.empty, stdout = []\<rparr>"

text \<open>Two different remote paths with the same file name, hence the same stem.\<close>

definition colliding_first :: string where
  "colliding_first = ''leg1/Summer2017-D20170724-T000000.raw''"

definition colliding_second :: string where
  "colliding_second = ''leg22/Summer2017-D20170724-T000000.raw''"

text \<open>
  The example services with a disk that fills up while the latitude file is written (the
  file is left incomplete, here with content \<open>0\<close>), and with a longitude directory that
  cannot be written to (no file is opened).
\<close>

definition lat_write_fails :: "(string, nat, nat) services" where
  "lat_write_fails =
     example_services\<lparr>write_fault :=
       (\<lambda>dk p ds. if last p = ''MVBS_Summer2017-D20170724-T000000.nc'' \<and> last (butlast p) = ''Lat''
                   then Some (After_open (Raise OSError ''No space left on device'') 0) else None)\<rparr>"

definition lon_write_fails :: "(string, nat, nat) services" where
  "lon_write_fails =
     example_services\<lparr>write_fault :=
       (\<lambda>dk p ds. if last (butlast p) = ''Lon''
                   then Some (Before_open (Raise OSError ''Permission denied'')) else None)\<rparr>"

text \<open>
  The output tree of the notebook's configuration, empty and with one product file in it.
\<close>

definition example_tree :: "nat fsys" where
  "example_tree =
     [[''Hake_range=0.2_ping=2s_start=2017-07-24-00-00_end=2017-08-24-23-59''] \<mapsto> Dir,
          [''Hake_range=0.2_ping=2s_start=2017-07-24-00-00_end=2017-08-24-23-59'', ''HakeSurvey''] \<mapsto> Dir,
          [''Hake_range=0.2_ping=2s_start=2017-07-24-00-00_end=2017-08-24-23-59'', ''Lon''] \<mapsto> Dir,
          [''Hake_range=0.2_ping=2s_start=2017-07-24-00-00_end=2017-08-24-23-59'', ''Lat''] \<mapsto> Dir]"

definition example_tree_with_file :: "nat fsys" where
  "example_tree_with_file =
     [[''Hake_range=0.2_ping=2s_start=2017-07-24-00-00_end=2017-08-24-23-59''] \<mapsto> Dir,
          [''Hake_range=0.2_ping=2s_start=2017-07-24-00-00_end=2017-08-24-23-59'', ''HakeSurvey''] \<mapsto> Dir,
          [''Hake_range=0.2_ping=2s_start=2017-07-24-00-00_end=2017-08-24-23-59'', ''Lon''] \<mapsto> Dir,
          [''Hake_range=0.2_ping=2s_start=2017-07-24-00-00_end=2017-08-24-23-59'', ''Lat''] \<mapsto> Dir,
          [''Hake_range=0.2_ping=2s_start=2017-07-24-00-00_end=2017-08-24-23-59'', ''HakeSurvey'', ''MVBS_Summer2017-D20170724-T000000.nc''] \<mapsto> File 94]"



text \<open>
  A start at noon and an end in the morning two days later: three calendar days, less
  than 48 hours apart. The listing has one file of each of the three days.
\<close>

definition noon_start :: datetime where
  "noon_start = \<lparr>year = 2017, month = 7, day = 24, hour = 12, minute = 0, second = 0, microsecond = 0\<rparr>"

definition morning_end :: datetime where
  "morning_end = \<lparr>year = 2017, month = 7, day = 26, hour = 6, minute = 0, second = 0, microsecond = 0\<rparr>"

definition three_day_config :: "string config" where
  "three_day_config =
     \<lparr>data_type = ''Hake'', range_meter_bin = ''0.2'', ping_time_bin = ''2s'',
      start_datetime = noon_start, end_datetime = morning_end\<rparr>"

definition three_day_listing :: "string list" where
  "three_day_listing =
     [bucket @ ''/'' @ rawdirpath @ ''/Summer2017-D20170724-T130000.raw'',
      bucket @ ''/'' @ rawdirpath @ ''/Summer2017-D20170725-T130000.raw'',
      bucket @ ''/'' @ rawdirpath @ ''/Summer2017-D20170726-T050000.raw'']"










section \<open>Correctness of the date arithmetic\<close>

subsection \<open>Ordinals and calendar dates\<close>

lemma DI_consts: "DI400Y = 146097" "DI100Y = 36524" "DI4Y = 1461"
  by (simp_all add: DI400Y_def DI100Y_def DI4Y_def days_before_year_def)

lemma divmod_pos:
  fixes a b q r :: int
  assumes "a = b * q + r" "0 \<le> r" "r < b"
  shows "a div b = q \<and> a mod b = r"
  using assms int_div_pos_eq int_mod_pos_eq by blast

lemma year_digits:
  fixes Y :: int
  defines "a \<equiv> Y div 400" and "b \<equiv> Y mod 400 div 100"
    and "c \<equiv> Y mod 100 div 4" and "e \<equiv> Y mod 4"
  shows "Y = 400 * a + 100 * b + 4 * c + e"
    and "0 \<le> b" "b < 4" "0 \<le> c" "c < 25" "0 \<le> e" "e < 4"
proof -
  have m100: "Y mod 400 mod 100 = Y mod 100" by (simp add: mod_mod_cancel)
  have m4: "Y mod 100 mod 4 = Y mod 4" by (simp add: mod_mod_cancel)
  have 1: "Y = 400 * a + Y mod 400" by (simp add: a_def)
  have 2: "Y mod 400 = 100 * b + Y mod 100"
    using mult_div_mod_eq [of 100 "Y mod 400"] m100 by (simp add: b_def)
  have 3: "Y mod 100 = 4 * c + e"
    using mult_div_mod_eq [of 4 "Y mod 100"] m4 by (simp add: c_def e_def)
  show "Y = 400 * a + 100 * b + 4 * c + e" using 1 2 3 by linarith
  have "0 \<le> Y mod 400" "Y mod 400 < 400" "0 \<le> Y mod 100" "Y mod 100 < 100"
    by simp_all
  then show "0 \<le> b" "b < 4" "0 \<le> c" "c < 25"
    unfolding b_def c_def by linarith+
  show "0 \<le> e" "e < 4" by (simp_all add: e_def)
qed


lemma days_before_year_digits:
  fixes a b c e :: int
  assumes "0 \<le> b" "b < 4" "0 \<le> c" "c < 25" "0 \<le> e" "e < 4"
  shows "days_before_year (400 * a + 100 * b + 4 * c + e + 1)
           = 146097 * a + 36524 * b + 1461 * c + 365 * e"
proof -
  let ?Y = "400 * a + 100 * b + 4 * c + e"
  have d4: "?Y div 4 = 100 * a + 25 * b + c"
    by (rule int_div_pos_eq [where r = e]) (use assms in simp_all)
  have d100: "?Y div 100 = 4 * a + b"
    by (rule int_div_pos_eq [where r = "4 * c + e"]) (use assms in simp_all)
  have d400: "?Y div 400 = a"
    by (rule int_div_pos_eq [where r = "100 * b + 4 * c + e"]) (use assms in simp_all)
  show ?thesis
    unfolding days_before_year_def Let_def using d4 d100 d400 by simp
qed

lemma is_leap_digits:
  fixes a b c e :: int
  assumes "0 \<le> b" "b < 4" "0 \<le> c" "c < 25" "0 \<le> e" "e < 4"
  shows "is_leap (400 * a + 100 * b + 4 * c + e + 1) \<longleftrightarrow> e = 3 \<and> (c \<noteq> 24 \<or> b = 3)"
proof -
  let ?y = "400 * a + 100 * b + 4 * c + e + 1"
  have m4: "?y mod 4 = (if e = 3 then 0 else e + 1)"
  proof (cases "e = 3")
    case True
    have "?y mod 4 = 0"
      by (rule int_mod_pos_eq [where q = "100 * a + 25 * b + c + 1"]) (use True in simp_all)
    with True show ?thesis by simp
  next
    case False
    have "?y mod 4 = e + 1"
      by (rule int_mod_pos_eq [where q = "100 * a + 25 * b + c"]) (use False assms in simp_all)
    with False show ?thesis by simp
  qed
  have m100: "?y mod 100 = (if c = 24 \<and> e = 3 then 0 else 4 * c + e + 1)"
  proof (cases "c = 24 \<and> e = 3")
    case True
    have "?y mod 100 = 0"
      by (rule int_mod_pos_eq [where q = "4 * a + b + 1"]) (use True in simp_all)
    with True show ?thesis by simp
  next
    case False
    have "?y mod 100 = 4 * c + e + 1"
    proof (rule int_mod_pos_eq [where q = "4 * a + b"])
      show "4 * c + e + 1 < 100" using False assms by arith
    qed (use assms in simp_all)
    with False show ?thesis by simp
  qed
  have m400: "?y mod 400 = (if b = 3 \<and> c = 24 \<and> e = 3 then 0 else 100 * b + 4 * c + e + 1)"
  proof (cases "b = 3 \<and> c = 24 \<and> e = 3")
    case True
    have "?y mod 400 = 0"
      by (rule int_mod_pos_eq [where q = "a + 1"]) (use True in simp_all)
    with True show ?thesis by simp
  next
    case False
    have "?y mod 400 = 100 * b + 4 * c + e + 1"
    proof (rule int_mod_pos_eq [where q = a])
      show "100 * b + 4 * c + e + 1 < 400" using False assms by arith
    qed (use assms in simp_all)
    with False show ?thesis by simp
  qed
  show ?thesis
    unfolding is_leap_def m4 m100 m400 using assms by auto
qed


lemma ord2ymd_last_day:
  fixes a b c :: int
  assumes "0 \<le> b" "b < 4" "0 \<le> c" "c < 25" "c \<noteq> 24 \<or> b = 3"
  shows "ord2ymd (146097 * a + 36524 * b + 1461 * c + 365 * 3 + 365 + 1)
           = (400 * a + 100 * b + 4 * c + 3 + 1, 12, 31)"
proof -
  define n where "n = 146097 * a + 36524 * b + 1461 * c + 365 * 3 + 365"
  define R1 where "R1 = 36524 * b + 1461 * c + 1460"
  have n: "n div 146097 = a \<and> n mod 146097 = R1"
      by (rule divmod_pos) (use assms in \<open>simp_all add: n_def R1_def\<close>)
  show ?thesis
  proof (cases "c = 24")
    case True
    with assms have b: "b = 3" by simp
    have R1: "R1 = 146096" by (simp add: R1_def True b)
    show ?thesis
      unfolding n_def [symmetric]
      by (simp add: ord2ymd_def DI_consts n R1 Let_def True b)
  next
    case False
    define R2 where "R2 = 1461 * c + 1460"
    have c: "c \<le> 23" using False assms by simp
    have r1: "R1 div 36524 = b \<and> R1 mod 36524 = R2"
      by (rule divmod_pos) (use assms c in \<open>simp_all add: R2_def R1_def\<close>)
    have r2: "R2 div 1461 = c \<and> R2 mod 1461 = 1460"
      by (rule divmod_pos) (use assms c in \<open>simp_all add: R2_def\<close>)
    have b4: "b \<noteq> 4" using assms by simp
    show ?thesis
      unfolding n_def [symmetric]
      by (simp add: ord2ymd_def DI_consts n r1 r2 Let_def b4)
  qed
qed

lemma ord2ymd_digits:
  fixes a b c e doy :: int
  assumes "0 \<le> b" "b < 4" "0 \<le> c" "c < 25" "0 \<le> e" "e < 4" "0 \<le> doy" "doy < 365"
  shows "ord2ymd (146097 * a + 36524 * b + 1461 * c + 365 * e + doy + 1)
           = (let year = 400 * a + 100 * b + 4 * c + e + 1;
                  leapyear = (e = 3 \<and> (c \<noteq> 24 \<or> b = 3));
                  month = (doy + 50) div 32;
                  preceding = DAYS_BEFORE_MONTH ! nat month
                                + (if month > 2 \<and> leapyear then 1 else 0)
              in if preceding > doy then
                   let month = month - 1;
                       preceding = preceding
                                     - (DAYS_IN_MONTH ! nat month
                                          + (if month = 2 \<and> leapyear then 1 else 0))
                   in (year, month, doy - preceding + 1)
                 else (year, month, doy - preceding + 1))"
proof -
  define n where "n = 146097 * a + 36524 * b + 1461 * c + 365 * e + doy"
  define R1 where "R1 = 36524 * b + 1461 * c + 365 * e + doy"
  define R2 where "R2 = 1461 * c + 365 * e + doy"
  define R3 where "R3 = 365 * e + doy"
  have n: "n div 146097 = a \<and> n mod 146097 = R1"
      by (rule divmod_pos) (use assms in \<open>simp_all add: n_def R1_def\<close>)
  have r1: "R1 div 36524 = b \<and> R1 mod 36524 = R2"
      by (rule divmod_pos) (use assms in \<open>simp_all add: R2_def R1_def\<close>)
  have r2: "R2 div 1461 = c \<and> R2 mod 1461 = R3"
      by (rule divmod_pos) (use assms in \<open>simp_all add: R2_def R3_def\<close>)
  have r3: "R3 div 365 = e \<and> R3 mod 365 = doy"
      by (rule divmod_pos) (use assms in \<open>simp_all add: R3_def\<close>)
  have ne: "e \<noteq> 4" "b \<noteq> 4" using assms by simp_all
  show ?thesis
    unfolding n_def [symmetric]
    by (simp add: ord2ymd_def DI_consts n r1 r2 r3 Let_def ne add.commute)
qed


lemma month_cases:
  fixes m :: int
  assumes "1 \<le> m" "m \<le> 12"
  shows "m = 1 \<or> m = 2 \<or> m = 3 \<or> m = 4 \<or> m = 5 \<or> m = 6 \<or> m = 7 \<or> m = 8 \<or> m = 9
           \<or> m = 10 \<or> m = 11 \<or> m = 12"
  using assms by arith

lemma month_day_of_doy:
  fixes m d doy year :: int and L :: bool
  assumes m: "1 \<le> m" "m \<le> 12"
    and d: "1 \<le> d" "d \<le> (if m = 2 \<and> L then 29 else DAYS_IN_MONTH ! nat m)"
    and doy: "doy = DAYS_BEFORE_MONTH ! nat m + (if m > 2 \<and> L then 1 else 0) + d - 1"
  shows "(let month = (doy + 50) div 32;
              preceding = DAYS_BEFORE_MONTH ! nat month
                            + (if month > 2 \<and> L then 1 else 0)
          in if preceding > doy then
               let month = month - 1;
                   preceding = preceding
                                 - (DAYS_IN_MONTH ! nat month
                                      + (if month = 2 \<and> L then 1 else 0))
               in (year, month, doy - preceding + 1)
             else (year, month, doy - preceding + 1)) = (year, m, d)"
proof -
  define k where "k = (doy + 50) div 32"
  have k: "32 * k \<le> doy + 50" "doy + 50 < 32 * k + 32"
    unfolding k_def by linarith+
  have est: "k = m \<or> k = m + 1 \<and> m < 12"
    using month_cases [OF m] d doy k
    by (elim disjE; simp add: DAYS_BEFORE_MONTH_def DAYS_IN_MONTH_def split: if_splits; linarith)
  show ?thesis
    using month_cases [OF m] est d doy
    unfolding k_def [symmetric] Let_def
    by (elim disjE; simp add: DAYS_BEFORE_MONTH_def DAYS_IN_MONTH_def split: if_splits)
qed


lemma is_leap_calendar: "is_leap y = calendar_leap_year y"
  by (auto simp: is_leap_def calendar_leap_year_def dvd_eq_mod_eq_0)

lemma days_in_month_calendar:
  "1 \<le> m \<Longrightarrow> m \<le> 12 \<Longrightarrow> days_in_month y m = calendar_month_length y m"
  using month_cases [of m]
  by (auto simp: days_in_month_def calendar_month_length_def DAYS_IN_MONTH_def is_leap_calendar)

lemma ord2ymd_ymd2ord:
  assumes "calendar_date (y, m, d)"
  shows "ord2ymd (ymd2ord y m d) = (y, m, d)"
proof -
  from assms have m: "1 \<le> m" "m \<le> 12" and d: "1 \<le> d" "d \<le> days_in_month y m"
    by (simp_all add: calendar_date_def days_in_month_calendar)
  define a b c e where "a = (y - 1) div 400" and "b = (y - 1) mod 400 div 100"
    and "c = (y - 1) mod 100 div 4" and "e = (y - 1) mod 4"
  note dg = year_digits [of "y - 1", folded a_def b_def c_def e_def]
  have y: "y = 400 * a + 100 * b + 4 * c + e + 1" using dg(1) by simp
  define L where "L \<longleftrightarrow> e = 3 \<and> (c \<noteq> 24 \<or> b = 3)"
  have leap: "is_leap y = L"
    unfolding y L_def by (rule is_leap_digits) (rule dg)+
  define doy where "doy = DAYS_BEFORE_MONTH ! nat m + (if m > 2 \<and> L then 1 else 0) + d - 1"
  have ord: "ymd2ord y m d = 146097 * a + 36524 * b + 1461 * c + 365 * e + doy + 1"
    unfolding ymd2ord_def days_before_month_def leap doy_def
    by (subst y, subst days_before_year_digits) (use dg in simp_all)
  have d': "d \<le> (if m = 2 \<and> L then 29 else DAYS_IN_MONTH ! nat m)"
    using d(2) by (simp add: days_in_month_def leap)
  have doy_bounds: "0 \<le> doy" "doy < (if L then 366 else 365)"
    using month_cases [OF m] d(1) d'
    by (auto simp: doy_def DAYS_BEFORE_MONTH_def DAYS_IN_MONTH_def split: if_splits)
  show ?thesis
  proof (cases "doy = 365")
    case True
    with doy_bounds have L: L by (simp split: if_splits)
    have md: "m = 12 \<and> d = 31"
      using month_cases [OF m] d(1) d' True L
      by (auto simp: doy_def DAYS_BEFORE_MONTH_def DAYS_IN_MONTH_def split: if_splits)
    have e3: "e = 3" and cb: "c \<noteq> 24 \<or> b = 3" using L by (simp_all add: L_def)
    have "ord2ymd (146097 * a + 36524 * b + 1461 * c + 365 * 3 + 365 + 1)
            = (400 * a + 100 * b + 4 * c + 3 + 1, 12, 31)"
      by (rule ord2ymd_last_day) (use dg cb in simp_all)
    then show ?thesis using ord True e3 md y by simp
  next
    case False
    with doy_bounds have lt: "doy < 365" by (simp split: if_splits)
    have "ord2ymd (ymd2ord y m d) = ord2ymd (146097 * a + 36524 * b + 1461 * c + 365 * e + doy + 1)"
      using ord by simp
    also have "\<dots> = (400 * a + 100 * b + 4 * c + e + 1, m, d)"
      apply (subst ord2ymd_digits)
      using dg doy_bounds(1) lt apply simp_all [8]
      unfolding Let_def L_def [symmetric]
      by (rule month_day_of_doy [OF m d(1) d' doy_def, unfolded Let_def])
    finally show ?thesis using y by simp
  qed
qed

lemma div_step:
  fixes y k :: int
  assumes "0 < k"
  shows "y div k = (y - 1) div k + (if y mod k = 0 then 1 else 0)"
proof -
  define q r where "q = (y - 1) div k" and "r = (y - 1) mod k"
  have r: "0 \<le> r" "r < k" using assms by (simp_all add: r_def)
  have y: "y = k * q + r + 1"
    using mult_div_mod_eq [of k "y - 1"] by (simp add: q_def r_def)
  show ?thesis
  proof (cases "r + 1 = k")
    case True
    then have "y = k * (q + 1) + 0" using y by (simp add: algebra_simps)
    then have "y div k = q + 1 \<and> y mod k = 0"
      by (rule divmod_pos) (use assms in simp_all)
    then show ?thesis by (simp add: q_def)
  next
    case False
    have "y div k = q \<and> y mod k = r + 1"
      by (rule divmod_pos) (use y r False in simp_all)
    then show ?thesis using r by (simp add: q_def)
  qed
qed

lemma days_before_year_step:
  "days_before_year (y + 1) = days_before_year y + (if is_leap y then 366 else 365)"
proof -
  define q4 q100 q400 where "q4 = (y - 1) div 4" and "q100 = (y - 1) div 100"
    and "q400 = (y - 1) div 400"
  define i4 i100 i400 :: int where "i4 = (if y mod 4 = 0 then 1 else 0)"
    and "i100 = (if y mod 100 = 0 then 1 else 0)" and "i400 = (if y mod 400 = 0 then 1 else 0)"
  have f: "y div 4 = q4 + i4" "y div 100 = q100 + i100" "y div 400 = q400 + i400"
    unfolding q4_def q100_def q400_def i4_def i100_def i400_def
    by (rule div_step, simp)+
  have imp1: "y mod 100 = 0" if h: "y mod 400 = 0"
  proof -
    have "100 dvd (400::int)" by simp
    moreover have "400 dvd y" using h by (simp add: dvd_eq_mod_eq_0)
    ultimately have "100 dvd y" by (rule dvd_trans)
    then show ?thesis by (simp add: dvd_eq_mod_eq_0)
  qed
  have imp2: "y mod 4 = 0" if h: "y mod 100 = 0"
  proof -
    have "4 dvd (100::int)" by simp
    moreover have "100 dvd y" using h by (simp add: dvd_eq_mod_eq_0)
    ultimately have "4 dvd y" by (rule dvd_trans)
    then show ?thesis by (simp add: dvd_eq_mod_eq_0)
  qed
  have leap: "(if is_leap y then 366 else 365) = 365 + i4 - i100 + i400"
  proof (cases "y mod 400 = 0")
    case True
    then show ?thesis
      by (simp add: is_leap_def i4_def i100_def i400_def imp1 imp2)
  next
    case n400: False
    show ?thesis
    proof (cases "y mod 100 = 0")
      case True
      then show ?thesis
        by (simp add: is_leap_def i4_def i100_def i400_def n400 imp2)
    next
      case False
      then show ?thesis
        by (simp add: is_leap_def i4_def i100_def i400_def n400)
    qed
  qed
  have a: "days_before_year (y + 1) = y * 365 + (q4 + i4) - (q100 + i100) + (q400 + i400)"
    by (simp add: days_before_year_def f Let_def)
  have b: "days_before_year y = (y - 1) * 365 + q4 - q100 + q400"
    by (simp add: days_before_year_def q4_def q100_def q400_def Let_def)
  show ?thesis
    unfolding a b leap by (simp add: algebra_simps)
qed

lemma days_before_month_step:
  assumes "1 \<le> m" "m < 12"
  shows "days_before_month y (m + 1) = days_before_month y m + days_in_month y m"
  using month_cases [of m] assms
  by (auto simp: days_before_month_def days_in_month_def DAYS_BEFORE_MONTH_def DAYS_IN_MONTH_def)

lemma ymd2ord_next_calendar_day:
  assumes "calendar_date (y, m, d)"
  shows "(case next_calendar_day (y, m, d) of (y', m', d') \<Rightarrow> ymd2ord y' m' d') = ymd2ord y m d + 1"
proof -
  from assms have m: "1 \<le> m" "m \<le> 12" and d: "1 \<le> d" "d \<le> days_in_month y m"
    by (simp_all add: calendar_date_def days_in_month_calendar)
  have len: "calendar_month_length y m = days_in_month y m"
    using m by (simp add: days_in_month_calendar)
  consider "d < days_in_month y m" | "d = days_in_month y m" "m < 12"
    | "d = days_in_month y m" "m = 12"
    using d m by linarith
  then show ?thesis
  proof cases
    case 1
    then show ?thesis by (simp add: next_calendar_day_def len ymd2ord_def)
  next
    case 2
    then show ?thesis
      using days_before_month_step [of m y] m
      by (simp add: next_calendar_day_def len ymd2ord_def)
  next
    case 3
    then show ?thesis
      by (simp add: next_calendar_day_def len ymd2ord_def days_before_year_step
           days_before_month_def days_in_month_def DAYS_BEFORE_MONTH_def DAYS_IN_MONTH_def)
  qed
qed

lemma calendar_date_next:
  assumes "calendar_date c"
  shows "calendar_date (next_calendar_day c)"
  using assms
  by (cases c) (auto simp: calendar_date_def next_calendar_day_def calendar_month_length_def)

subsection \<open>Differences and sums of datetimes\<close>

lemma timedelta_new_normal:
  assumes "0 \<le> s" "s < 86400" "0 \<le> u" "u < 1000000" "\<bar>d\<bar> \<le> 999999999"
  shows "timedelta_new d s u = Inr \<lparr>days = d, seconds = s, microseconds = u\<rparr>"
  using assms by (simp add: timedelta_new_def Let_def)

lemma timedelta_new_eq:
  "timedelta_new d s u =
     (let D = d + (s * 1000000 + u) div 86400000000
      in if abs D > 999999999
         then Inl (Raise OverflowError (''timedelta # of days is too large: '' @ str_int D))
         else Inr \<lparr>days = D, seconds = (s * 1000000 + u) mod 86400000000 div 1000000,
                   microseconds = (s * 1000000 + u) mod 1000000\<rparr>)"
proof -
  define q1 r1 where "q1 = s div 86400" and "r1 = s mod 86400"
  define q2 r2 where "q2 = u div 1000000" and "r2 = u mod 1000000"
  define q3 r3 where "q3 = q2 div 86400" and "r3 = q2 mod 86400"
  define q4 r4 where "q4 = (r1 + r3) div 86400" and "r4 = (r1 + r3) mod 86400"
  define total where "total = s * 1000000 + u"
  have s: "s = 86400 * q1 + r1" by (simp add: q1_def r1_def)
  have u: "u = 1000000 * q2 + r2" by (simp add: q2_def r2_def)
  have q2: "q2 = 86400 * q3 + r3" by (simp add: q3_def r3_def)
  have r13: "r1 + r3 = 86400 * q4 + r4" by (simp add: q4_def r4_def)
  have b: "0 \<le> r2" "r2 < 1000000" "0 \<le> r4" "r4 < 86400"
    by (simp_all add: r2_def r4_def)
  define D where "D = d + s div (24 * 3600) + u div 1000000 div (24 * 3600)
                       + (s mod (24 * 3600) + u div 1000000 mod (24 * 3600)) div (24 * 3600)"
  define S where "S = (s mod (24 * 3600) + u div 1000000 mod (24 * 3600)) mod (24 * 3600)"
  define U where "U = u mod 1000000"
  have eq: "timedelta_new d s u =
              (if abs D > 999999999
               then Inl (Raise OverflowError (''timedelta # of days is too large: '' @ str_int D))
               else Inr \<lparr>days = D, seconds = S, microseconds = U\<rparr>)"
    by (simp only: timedelta_new_def Let_def D_def S_def U_def)
  have D: "D = d + (q1 + q3 + q4)"
    by (simp add: D_def q1_def r1_def q2_def r3_def q3_def q4_def)
  have S: "S = r4" by (simp add: S_def r4_def r1_def r3_def q2_def)
  have U: "U = r2" by (simp add: U_def r2_def)
  have tot: "total = 86400000000 * (q1 + q3 + q4) + (r4 * 1000000 + r2)"
  proof -
    have "total = 86400000000 * (q1 + q3) + 1000000 * (r1 + r3) + r2"
      unfolding total_def by (subst s, subst u, subst q2) (simp add: algebra_simps)
    also have "\<dots> = 86400000000 * (q1 + q3 + q4) + (r4 * 1000000 + r2)"
      by (subst r13) (simp add: algebra_simps)
    finally show ?thesis .
  qed
  have rb: "0 \<le> r4 * 1000000 + r2" "r4 * 1000000 + r2 < 86400000000"
    using b by linarith+
  have dm: "total div 86400000000 = q1 + q3 + q4 \<and> total mod 86400000000 = r4 * 1000000 + r2"
    by (rule divmod_pos) (use tot rb in simp_all)
  have dm2: "(r4 * 1000000 + r2) div 1000000 = r4 \<and> (r4 * 1000000 + r2) mod 1000000 = r2"
    by (rule divmod_pos) (use b in simp_all)
  have tot2: "total = 1000000 * (86400 * (q1 + q3 + q4) + r4) + r2"
    using tot by (simp add: algebra_simps)
  have dm3: "total div 1000000 = 86400 * (q1 + q3 + q4) + r4 \<and> total mod 1000000 = r2"
    by (rule divmod_pos) (use tot2 b in simp_all)
  show ?thesis
    unfolding eq total_def [symmetric] Let_def D S U using dm dm2 dm3 by simp
qed

lemma days_before_year_mono:
  assumes "y \<le> y'"
  shows "days_before_year y \<le> days_before_year y'"
proof -
  have "days_before_year y \<le> days_before_year (y + int n)" for n
  proof (induction n)
    case 0
    show ?case by simp
  next
    case (Suc n)
    have "days_before_year (y + int n) \<le> days_before_year (y + int n + 1)"
      by (simp add: days_before_year_step)
    moreover have "y + int n + 1 = y + int (Suc n)" by simp
    ultimately show ?case using Suc by (metis order_trans)
  qed
  from this [of "nat (y' - y)"] assms show ?thesis by simp
qed

lemma day_of_year_bounds:
  assumes "calendar_date (y, m, d)"
  shows "1 \<le> days_before_month y m + d"
    and "days_before_month y m + d \<le> (if is_leap y then 366 else 365)"
proof -
  from assms have m: "1 \<le> m" "m \<le> 12" and d: "1 \<le> d" "d \<le> days_in_month y m"
    by (simp_all add: calendar_date_def days_in_month_calendar)
  show "1 \<le> days_before_month y m + d"
    using month_cases [OF m] d
    by (auto simp: days_before_month_def DAYS_BEFORE_MONTH_def)
  show "days_before_month y m + d \<le> (if is_leap y then 366 else 365)"
    using month_cases [OF m] d
    by (auto simp: days_before_month_def days_in_month_def DAYS_BEFORE_MONTH_def DAYS_IN_MONTH_def
          split: if_splits)
qed

lemma valid_datetime_calendar_date:
  "valid_datetime t \<Longrightarrow> calendar_date (date_of t)"
  by (auto simp: valid_datetime_def calendar_date_def date_of_def days_in_month_calendar)

lemma toordinal_bounds:
  assumes "valid_datetime t"
  shows "1 \<le> toordinal t" and "toordinal t \<le> MAXORDINAL"
proof -
  have cd: "calendar_date (year t, month t, day t)"
    using valid_datetime_calendar_date [OF assms] by (simp add: date_of_def)
  have y: "1 \<le> year t" "year t \<le> 9999" using assms by (simp_all add: valid_datetime_def)
  have c1: "days_before_year 1 = 0" and c2: "days_before_year 10000 = 3652059"
    by (simp_all add: days_before_year_def)
  have "days_before_year 1 \<le> days_before_year (year t)"
    by (rule days_before_year_mono) (rule y)
  then have lo: "0 \<le> days_before_year (year t)" by (simp only: c1)
  have "days_before_year (year t + 1) \<le> days_before_year 10000"
    by (rule days_before_year_mono) (use y in simp)
  then have hi: "days_before_year (year t) + (if is_leap (year t) then 366 else 365) \<le> 3652059"
    by (simp only: c2 days_before_year_step)
  show "1 \<le> toordinal t"
    using lo day_of_year_bounds(1) [OF cd] by (simp add: toordinal_def ymd2ord_def)
  show "toordinal t \<le> MAXORDINAL"
    using hi day_of_year_bounds(2) [OF cd] by (simp add: toordinal_def ymd2ord_def MAXORDINAL_def)
qed

lemma time_of_day_bounds:
  assumes "valid_datetime t"
  shows "0 \<le> time_of_day t" and "time_of_day t < 86400000000"
proof -
  define secs where "secs = hour t * 3600 + minute t * 60 + second t"
  have "0 \<le> secs" "secs \<le> 86399"
    using assms unfolding secs_def valid_datetime_def by linarith+
  moreover have "0 \<le> microsecond t" "microsecond t \<le> 999999"
    using assms unfolding valid_datetime_def by linarith+
  moreover have "time_of_day t = secs * 1000000 + microsecond t"
    by (simp add: time_of_day_def secs_def)
  ultimately show "0 \<le> time_of_day t" and "time_of_day t < 86400000000"
    by linarith+
qed

lemma datetime_sub_days:
  assumes "valid_datetime s" "valid_datetime e"
  shows "\<exists>r. datetime_sub e s = Inr r
           \<and> days r = toordinal e - toordinal s
                        + (if time_of_day s \<le> time_of_day e then 0 else - 1)"
proof -
  define total where "total = time_of_day e - time_of_day s"
  define c :: int where "c = (if time_of_day s \<le> time_of_day e then 0 else - 1)"
  have tot: "(second e + minute e * 60 + hour e * 3600 - (second s + minute s * 60 + hour s * 3600))
               * 1000000 + (microsecond e - microsecond s) = total"
    by (simp add: total_def time_of_day_def algebra_simps)
  note bs = time_of_day_bounds [OF assms(1)] and be = time_of_day_bounds [OF assms(2)]
  have "total div 86400000000 = c \<and> total mod 86400000000 = total - 86400000000 * c"
    by (rule divmod_pos) (use bs be in \<open>auto simp: c_def total_def\<close>)
  then have c: "total div 86400000000 = c" by simp
  have "\<bar>toordinal e - toordinal s + c\<bar> \<le> 999999999"
    using toordinal_bounds [OF assms(1)] toordinal_bounds [OF assms(2)]
    by (auto simp: c_def MAXORDINAL_def)
  then show ?thesis
    unfolding datetime_sub_def Let_def timedelta_new_eq tot c c_def [symmetric]
    by simp
qed

lemma datetime_add_days:
  assumes "valid_datetime t" "0 \<le> x" "toordinal t + x \<le> MAXORDINAL"
  shows "\<exists>date. datetime_add t \<lparr>days = x, seconds = 0, microseconds = 0\<rparr> = Inr date
           \<and> date_of date = ord2ymd (toordinal t + x)"
proof -
  define secs where "secs = second t + minute t * 60 + hour t * 3600"
  have secs: "0 \<le> secs" "secs < 86400"
    using assms(1) unfolding secs_def valid_datetime_def by linarith+
  have us: "0 \<le> microsecond t" "microsecond t < 1000000"
    using assms(1) unfolding valid_datetime_def by linarith+
  note ob = toordinal_bounds [OF assms(1)]
  have 1: "timedelta_new (toordinal t) secs (microsecond t)
             = Inr \<lparr>days = toordinal t, seconds = secs, microseconds = microsecond t\<rparr>"
    by (rule timedelta_new_normal) (use secs us ob in \<open>simp_all add: MAXORDINAL_def\<close>)
  have 2: "timedelta_new (toordinal t + x) secs (microsecond t)
             = Inr \<lparr>days = toordinal t + x, seconds = secs, microseconds = microsecond t\<rparr>"
    by (rule timedelta_new_normal) (use secs us ob assms in \<open>simp_all add: MAXORDINAL_def\<close>)
  have pos: "0 < toordinal t + x" using ob assms(2) by simp
  obtain y m d where ymd: "ord2ymd (toordinal t + x) = (y, m, d)"
    by (cases "ord2ymd (toordinal t + x)") auto
  show ?thesis
    unfolding datetime_add_def secs_def [symmetric]
    by (simp add: 1 2 pos assms(3) ymd Let_def date_of_def)
qed

lemma digit_char_is_digit:
  assumes "n < 10"
  shows "digit_char n \<in> set ''0123456789''"
  unfolding digit_char_def by (rule nth_mem) (use assms in simp)

lemma digit_char_not_sign:
  assumes "n < 10"
  shows "digit_char n \<noteq> CHR ''+''" and "digit_char n \<noteq> CHR ''-''"
  using digit_char_is_digit [OF assms] by auto

lemma zfill_two_digits:
  assumes "0 \<le> k" "k < 100"
  shows "zfill (str_int k) 2 = [digit_char (nat k div 10), digit_char (nat k mod 10)]"
proof (cases "k < 10")
  case True
  then have s: "str_int k = [digit_char (nat k)]"
    using assms by (simp add: str_int_def str_nat.simps)
  have z: "digit_char 0 = CHR ''0''" by (simp add: digit_char_def)
  have "nat k < 10" using True assms by simp
  then show ?thesis
    using digit_char_not_sign [of "nat k"]
    by (simp add: s zfill_def z)
next
  case False
  then have "nat k div 10 < 10" "\<not> nat k < 10" using assms by simp_all
  then have "str_int k = [digit_char (nat k div 10), digit_char (nat k mod 10)]"
    using assms by (simp add: str_int_def str_nat.simps [of "nat k"] str_nat.simps [of "nat k div 10"])
  then show ?thesis by (simp add: zfill_def)
qed

lemma calendar_month_length_le: "calendar_month_length y m \<le> 31"
  by (simp add: calendar_month_length_def)

lemma day_token_mmdd:
  assumes "calendar_date (date_of t)"
  shows "day_token t = mmdd (date_of t)"
proof -
  from assms have m: "0 \<le> month t" "month t < 100" and d: "0 \<le> day t" "day t < 100"
    using calendar_month_length_le [of "year t" "month t"]
    by (auto simp: calendar_date_def date_of_def)
  show ?thesis
    by (simp add: day_token_def mmdd_def date_of_def zfill_two_digits [OF m] zfill_two_digits [OF d])
qed

subsection \<open>The list of day tokens\<close>

lemma funpow_next_calendar_day:
  assumes "calendar_date c"
  shows "calendar_date ((next_calendar_day ^^ k) c)"
    and "(case (next_calendar_day ^^ k) c of (y, m, d) \<Rightarrow> ymd2ord y m d)
           = (case c of (y, m, d) \<Rightarrow> ymd2ord y m d) + int k"
proof (induction k)
  case 0
  { case 1 show ?case using assms by simp }
  { case 2 show ?case by simp }
next
  case (Suc k)
  obtain y m d where c': "(next_calendar_day ^^ k) c = (y, m, d)"
    by (cases "(next_calendar_day ^^ k) c") auto
  { case 1 show ?case using Suc(1) by (simp add: calendar_date_next) }
  { case 2 show ?case
      using Suc ymd2ord_next_calendar_day [of y m d] by (simp add: c') }
qed

lemma ord2ymd_add:
  assumes "calendar_date (date_of t)"
  shows "ord2ymd (toordinal t + int k) = (next_calendar_day ^^ k) (date_of t)"
proof -
  obtain y m d where c': "(next_calendar_day ^^ k) (date_of t) = (y, m, d)"
    by (cases "(next_calendar_day ^^ k) (date_of t)") auto
  have "calendar_date (y, m, d)" and "ymd2ord y m d = toordinal t + int k"
    using funpow_next_calendar_day [OF assms, of k] unfolding c'
    by (simp_all add: date_of_def toordinal_def)
  then show ?thesis using ord2ymd_ymd2ord [of y m d] by (simp add: c')
qed

lemma calendar_days_funpow:
  "calendar_days c n = map (\<lambda>k. (next_calendar_day ^^ k) c) [0..<n]"
proof (induction n arbitrary: c)
  case 0
  show ?case by simp
next
  case (Suc n)
  have "map (\<lambda>k. (next_calendar_day ^^ k) c) [0..<Suc n]
          = c # map (\<lambda>k. (next_calendar_day ^^ k) (next_calendar_day c)) [0..<n]"
    by (simp add: upt_conv_Cons map_Suc_upt [symmetric] funpow_swap1 del: upt_Suc)
  then show ?case using Suc by simp
qed

lemma date_list_loop_tokens:
  assumes "valid_datetime t"
    and "\<forall>k \<in> set ks. toordinal t + int k \<le> MAXORDINAL"
  shows "date_list_loop t (map int ks) acc
           = Inr (acc @ map (\<lambda>k. mmdd ((next_calendar_day ^^ k) (date_of t))) ks)"
  using assms(2)
proof (induction ks arbitrary: acc)
  case Nil
  show ?case by simp
next
  case (Cons k ks)
  note cd = valid_datetime_calendar_date [OF assms(1)]
  have le: "toordinal t + int k \<le> MAXORDINAL" using Cons.prems by simp
  then have "\<bar>int k\<bar> \<le> 999999999"
    using toordinal_bounds(1) [OF assms(1)] by (simp add: MAXORDINAL_def)
  then have td: "timedelta_new (int k) 0 0 = Inr \<lparr>days = int k, seconds = 0, microseconds = 0\<rparr>"
    by (intro timedelta_new_normal) simp_all
  obtain date where add: "datetime_add t \<lparr>days = int k, seconds = 0, microseconds = 0\<rparr> = Inr date"
    and date: "date_of date = ord2ymd (toordinal t + int k)"
    using datetime_add_days [OF assms(1) _ le] by auto
  have date': "date_of date = (next_calendar_day ^^ k) (date_of t)"
    using date ord2ymd_add [OF cd] by simp
  have "calendar_date (date_of date)"
    unfolding date' by (rule funpow_next_calendar_day(1) [OF cd])
  then have tok: "day_token date = mmdd ((next_calendar_day ^^ k) (date_of t))"
    using day_token_mmdd date' by simp
  show ?case
    using Cons.IH Cons.prems by (simp add: td add tok)
qed

lemma upto_map_int: "[0..int n - 1] = map int [0..<n]"
proof (induction n)
  case 0
  show ?case by simp
next
  case (Suc n)
  have "[0..int (Suc n) - 1] = [0..int n - 1] @ [int n]"
    using upto_rec2 [of 0 "int n"] by simp
  then show ?case using Suc by simp
qed

lemma upto_nat_count:
  "[0..d] = map int [0..<nat (d + 1)]"
proof (cases "0 \<le> d + 1")
  case True
  then have "int (nat (d + 1)) - 1 = d" by simp
  with upto_map_int [of "nat (d + 1)"] show ?thesis by simp
next
  case False
  then show ?thesis by simp
qed

lemma date_list_eq:
  assumes s: "valid_datetime t1" and e: "valid_datetime t2"
  shows "date_list t1 t2
           = Inr (map mmdd (calendar_days (date_of t1)
                   (nat (toordinal t2 - toordinal t1
                           + (if time_of_day t1 \<le> time_of_day t2 then 1 else 0)))))"
proof -
  define cnt where "cnt = nat (toordinal t2 - toordinal t1
                                 + (if time_of_day t1 \<le> time_of_day t2 then 1 else 0))"
  obtain r where sub: "datetime_sub t2 t1 = Inr r"
    and r: "days r = toordinal t2 - toordinal t1
                       + (if time_of_day t1 \<le> time_of_day t2 then 0 else - 1)"
    using datetime_sub_days [OF s e] by auto
  have cnt: "cnt = nat (days r + 1)" by (simp add: cnt_def r)
  have rng: "[0..days r] = map int [0..<cnt]"
    unfolding cnt by (rule upto_nat_count)
  have le: "\<forall>k \<in> set [0..<cnt]. toordinal t1 + int k \<le> MAXORDINAL"
  proof
    fix k
    assume "k \<in> set [0..<cnt]"
    then have "int k < days r + 1" by (simp add: cnt)
    then have "toordinal t1 + int k \<le> toordinal t2" by (simp add: r split: if_splits)
    with toordinal_bounds(2) [OF e] show "toordinal t1 + int k \<le> MAXORDINAL" by simp
  qed
  have "date_list t1 t2 = date_list_loop t1 (map int [0..<cnt]) []"
    unfolding date_list_def sub by (simp add: rng)
  also have "\<dots> = Inr ([] @ map (\<lambda>k. mmdd ((next_calendar_day ^^ k) (date_of t1))) [0..<cnt])"
    by (rule date_list_loop_tokens [OF s le])
  also have "\<dots> = Inr (map mmdd (calendar_days (date_of t1) cnt))"
    unfolding calendar_days_funpow by (simp add: comp_def)
  finally show ?thesis unfolding cnt_def .
qed

lemma date_list_days:
  assumes s: "valid_datetime t1" and e: "valid_datetime t2"
    and ord: "toordinal t2 = toordinal t1 + int n"
    and tod: "time_of_day t1 \<le> time_of_day t2"
  shows "date_list t1 t2 = Inr (map mmdd (calendar_days (date_of t1) (Suc n)))"
  using date_list_eq [OF s e] ord tod by (simp add: nat_add_distrib)

section \<open>Properties of the file-system operations\<close>

lemma mkdir_exist_ok_cases:
  assumes "mkdir_exist_ok dk p = Inr dk'"
  obtains "node_at dk p = Some Dir" "dk' = dk"
  | "node_at dk p = None" "node_at dk (butlast p) = Some Dir" "dk' = dk(p \<mapsto> Dir)"
  using assms
  by (auto simp: mkdir_exist_ok_def split: option.splits node.splits)

lemma mkdir_exist_ok_is_dir:
  assumes "mkdir_exist_ok dk p = Inr dk'"
  shows "node_at dk' p = Some Dir"
  using assms by (rule mkdir_exist_ok_cases) (auto simp: node_at_def split: if_splits)

lemma mkdir_exist_ok_existing:
  assumes "node_at dk p = Some Dir"
  shows "mkdir_exist_ok dk p = Inr dk"
  using assms by (simp add: mkdir_exist_ok_def)

lemma mkdir_exist_ok_keeps:
  assumes "mkdir_exist_ok dk p = Inr dk'" "node_at dk q = Some n"
  shows "node_at dk' q = Some n"
  using assms(1)
  by (rule mkdir_exist_ok_cases) (use assms(2) in \<open>auto simp: node_at_def split: if_splits\<close>)

lemma layout_builder_cases:
  assumes "layout_builder sv cfg dk = (Inr (), dk')"
  obtains dk1 dk2 dk3 where
    "mkdir_exist_ok dk (base_dpath sv cfg) = Inr dk1"
    "mkdir_exist_ok dk1 (calibrated_dpath sv cfg) = Inr dk2"
    "mkdir_exist_ok dk2 (lon_dpath sv cfg) = Inr dk3"
    "mkdir_exist_ok dk3 (lat_dpath sv cfg) = Inr dk'"
  using assms by (auto simp: layout_builder_def split: sum.splits)

lemma layout_builder_dirs:
  assumes "layout_builder sv cfg dk = (Inr (), dk')"
  shows "node_at dk' (base_dpath sv cfg) = Some Dir"
    and "node_at dk' (calibrated_dpath sv cfg) = Some Dir"
    and "node_at dk' (lon_dpath sv cfg) = Some Dir"
    and "node_at dk' (lat_dpath sv cfg) = Some Dir"
proof -
  from assms obtain dk1 dk2 dk3 where
    1: "mkdir_exist_ok dk (base_dpath sv cfg) = Inr dk1" and
    2: "mkdir_exist_ok dk1 (calibrated_dpath sv cfg) = Inr dk2" and
    3: "mkdir_exist_ok dk2 (lon_dpath sv cfg) = Inr dk3" and
    4: "mkdir_exist_ok dk3 (lat_dpath sv cfg) = Inr dk'"
    by (rule layout_builder_cases)
  show "node_at dk' (lat_dpath sv cfg) = Some Dir"
    using 4 by (rule mkdir_exist_ok_is_dir)
  show "node_at dk' (lon_dpath sv cfg) = Some Dir"
    using 4 mkdir_exist_ok_is_dir [OF 3] by (rule mkdir_exist_ok_keeps)
  have "node_at dk3 (calibrated_dpath sv cfg) = Some Dir"
    using 3 mkdir_exist_ok_is_dir [OF 2] by (rule mkdir_exist_ok_keeps)
  with 4 show "node_at dk' (calibrated_dpath sv cfg) = Some Dir"
    by (rule mkdir_exist_ok_keeps)
  have "node_at dk2 (base_dpath sv cfg) = Some Dir"
    using 2 mkdir_exist_ok_is_dir [OF 1] by (rule mkdir_exist_ok_keeps)
  with 3 have "node_at dk3 (base_dpath sv cfg) = Some Dir"
    by (rule mkdir_exist_ok_keeps)
  with 4 show "node_at dk' (base_dpath sv cfg) = Some Dir"
    by (rule mkdir_exist_ok_keeps)
qed

lemma layout_builder_existing:
  assumes "node_at dk (base_dpath sv cfg) = Some Dir"
    and "node_at dk (calibrated_dpath sv cfg) = Some Dir"
    and "node_at dk (lon_dpath sv cfg) = Some Dir"
    and "node_at dk (lat_dpath sv cfg) = Some Dir"
  shows "layout_builder sv cfg dk = (Inr (), dk)"
  using assms by (simp add: layout_builder_def mkdir_exist_ok_existing)

lemma layout_builder_keeps:
  assumes "layout_builder sv cfg dk = (r, dk')" "node_at dk q = Some n"
  shows "node_at dk' q = Some n"
proof -
  have step: "\<And>d p d' . mkdir_exist_ok d p = Inr d' \<Longrightarrow> node_at d q = Some n \<Longrightarrow> node_at d' q = Some n"
    by (rule mkdir_exist_ok_keeps)
  show ?thesis
    using assms
    by (auto simp: layout_builder_def split: sum.splits dest!: step)
qed

lemma layout_builder_creates:
  assumes "node_at dk (butlast (base_dpath sv cfg)) = Some Dir"
    and "node_at dk (base_dpath sv cfg) = None"
    and "node_at dk (calibrated_dpath sv cfg) = None"
    and "node_at dk (lon_dpath sv cfg) = None"
    and "node_at dk (lat_dpath sv cfg) = None"
  shows "layout_builder sv cfg dk
           = (Inr (), dk(base_dpath sv cfg \<mapsto> Dir, calibrated_dpath sv cfg \<mapsto> Dir,
                         lon_dpath sv cfg \<mapsto> Dir, lat_dpath sv cfg \<mapsto> Dir))"
proof -
  have ne: "base_dpath sv cfg \<noteq> []" using assms(2) by (auto simp: node_at_def)
  show ?thesis
    using assms ne
    by (simp add: layout_builder_def mkdir_exist_ok_def node_at_def
          calibrated_dpath_def lon_dpath_def lat_dpath_def)
qed

lemma to_netcdf_Inr:
  "to_netcdf sv dk p ds = (Inr u, dk') \<longleftrightarrow> write_fault sv dk p ds = None \<and> dk' = dk(p \<mapsto> File ds)"
  by (auto simp: to_netcdf_def split: option.splits fault.splits)

lemma to_netcdf_Inl:
  "to_netcdf sv dk p ds = (Inl e, dk') \<longleftrightarrow>
     write_fault sv dk p ds = Some (Before_open e) \<and> dk' = dk
     \<or> (\<exists>r. write_fault sv dk p ds = Some (After_open e r) \<and> dk' = dk(p \<mapsto> File r))"
  by (auto simp: to_netcdf_def split: option.splits fault.splits)

lemma to_netcdf_cases:
  obtains "write_fault sv dk p ds = None" "to_netcdf sv dk p ds = (Inr (), dk(p \<mapsto> File ds))"
  | e where "write_fault sv dk p ds = Some (Before_open e)" "to_netcdf sv dk p ds = (Inl e, dk)"
  | e r where "write_fault sv dk p ds = Some (After_open e r)"
      "to_netcdf sv dk p ds = (Inl e, dk(p \<mapsto> File r))"
  by (cases "write_fault sv dk p ds"; cases "the (write_fault sv dk p ds)")
     (auto simp: to_netcdf_def)

lemma output_paths_distinct:
  "distinct [calibrated_dpath sv cfg @ [n], lon_dpath sv cfg @ [n], lat_dpath sv cfg @ [n]]"
  by (simp add: calibrated_dpath_def lon_dpath_def lat_dpath_def)

text \<open>What a successful pass through the body of the try has done.\<close>

lemma try_body_Inr:
  assumes "try_body sv cfg f w = (Inr u, w')"
  obtains ed ds_Sv ds_MVBS ds_lon ds_lat where
    "open_raw sv (''s3://'' @ f) = Inr ed"
    "compute_Sv sv ed = Inr ds_Sv"
    "compute_MVBS sv ds_Sv (range_meter_bin cfg) (ping_time_bin cfg) = Inr ds_MVBS"
    "platform_longitude sv ed = Inr ds_lon"
    "platform_latitude sv ed = Inr ds_lat"
    "w' = w\<lparr>disk := (disk w)(calibrated_dpath sv cfg @ [mvbs_fname f] \<mapsto> File ds_MVBS,
                              lon_dpath sv cfg @ [mvbs_fname f] \<mapsto> File ds_lon,
                              lat_dpath sv cfg @ [mvbs_fname f] \<mapsto> File ds_lat),
              stdout := stdout w @ [mvbs_fname f @ '' created'']\<rparr>"
  using assms unfolding try_body_def
  by (auto split: sum.splits prod.splits simp: to_netcdf_Inr)

text \<open>
  Where a failed pass through the body of the try has stopped: before anything was
  written, or with one, two or three of the output paths written to, the last of them
  possibly by the write that failed.
\<close>

lemma try_body_Inl_cases:
  assumes "try_body sv cfg f w = (Inl e, w')"
  obtains "w' = w"
  | x where "w' = w\<lparr>disk := (disk w)(calibrated_dpath sv cfg @ [mvbs_fname f] \<mapsto> File x)\<rparr>"
  | x y where
      "w' = w\<lparr>disk := (disk w)(calibrated_dpath sv cfg @ [mvbs_fname f] \<mapsto> File x,
                               lon_dpath sv cfg @ [mvbs_fname f] \<mapsto> File y)\<rparr>"
  | x y z where
      "w' = w\<lparr>disk := (disk w)(calibrated_dpath sv cfg @ [mvbs_fname f] \<mapsto> File x,
                               lon_dpath sv cfg @ [mvbs_fname f] \<mapsto> File y,
                               lat_dpath sv cfg @ [mvbs_fname f] \<mapsto> File z)\<rparr>"
  using assms unfolding try_body_def
  by (auto split: sum.splits prod.splits simp: to_netcdf_Inr to_netcdf_Inl)

lemma try_body_Inl:
  assumes "try_body sv cfg f w = (Inl e, w')"
  shows "w' = w
         \<or> (\<exists>x. w' = w\<lparr>disk := (disk w)(calibrated_dpath sv cfg @ [mvbs_fname f] \<mapsto> File x)\<rparr>)
         \<or> (\<exists>x y.
               w' = w\<lparr>disk := (disk w)(calibrated_dpath sv cfg @ [mvbs_fname f] \<mapsto> File x,
                                        lon_dpath sv cfg @ [mvbs_fname f] \<mapsto> File y)\<rparr>)
         \<or> (\<exists>x y z.
               w' = w\<lparr>disk := (disk w)(calibrated_dpath sv cfg @ [mvbs_fname f] \<mapsto> File x,
                                        lon_dpath sv cfg @ [mvbs_fname f] \<mapsto> File y,
                                        lat_dpath sv cfg @ [mvbs_fname f] \<mapsto> File z)\<rparr>)"
  using assms by (rule try_body_Inl_cases) blast+

lemma main_loop_append:
  "main_loop sv cfg (xs @ ys) w =
     (case main_loop sv cfg xs w of
        (Inr u, w1) \<Rightarrow> main_loop sv cfg ys w1
      | (Inl e, w1) \<Rightarrow> (Inl e, w1))"
  by (induction xs arbitrary: w) (auto split: prod.splits sum.splits)

lemma main_loop_step_failed:
  assumes "try_body sv cfg f w = (Inl e, w1)" "is_Exception e"
  shows "main_loop sv cfg (f # rest) w
           = main_loop sv cfg rest (w1\<lparr>stdout := stdout w1 @ [failed_message f e]\<rparr>)"
  using assms by simp

lemma main_loop_step_ok:
  assumes "try_body sv cfg f w = (Inr u, w1)"
  shows "main_loop sv cfg (f # rest) w = main_loop sv cfg rest w1"
  using assms by simp

text \<open>The paths of the layout depend on the services only through the formatting of the float.\<close>

lemma layout_paths_float_str:
  assumes "float_str sv' = float_str sv"
  shows "base_dpath sv' cfg = base_dpath sv cfg"
    and "calibrated_dpath sv' cfg = calibrated_dpath sv cfg"
    and "lon_dpath sv' cfg = lon_dpath sv cfg"
    and "lat_dpath sv' cfg = lat_dpath sv cfg"
  using assms
  by (simp_all add: base_dpath_def calibrated_dpath_def lon_dpath_def lat_dpath_def root_name_def)


section \<open>The claims about the Date Filter\<close>

lemma sublist_across_separator:
  assumes "c \<notin> set xs"
  shows "sublist xs (as @ c # bs) \<longleftrightarrow> sublist xs as \<or> sublist xs bs"
proof
  assume "sublist xs (as @ c # bs)"
  then obtain ps ss where eq: "as @ c # bs = ps @ xs @ ss"
    by (auto simp: sublist_def)
  then consider us where "as = ps @ us" "us @ c # bs = xs @ ss"
    | us where "as @ us = ps" "c # bs = us @ xs @ ss"
    by (auto simp: append_eq_append_conv2)
  then show "sublist xs as \<or> sublist xs bs"
  proof cases
    case 1
    from 1(2) consider vs where "us = xs @ vs" "vs @ c # bs = ss"
      | vs where "us @ vs = xs" "c # bs = vs @ ss"
      by (auto simp: append_eq_append_conv2)
    then show ?thesis
    proof cases
      case 1
      with \<open>as = ps @ us\<close> show ?thesis by (auto simp: sublist_def)
    next
      case 2
      then have "vs = []" using assms by (cases vs) auto
      with 2 \<open>as = ps @ us\<close> have "as = ps @ xs @ []" by simp
      then show ?thesis unfolding sublist_def by blast
    qed
  next
    case 2
    show ?thesis
    proof (cases us)
      case Nil
      with 2 have "c # bs = xs @ ss" by simp
      with assms have "xs = []" by (cases xs) auto
      then show ?thesis by simp
    next
      case (Cons u us')
      with 2 have "bs = us' @ xs @ ss" by simp
      then show ?thesis unfolding sublist_def by blast
    qed
  qed
next
  assume "sublist xs as \<or> sublist xs bs"
  then show "sublist xs (as @ c # bs)"
  proof
    assume "sublist xs as"
    then obtain ps ss where "as = ps @ xs @ ss" by (auto simp: sublist_def)
    then have "as @ c # bs = ps @ xs @ (ss @ c # bs)" by simp
    then show ?thesis unfolding sublist_def by blast
  next
    assume "sublist xs bs"
    then obtain ps ss where "bs = ps @ xs @ ss" by (auto simp: sublist_def)
    then have "as @ c # bs = (as @ c # ps) @ xs @ ss" by simp
    then show ?thesis unfolding sublist_def by blast
  qed
qed

lemma split_on_no_sep:
  "sep \<notin> set s \<Longrightarrow> split_on sep s = [s]"
  by (induction s) auto

lemma split_on_append:
  "split_on sep (as @ sep # bs) = split_on sep as @ split_on sep bs"
proof (induction as)
  case Nil
  show ?case by simp
next
  case (Cons a as)
  have ne: "split_on sep as \<noteq> []" by (cases as) (auto split: list.splits)
  show ?case using Cons ne by (auto split: list.splits)
qed

lemma path_name_dir_name:
  assumes "CHR ''/'' \<notin> set name" "name \<noteq> []" "name \<noteq> ''.''"
  shows "path_name (dir @ ''/'' @ name) = name"
  using assms by (simp add: path_name_def path_parts_def split_on_append split_on_no_sep)


lemma prefix_no_stamp: "\<not> sublist ''D2017'' (bucket @ ''/'' @ rawdirpath)"
  by (simp add: bucket_def rawdirpath_def sublist_Cons_right)

lemma digit_char_not_slash:
  assumes "n < 10"
  shows "digit_char n \<noteq> CHR ''/''"
  using digit_char_is_digit [OF assms] by auto

lemma mmdd_no_slash:
  assumes "calendar_date c"
  shows "CHR ''/'' \<notin> set (''D2017'' @ mmdd c)"
proof -
  obtain y m d where c: "c = (y, m, d)" by (cases c) auto
  from assms have "1 \<le> m" "m \<le> 12" "1 \<le> d" "d \<le> 31"
    using calendar_month_length_le [of y m] by (auto simp: c calendar_date_def)
  then have "nat m div 10 < 10" "nat m mod 10 < 10" "nat d div 10 < 10" "nat d mod 10 < 10"
    by simp_all
  then show ?thesis
    using digit_char_not_slash [of "nat m div 10"] digit_char_not_slash [of "nat m mod 10"]
      digit_char_not_slash [of "nat d div 10"] digit_char_not_slash [of "nat d mod 10"]
    by (auto simp: c mmdd_def)
qed

lemma calendar_days_calendar_date:
  assumes "calendar_date c" "x \<in> set (calendar_days c n)"
  shows "calendar_date x"
  using assms by (auto simp: calendar_days_funpow funpow_next_calendar_day(1))

lemma stamp_in_listed_path:
  assumes "calendar_date c" and "CHR ''/'' \<notin> set name"
  shows "sublist (''D2017'' @ mmdd c) (bucket @ ''/'' @ rawdirpath @ ''/'' @ name)
           \<longleftrightarrow> sublist (''D2017'' @ mmdd c) (path_name (bucket @ ''/'' @ rawdirpath @ ''/'' @ name))"
proof -
  let ?t = "''D2017'' @ mmdd c" and ?dir = "bucket @ ''/'' @ rawdirpath"
  have t: "CHR ''/'' \<notin> set ?t" by (rule mmdd_no_slash) (rule assms)
  have "\<not> sublist ?t ?dir"
  proof
    assume "sublist ?t ?dir"
    moreover have "sublist ''D2017'' ?t" by (rule sublist_append_rightI)
    ultimately have "sublist ''D2017'' ?dir" by (rule sublist_order.order.trans [rotated])
    with prefix_no_stamp show False by simp
  qed
  then have 1: "sublist ?t (?dir @ CHR ''/'' # name) \<longleftrightarrow> sublist ?t name"
    using sublist_across_separator [OF t, of ?dir name] by simp
  have tne: "?t \<noteq> []" "?t \<noteq> ''.''" by simp_all
  show ?thesis
  proof (cases "sublist ?t name")
    case True
    then have "name \<noteq> []" "name \<noteq> ''.''"
      by (auto simp: sublist_Cons_right)
    then have "path_name (?dir @ ''/'' @ name) = name"
      using assms(2) by (intro path_name_dir_name)
    with True 1 show ?thesis by simp
  next
    case False
    have "path_name (?dir @ ''/'' @ name) = name \<or> path_name (?dir @ ''/'' @ name) \<noteq> name"
      by simp
    have parts: "path_parts (?dir @ ''/'' @ name)
                   = path_parts ?dir @ filter (\<lambda>x. x \<noteq> [] \<and> x \<noteq> ''.'') [name]"
      using assms(2) by (simp add: path_parts_def split_on_append split_on_no_sep)
    have "\<not> sublist ?t (path_name (?dir @ ''/'' @ name))"
    proof (cases "name \<noteq> [] \<and> name \<noteq> ''.''")
      case True
      then have "path_name (?dir @ ''/'' @ name) = name"
        using assms(2) by (intro path_name_dir_name) simp_all
      with False show ?thesis by simp
    next
      case False
      then have "path_name (?dir @ ''/'' @ name) = ''EK60''"
        unfolding path_name_def parts
        by (auto simp: path_parts_def bucket_def rawdirpath_def)
      then show ?thesis by (simp add: sublist_Cons_right)
    qed
    with False 1 show ?thesis by simp
  qed
qed


lemma last_calendar_days:
  assumes "calendar_date (date_of t1)" "0 < N" "last (calendar_days (date_of t1) N) = date_of t2"
  shows "toordinal t2 = toordinal t1 + int (N - 1)"
proof -
  from assms(2) obtain n where N: "N = Suc n" by (cases N) auto
  have "last (calendar_days (date_of t1) N) = (next_calendar_day ^^ n) (date_of t1)"
    unfolding calendar_days_funpow N by (simp add: last_map del: upt_Suc)
  with assms(3) have "(next_calendar_day ^^ n) (date_of t1) = date_of t2" by simp
  with funpow_next_calendar_day(2) [OF assms(1), of n]
  show ?thesis by (simp add: date_of_def toordinal_def N)
qed

text \<open>
  What the Date Filter does when the time of day of the start is not later than that of
  the end, as in the notebook's own configuration (midnight to 23:59). For a start and an
  end datetime whose dates span \<open>N\<close> calendar days (the end date is the last of the \<open>N\<close>
  consecutive days that begin with the start date), the day enumeration yields the \<open>N\<close>
  zero-padded \<^verbatim>\<open>MMDD\<close> tokens of exactly these days, and the filter keeps, in listing
  order, exactly the paths that contain \<^verbatim>\<open>D2017\<close> followed by one of these tokens as a
  contiguous substring, and drops every other path. For a listing of the remote lister's
  shape (the fixed bucket and directory, then a file name without \<^verbatim>\<open>/\<close>) the path contains
  such a stamp exactly when its file name does. The dates need not lie in one year for
  this.
\<close>

lemma date_filter_exact:
  assumes "valid_datetime t1" and "valid_datetime t2"
    and "0 < N" and "last (calendar_days (date_of t1) N) = date_of t2"
    and "time_of_day t1 \<le> time_of_day t2"
  shows "date_list t1 t2 = Inr (map mmdd (calendar_days (date_of t1) N))
    \<and> length (calendar_days (date_of t1) N) = N
    \<and> (\<forall>listing.
          date_filter (map mmdd (calendar_days (date_of t1) N)) listing
            = filter (\<lambda>s3path. \<exists>c \<in> set (calendar_days (date_of t1) N).
                                  sublist (''D2017'' @ mmdd c) s3path) listing)
    \<and> (\<forall>listing.
          (\<forall>s3path \<in> set listing.
              \<exists>name. s3path = bucket @ ''/'' @ rawdirpath @ ''/'' @ name \<and> CHR ''/'' \<notin> set name)
          \<longrightarrow> date_filter (map mmdd (calendar_days (date_of t1) N)) listing
                = filter (\<lambda>s3path. \<exists>c \<in> set (calendar_days (date_of t1) N).
                                      sublist (''D2017'' @ mmdd c) (path_name s3path)) listing)"
proof -
  let ?days = "calendar_days (date_of t1) N"
  note cd = valid_datetime_calendar_date [OF assms(1)]
  from assms(3) obtain n where N: "N = Suc n" by (cases N) auto
  have ord: "toordinal t2 = toordinal t1 + int n"
    using last_calendar_days [OF cd assms(3,4)] by (simp add: N)
  have 1: "date_list t1 t2 = Inr (map mmdd ?days)"
    unfolding N by (rule date_list_days [OF assms(1,2) ord assms(5)])
  have 2: "length ?days = N" by (simp add: calendar_days_funpow)
  have 3: "date_filter (map mmdd ?days) listing
             = filter (\<lambda>s3path. \<exists>c \<in> set ?days. sublist (''D2017'' @ mmdd c) s3path) listing"
    for listing
    by (simp add: date_filter_def list_ex_iff)
  have 4: "date_filter (map mmdd ?days) listing
             = filter (\<lambda>s3path. \<exists>c \<in> set ?days. sublist (''D2017'' @ mmdd c) (path_name s3path)) listing"
    if shape: "\<forall>s3path \<in> set listing.
                 \<exists>name. s3path = bucket @ ''/'' @ rawdirpath @ ''/'' @ name \<and> CHR ''/'' \<notin> set name"
    for listing
    unfolding 3
  proof (rule filter_cong [OF refl])
    fix s3path
    assume "s3path \<in> set listing"
    with shape obtain name where p: "s3path = bucket @ ''/'' @ rawdirpath @ ''/'' @ name"
      and name: "CHR ''/'' \<notin> set name" by blast
    show "(\<exists>c \<in> set ?days. sublist (''D2017'' @ mmdd c) s3path)
            \<longleftrightarrow> (\<exists>c \<in> set ?days. sublist (''D2017'' @ mmdd c) (path_name s3path))"
      unfolding p
      using stamp_in_listed_path [OF calendar_days_calendar_date [OF cd] name]
      by blast
  qed
  from 1 2 3 4 show ?thesis by blast
qed


lemma date_filter_exact_example:
  "valid_datetime notebook_start \<and> valid_datetime notebook_end \<and> (0::nat) < 32
   \<and> last (calendar_days (date_of notebook_start) 32) = date_of notebook_end
   \<and> time_of_day notebook_start \<le> time_of_day notebook_end
   \<and> date_list notebook_start notebook_end
       = Inr [''0724'', ''0725'', ''0726'', ''0727'', ''0728'', ''0729'', ''0730'', ''0731'',
         ''0801'', ''0802'', ''0803'', ''0804'', ''0805'', ''0806'', ''0807'', ''0808'',
         ''0809'', ''0810'', ''0811'', ''0812'', ''0813'', ''0814'', ''0815'', ''0816'',
         ''0817'', ''0818'', ''0819'', ''0820'', ''0821'', ''0822'', ''0823'', ''0824'']
   \<and> date_filter (map mmdd (calendar_days (date_of notebook_start) 32)) example_listing
       = [bucket @ ''/'' @ rawdirpath @ ''/Summer2017-D20170724-T000000.raw'',
          bucket @ ''/'' @ rawdirpath @ ''/Summer2017-D20170824-T120000.raw'']"
proof -
  have h1: "valid_datetime notebook_start" by code_simp
  have h2: "valid_datetime notebook_end" by code_simp
  have h3: "(0::nat) < 32" by simp
  have h4: "last (calendar_days (date_of notebook_start) 32) = date_of notebook_end"
    by code_simp
  have h5: "time_of_day notebook_start \<le> time_of_day notebook_end" by code_simp
  have ev: "map mmdd (calendar_days (date_of notebook_start) 32)
              = [''0724'', ''0725'', ''0726'', ''0727'', ''0728'', ''0729'', ''0730'', ''0731'',
         ''0801'', ''0802'', ''0803'', ''0804'', ''0805'', ''0806'', ''0807'', ''0808'',
         ''0809'', ''0810'', ''0811'', ''0812'', ''0813'', ''0814'', ''0815'', ''0816'',
         ''0817'', ''0818'', ''0819'', ''0820'', ''0821'', ''0822'', ''0823'', ''0824'']"
    by code_simp
  have f: "filter (\<lambda>s3path. \<exists>c \<in> set (calendar_days (date_of notebook_start) 32).
                                sublist (''D2017'' @ mmdd c) s3path) example_listing
             = [bucket @ ''/'' @ rawdirpath @ ''/Summer2017-D20170724-T000000.raw'',
                bucket @ ''/'' @ rawdirpath @ ''/Summer2017-D20170824-T120000.raw'']"
    by code_simp
  from date_filter_exact [OF h1 h2 h3 h4 h5] ev f h1 h2 h3 h4 h5
  show ?thesis by simp
qed

text \<open>
  C1. The claim is that for every start and end whose dates lie in one year and span \<open>N\<close>
  calendar days the filter keeps exactly the paths whose name contains \<^verbatim>\<open>D2017\<close> and the
  token of one of the \<open>N\<close> days. The notebook enumerates
  \<^verbatim>\<open>(end_datetime-start_datetime).days + 1\<close> days, and \<^verbatim>\<open>.days\<close> counts whole 24-hour periods
  (\<open>date_list_eq\<close>): when the time of day of the end is earlier than that of the start,
  the last of the \<open>N\<close> days is not enumerated and its files are dropped. From 24 July 2017
  12:00 to 26 July 2017 06:00 the dates span the three days 24, 25 and 26 July; the
  enumeration yields \<^verbatim>\<open>0724\<close> and \<^verbatim>\<open>0725\<close> only, and the file
  \<^verbatim>\<open>Summer2017-D20170726-T050000.raw\<close>, whose name contains \<^verbatim>\<open>D20170726\<close>, is not kept.
\<close>

theorem date_filter_drops_end_day:
  "valid_datetime noon_start \<and> valid_datetime morning_end
   \<and> year noon_start = year morning_end
   \<and> calendar_days (date_of noon_start) 3 = [(2017, 7, 24), (2017, 7, 25), (2017, 7, 26)]
   \<and> date_of morning_end = (2017, 7, 26)
   \<and> mmdd (2017, 7, 26) = ''0726''
   \<and> path_name (bucket @ ''/'' @ rawdirpath @ ''/Summer2017-D20170726-T050000.raw'')
       = ''Summer2017-D20170726-T050000.raw''
   \<and> sublist (''D2017'' @ ''0726'') ''Summer2017-D20170726-T050000.raw''
   \<and> date_list (start_datetime three_day_config) (end_datetime three_day_config)
       = Inr [''0724'', ''0725'']
   \<and> target_files three_day_config three_day_listing
       = Inr [bucket @ ''/'' @ rawdirpath @ ''/Summer2017-D20170724-T130000.raw'',
              bucket @ ''/'' @ rawdirpath @ ''/Summer2017-D20170725-T130000.raw'']"
  by code_simp

text \<open>
  C2. The claim is that the enumeration yields the token of every calendar day from the
  start date through the end date whatever the times of day. The notebook counts
  \<^verbatim>\<open>(end_datetime-start_datetime).days + 1\<close> days, and \<^verbatim>\<open>.days\<close> is the number of whole
  24-hour periods between the two datetimes (\<open>date_list_eq\<close>): when the end's time of
  day is earlier than the start's, the end date is left out. From 24 July 2017 23:00 to
  25 July 2017 01:00 the enumeration yields only \<^verbatim>\<open>0724\<close>; the token \<^verbatim>\<open>0725\<close> of the end
  date is missing.
\<close>

theorem date_list_misses_end_day:
  "valid_datetime late_start \<and> valid_datetime early_end
   \<and> time_of_day late_start \<le> 86400000000 \<and> toordinal early_end = toordinal late_start + 1
   \<and> date_list late_start early_end = Inr [''0724'']
   \<and> mmdd (date_of early_end) = ''0725''"
  by code_simp

lemma ymd2ord_year_bounds:
  assumes "calendar_date (y, m, d)"
  shows "days_before_year y < ymd2ord y m d" and "ymd2ord y m d \<le> days_before_year (y + 1)"
  using day_of_year_bounds [OF assms]
  by (simp_all add: ymd2ord_def days_before_year_step)

text \<open>A date whose ordinal lies between those of two dates of one year is of that year.\<close>

lemma year_between:
  assumes c: "calendar_date (y, m, d)" and a: "calendar_date (Y, m1, d1)"
    and b: "calendar_date (Y, m2, d2)"
    and lo: "ymd2ord Y m1 d1 \<le> ymd2ord y m d" and hi: "ymd2ord y m d \<le> ymd2ord Y m2 d2"
  shows "y = Y"
proof (rule ccontr)
  assume "y \<noteq> Y"
  then consider "y + 1 \<le> Y" | "Y + 1 \<le> y" by linarith
  then show False
  proof cases
    case 1
    then have "days_before_year (y + 1) \<le> days_before_year Y" by (rule days_before_year_mono)
    with ymd2ord_year_bounds(2) [OF c] ymd2ord_year_bounds(1) [OF a] lo show False by simp
  next
    case 2
    then have "days_before_year (Y + 1) \<le> days_before_year y" by (rule days_before_year_mono)
    with ymd2ord_year_bounds(1) [OF c] ymd2ord_year_bounds(2) [OF b] hi show False by simp
  qed
qed

lemma next_calendar_day_same_year:
  assumes "calendar_leap_year y = calendar_leap_year Y"
    and "next_calendar_day (Y, m, d) = (Y, m', d')"
  shows "next_calendar_day (y, m, d) = (y, m', d')"
  using assms
  by (auto simp: next_calendar_day_def calendar_month_length_def split: if_splits)

lemma funpow_next_same_year:
  assumes leap: "calendar_leap_year y = calendar_leap_year Y"
    and stay: "\<forall>j \<le> k. fst ((next_calendar_day ^^ j) (Y, m, d)) = Y"
  shows "(next_calendar_day ^^ k) (y, m, d)
           = (y, snd ((next_calendar_day ^^ k) (Y, m, d)))"
  using stay
proof (induction k)
  case 0
  show ?case by simp
next
  case (Suc k)
  obtain m' d' where k: "(next_calendar_day ^^ k) (Y, m, d) = (Y, m', d')"
    using Suc.prems [rule_format, of k] by (cases "(next_calendar_day ^^ k) (Y, m, d)") auto
  obtain m'' d'' where k': "next_calendar_day (Y, m', d') = (Y, m'', d'')"
    using Suc.prems [rule_format, of "Suc k"] k
    by (cases "next_calendar_day (Y, m', d')") auto
  have "(next_calendar_day ^^ k) (y, m, d) = (y, m', d')"
    using Suc.IH Suc.prems k by simp
  then show ?case
    using next_calendar_day_same_year [OF leap k'] k k' by simp
qed

lemma mmdd_year: "mmdd (y, md) = mmdd (Y, md)"
  by (cases md) (simp add: mmdd_def)

lemma tokens_same_year:
  assumes leap: "calendar_leap_year y = calendar_leap_year Y"
    and stay: "\<forall>j < n. fst ((next_calendar_day ^^ j) (Y, m, d)) = Y"
  shows "map mmdd (calendar_days (y, m, d) n) = map mmdd (calendar_days (Y, m, d) n)"
proof -
  have "mmdd ((next_calendar_day ^^ k) (y, m, d)) = mmdd ((next_calendar_day ^^ k) (Y, m, d))"
    if "k < n" for k
  proof -
    from stay that have "\<forall>j \<le> k. fst ((next_calendar_day ^^ j) (Y, m, d)) = Y" by simp
    from funpow_next_same_year [OF leap this]
    have "(next_calendar_day ^^ k) (y, m, d) = (y, snd ((next_calendar_day ^^ k) (Y, m, d)))" .
    moreover have "(next_calendar_day ^^ k) (Y, m, d) = (Y, snd ((next_calendar_day ^^ k) (Y, m, d)))"
      using stay that by (metis prod.collapse)
    ultimately show ?thesis using mmdd_year by metis
  qed
  then show ?thesis by (simp add: calendar_days_funpow)
qed

lemma date_list_year_shift:
  assumes v1: "valid_datetime t1" and v2: "valid_datetime t2"
    and same: "year t1 = year t2"
    and y: "1 \<le> y" "y \<le> 9999"
    and leap: "calendar_leap_year y = calendar_leap_year (year t1)"
  shows "date_list (t1\<lparr>year := y\<rparr>) (t2\<lparr>year := y\<rparr>) = date_list t1 t2"
proof -
  let ?Y = "year t1"
  have leap': "is_leap y = is_leap ?Y" using leap by (simp add: is_leap_calendar)
  have dim: "days_in_month y m = days_in_month ?Y m" for m
    by (simp add: days_in_month_def leap')
  have dbm: "days_before_month y m = days_before_month ?Y m" for m
    by (simp add: days_before_month_def leap')
  have v1': "valid_datetime (t1\<lparr>year := y\<rparr>)" and v2': "valid_datetime (t2\<lparr>year := y\<rparr>)"
    using v1 v2 y same by (simp_all add: valid_datetime_def dim)
  have tod: "time_of_day (t1\<lparr>year := y\<rparr>) = time_of_day t1"
    "time_of_day (t2\<lparr>year := y\<rparr>) = time_of_day t2"
    by (simp_all add: time_of_day_def)
  have ord: "toordinal (t2\<lparr>year := y\<rparr>) - toordinal (t1\<lparr>year := y\<rparr>)
               = toordinal t2 - toordinal t1"
    using same by (simp add: toordinal_def ymd2ord_def dbm)
  define n where "n = nat (toordinal t2 - toordinal t1
                             + (if time_of_day t1 \<le> time_of_day t2 then 1 else 0))"
  note cd1 = valid_datetime_calendar_date [OF v1] and cd2 = valid_datetime_calendar_date [OF v2]
  have stay: "\<forall>j < n. fst ((next_calendar_day ^^ j) (?Y, month t1, day t1)) = ?Y"
  proof (intro allI impI)
    fix j
    assume j: "j < n"
    obtain yj mj dj where c: "(next_calendar_day ^^ j) (date_of t1) = (yj, mj, dj)"
      by (cases "(next_calendar_day ^^ j) (date_of t1)") auto
    have cdj: "calendar_date (yj, mj, dj)" and oj: "ymd2ord yj mj dj = toordinal t1 + int j"
      using funpow_next_calendar_day [OF cd1, of j] unfolding c
      by (simp_all add: date_of_def toordinal_def)
    have "int j < toordinal t2 - toordinal t1 + 1" using j by (simp add: n_def split: if_splits)
    then have hi: "ymd2ord yj mj dj \<le> ymd2ord ?Y (month t2) (day t2)"
      using oj same by (simp add: toordinal_def)
    have lo: "ymd2ord ?Y (month t1) (day t1) \<le> ymd2ord yj mj dj"
      using oj by (simp add: toordinal_def)
    have "yj = ?Y"
      using cdj _ _ lo hi
    proof (rule year_between)
      show "calendar_date (?Y, month t1, day t1)" using cd1 by (simp add: date_of_def)
      show "calendar_date (?Y, month t2, day t2)" using cd2 same by (simp add: date_of_def)
    qed
    then show "fst ((next_calendar_day ^^ j) (?Y, month t1, day t1)) = ?Y"
      using c by (simp add: date_of_def)
  qed
  have "date_list (t1\<lparr>year := y\<rparr>) (t2\<lparr>year := y\<rparr>)
          = Inr (map mmdd (calendar_days (y, month t1, day t1) n))"
    using date_list_eq [OF v1' v2'] by (simp add: ord tod n_def date_of_def)
  also have "\<dots> = Inr (map mmdd (calendar_days (?Y, month t1, day t1) n))"
    using tokens_same_year [OF leap stay] by simp
  also have "\<dots> = date_list t1 t2"
    using date_list_eq [OF v1 v2] by (simp add: n_def date_of_def)
  finally show ?thesis .
qed

text \<open>
  C10. The year prefix is the constant \<^verbatim>\<open>D2017\<close>. The selection depends on the configured
  datetimes only through the list of day tokens: replacing the years of the start and the
  end by any other years leaves the selection from every listing unchanged whenever the
  token list stays the same; it does stay the same when the configured range lies in one
  year and is moved to a year with the same leap-year status. And whatever the
  configuration, every selected path contains \<^verbatim>\<open>D2017\<close>: a file whose stamp carries
  another year (and that has \<^verbatim>\<open>D2017\<close> nowhere else in its path) is never selected.
\<close>

theorem year_prefix_is_constant:
  "(date_list ((start_datetime cfg)\<lparr>year := ya\<rparr>) ((end_datetime cfg)\<lparr>year := yb\<rparr>)
      = date_list (start_datetime cfg) (end_datetime cfg)
    \<longrightarrow> target_files (cfg\<lparr>start_datetime := (start_datetime cfg)\<lparr>year := ya\<rparr>,
                           end_datetime := (end_datetime cfg)\<lparr>year := yb\<rparr>\<rparr>) listing
          = target_files cfg listing)
   \<and> (valid_datetime (start_datetime cfg) \<and> valid_datetime (end_datetime cfg)
        \<and> year (start_datetime cfg) = year (end_datetime cfg)
        \<and> 1 \<le> ya \<and> ya \<le> 9999
        \<and> calendar_leap_year ya = calendar_leap_year (year (start_datetime cfg))
    \<longrightarrow> target_files (cfg\<lparr>start_datetime := (start_datetime cfg)\<lparr>year := ya\<rparr>,
                           end_datetime := (end_datetime cfg)\<lparr>year := ya\<rparr>\<rparr>) listing
          = target_files cfg listing)
   \<and> (\<forall>s3rawfiles. target_files cfg listing = Inr s3rawfiles
          \<longrightarrow> (\<forall>s3path \<in> set s3rawfiles. sublist ''D2017'' s3path))"
proof -
  have stamp: "sublist ''D2017'' s3path"
    if "list_ex (\<lambda>datestr. sublist (''D2017'' @ datestr) s3path) datestrs"
    for s3path datestrs
  proof -
    from that obtain datestr where "sublist (''D2017'' @ datestr) s3path"
      by (auto simp: list_ex_iff)
    moreover have "sublist ''D2017'' (''D2017'' @ datestr)" by (rule sublist_append_rightI)
    ultimately show ?thesis by (rule sublist_order.order.trans [rotated])
  qed
  have 1: "target_files (cfg\<lparr>start_datetime := (start_datetime cfg)\<lparr>year := ya\<rparr>,
                           end_datetime := (end_datetime cfg)\<lparr>year := yb\<rparr>\<rparr>) listing
          = target_files cfg listing"
    if "date_list ((start_datetime cfg)\<lparr>year := ya\<rparr>) ((end_datetime cfg)\<lparr>year := yb\<rparr>)
      = date_list (start_datetime cfg) (end_datetime cfg)" for yb
    using that by (simp add: target_files_def)
  have 2: "target_files (cfg\<lparr>start_datetime := (start_datetime cfg)\<lparr>year := ya\<rparr>,
                           end_datetime := (end_datetime cfg)\<lparr>year := ya\<rparr>\<rparr>) listing
          = target_files cfg listing"
    if "valid_datetime (start_datetime cfg) \<and> valid_datetime (end_datetime cfg)
        \<and> year (start_datetime cfg) = year (end_datetime cfg)
        \<and> 1 \<le> ya \<and> ya \<le> 9999
        \<and> calendar_leap_year ya = calendar_leap_year (year (start_datetime cfg))"
    using that by (intro 1 date_list_year_shift) simp_all
  have 3: "\<forall>s3path \<in> set s3rawfiles. sublist ''D2017'' s3path"
    if "target_files cfg listing = Inr s3rawfiles" for s3rawfiles
    using that stamp by (auto simp: target_files_def date_filter_def split: sum.splits)
  show ?thesis
    apply (intro conjI)
    subgoal using 1 by blast
    subgoal using 2 by blast
    subgoal using 3 by blast
    done
qed

theorem year_prefix_is_constant_witness:
  "date_list ((start_datetime notebook_config)\<lparr>year := 2018\<rparr>)
       ((end_datetime notebook_config)\<lparr>year := 2018\<rparr>)
     = date_list (start_datetime notebook_config) (end_datetime notebook_config)
   \<and> valid_datetime (start_datetime notebook_config) \<and> valid_datetime (end_datetime notebook_config)
   \<and> year (start_datetime notebook_config) = year (end_datetime notebook_config)
   \<and> calendar_leap_year 2018 = calendar_leap_year (year (start_datetime notebook_config))
   \<and> target_files (notebook_config\<lparr>start_datetime := (start_datetime notebook_config)\<lparr>year := 2018\<rparr>,
                                   end_datetime := (end_datetime notebook_config)\<lparr>year := 2018\<rparr>\<rparr>)
         example_listing
       = target_files notebook_config example_listing
   \<and> target_files notebook_config example_listing
       = Inr [bucket @ ''/'' @ rawdirpath @ ''/Summer2017-D20170724-T000000.raw'',
              bucket @ ''/'' @ rawdirpath @ ''/Summer2017-D20170824-T120000.raw'']
   \<and> sublist ''D2017'' (bucket @ ''/'' @ rawdirpath @ ''/Summer2017-D20170724-T000000.raw'')
   \<and> sublist ''D2017'' (bucket @ ''/'' @ rawdirpath @ ''/Summer2017-D20170824-T120000.raw'')
   \<and> \<not> sublist ''D2017'' (bucket @ ''/'' @ rawdirpath @ ''/Summer2018-D20180724-T000000.raw'')"
proof -
  have h: "date_list ((start_datetime notebook_config)\<lparr>year := 2018\<rparr>)
               ((end_datetime notebook_config)\<lparr>year := 2018\<rparr>)
             = date_list (start_datetime notebook_config) (end_datetime notebook_config)"
    by code_simp
  have v: "valid_datetime (start_datetime notebook_config)"
    "valid_datetime (end_datetime notebook_config)"
    "year (start_datetime notebook_config) = year (end_datetime notebook_config)"
    "calendar_leap_year 2018 = calendar_leap_year (year (start_datetime notebook_config))"
    by code_simp+
  have t: "target_files notebook_config example_listing
       = Inr [bucket @ ''/'' @ rawdirpath @ ''/Summer2017-D20170724-T000000.raw'',
              bucket @ ''/'' @ rawdirpath @ ''/Summer2017-D20170824-T120000.raw'']"
    by code_simp
  have n: "\<not> sublist ''D2017'' (bucket @ ''/'' @ rawdirpath @ ''/Summer2018-D20180724-T000000.raw'')"
    by code_simp
  from year_prefix_is_constant [where cfg = notebook_config and ya = 2018 and yb = 2018
      and listing = example_listing] h v t n
  show ?thesis by simp
qed

section \<open>The claims about the Per-File Converter\<close>

lemma try_body_stdout:
  assumes "try_body sv cfg f w = (r, w')"
  shows "stdout w' = stdout w @ (case r of Inl e \<Rightarrow> [] | Inr u \<Rightarrow> [mvbs_fname f @ '' created''])"
proof (cases r)
  case (Inl e)
  with try_body_Inl [of sv cfg f w e w'] assms show ?thesis by auto
next
  case (Inr u)
  with assms show ?thesis by (auto elim!: try_body_Inr)
qed

lemma try_body_keeps_paths:
  assumes "try_body sv cfg f w = (r, w')" "disk w p \<noteq> None"
  shows "disk w' p \<noteq> None"
proof (cases r)
  case (Inl e)
  with try_body_Inl [of sv cfg f w e w'] assms show ?thesis by auto
next
  case (Inr u)
  with assms show ?thesis by (auto elim!: try_body_Inr)
qed

lemma main_loop_keeps_paths:
  assumes "main_loop sv cfg fs w = (r, w')" "disk w p \<noteq> None"
  shows "disk w' p \<noteq> None"
  using assms
proof (induction fs arbitrary: w)
  case Nil
  then show ?case by simp
next
  case (Cons f fs)
  obtain r1 w1 where tb: "try_body sv cfg f w = (r1, w1)" by (cases "try_body sv cfg f w")
  note k = try_body_keeps_paths [OF tb Cons.prems(2)]
  show ?case
  proof (cases r1)
    case (Inr u)
    with Cons.prems(1) tb have "main_loop sv cfg fs w1 = (r, w')" by simp
    then show ?thesis using k by (rule Cons.IH)
  next
    case (Inl e)
    show ?thesis
    proof (cases "is_Exception e")
      case True
      with Cons.prems(1) tb Inl
      have "main_loop sv cfg fs (w1\<lparr>stdout := stdout w1 @ [failed_message f e]\<rparr>) = (r, w')"
        by simp
      then show ?thesis using k by (intro Cons.IH [of "w1\<lparr>stdout := stdout w1 @ [failed_message f e]\<rparr>"]) simp_all
    next
      case False
      with Cons.prems(1) tb Inl have "w' = w1" by simp
      with k show ?thesis by simp
    qed
  qed
qed

text \<open>The examples, evaluated once.\<close>

lemma example_stems:
  "path_stem (bucket @ ''/'' @ rawdirpath @ ''/Summer2017-D20170723-T235959.raw'') = ''Summer2017-D20170723-T235959''"
  "path_stem (bucket @ ''/'' @ rawdirpath @ ''/Summer2017-D20170724-T000000.raw'') = ''Summer2017-D20170724-T000000''"
  "path_stem (bucket @ ''/'' @ rawdirpath @ ''/Summer2017-D20170824-T120000.raw'') = ''Summer2017-D20170824-T120000''"
  "path_stem (bucket @ ''/'' @ rawdirpath @ ''/Summer2017-D20170825-T000000.raw'') = ''Summer2017-D20170825-T000000''"
  "path_stem (bucket @ ''/'' @ rawdirpath @ ''/Summer2018-D20180724-T000000.raw'') = ''Summer2018-D20180724-T000000''"
  by code_simp+

lemma example_names:
  "path_name (bucket @ ''/'' @ rawdirpath @ ''/Summer2017-D20170723-T235959.raw'') = ''Summer2017-D20170723-T235959.raw''"
  "path_name (bucket @ ''/'' @ rawdirpath @ ''/Summer2017-D20170724-T000000.raw'') = ''Summer2017-D20170724-T000000.raw''"
  "path_name (bucket @ ''/'' @ rawdirpath @ ''/Summer2017-D20170824-T120000.raw'') = ''Summer2017-D20170824-T120000.raw''"
  "path_name (bucket @ ''/'' @ rawdirpath @ ''/Summer2017-D20170825-T000000.raw'') = ''Summer2017-D20170825-T000000.raw''"
  "path_name (bucket @ ''/'' @ rawdirpath @ ''/Summer2018-D20180724-T000000.raw'') = ''Summer2018-D20180724-T000000.raw''"
  by code_simp+

lemma example_opens:
  "sublist ''D20170824'' (''s3://'' @ bucket @ ''/'' @ rawdirpath @ ''/Summer2017-D20170723-T235959.raw'') \<longleftrightarrow> False"
  "sublist ''D20170824'' (''s3://'' @ bucket @ ''/'' @ rawdirpath @ ''/Summer2017-D20170724-T000000.raw'') \<longleftrightarrow> False"
  "sublist ''D20170824'' (''s3://'' @ bucket @ ''/'' @ rawdirpath @ ''/Summer2017-D20170824-T120000.raw'') \<longleftrightarrow> True"
  "sublist ''D20170824'' (''s3://'' @ bucket @ ''/'' @ rawdirpath @ ''/Summer2017-D20170825-T000000.raw'') \<longleftrightarrow> False"
  "sublist ''D20170824'' (''s3://'' @ bucket @ ''/'' @ rawdirpath @ ''/Summer2018-D20180724-T000000.raw'') \<longleftrightarrow> False"
  by code_simp+

text \<open>
  C3. Whatever the services do, as long as what they raise while a file is processed is
  an instance of \<^verbatim>\<open>Exception\<close> (the class the handler names): the loop ends normally, and
  it prints exactly one line per file of the listing, in order, the confirmation for a
  file that went through and, for a file that failed, the message that names the file
  and carries the text of the exception. The second part is the single step: after a
  failed file the loop goes on with the rest of the listing, from the world the failure
  left plus that message.
\<close>

theorem main_loop_catches_and_continues:
  assumes "\<forall>s3rawfpath \<in> set s3rawfiles. \<forall>w e w'.
             try_body sv cfg s3rawfpath w = (Inl e, w') \<longrightarrow> is_Exception e"
  shows "(\<exists>w' lines.
            main_loop sv cfg s3rawfiles w = (Inr (), w')
            \<and> stdout w' = stdout w @ lines
            \<and> list_all2 (\<lambda>s3rawfpath line.
                   line = ''MVBS_'' @ path_stem s3rawfpath @ ''.nc created''
                   \<or> (\<exists>e. is_Exception e
                         \<and> line = ''Failed to process raw file '' @ path_name s3rawfpath
                                   @ '': '' @ exc_str e))
                 s3rawfiles lines)
       \<and> (\<forall>s3rawfpath rest w0 e w1.
             s3rawfpath \<in> set s3rawfiles \<and> try_body sv cfg s3rawfpath w0 = (Inl e, w1)
             \<longrightarrow> main_loop sv cfg (s3rawfpath # rest) w0
                   = main_loop sv cfg rest
                       (w1\<lparr>stdout := stdout w1 @ [''Failed to process raw file ''
                                 @ path_name s3rawfpath @ '': '' @ exc_str e]\<rparr>))"
proof
  show "\<exists>w' lines.
            main_loop sv cfg s3rawfiles w = (Inr (), w')
            \<and> stdout w' = stdout w @ lines
            \<and> list_all2 (\<lambda>s3rawfpath line.
                   line = ''MVBS_'' @ path_stem s3rawfpath @ ''.nc created''
                   \<or> (\<exists>e. is_Exception e
                         \<and> line = ''Failed to process raw file '' @ path_name s3rawfpath
                                   @ '': '' @ exc_str e))
                 s3rawfiles lines"
    using assms
  proof (induction s3rawfiles arbitrary: w)
    case Nil
    show ?case by simp
  next
    case (Cons f fs)
    obtain r1 w1 where tb: "try_body sv cfg f w = (r1, w1)" by (cases "try_body sv cfg f w")
    note out = try_body_stdout [OF tb]
    from Cons.prems have rest: "\<forall>s3rawfpath \<in> set fs. \<forall>w e w'.
             try_body sv cfg s3rawfpath w = (Inl e, w') \<longrightarrow> is_Exception e" by simp
    show ?case
    proof (cases r1)
      case (Inr u)
      from Cons.IH [OF rest, of w1] obtain w' lines where
        "main_loop sv cfg fs w1 = (Inr (), w')" "stdout w' = stdout w1 @ lines"
        "list_all2 (\<lambda>s3rawfpath line.
                   line = ''MVBS_'' @ path_stem s3rawfpath @ ''.nc created''
                   \<or> (\<exists>e. is_Exception e
                         \<and> line = ''Failed to process raw file '' @ path_name s3rawfpath
                                   @ '': '' @ exc_str e)) fs lines"
        by blast
      then show ?thesis
        using tb Inr out
        by (intro exI [of _ w'] exI [of _ "(mvbs_fname f @ '' created'') # lines"])
           (simp add: mvbs_fname_def)
    next
      case (Inl e)
      with tb Cons.prems have ex: "is_Exception e" by auto
      let ?w2 = "w1\<lparr>stdout := stdout w1 @ [failed_message f e]\<rparr>"
      from Cons.IH [OF rest, of ?w2] obtain w' lines where
        "main_loop sv cfg fs ?w2 = (Inr (), w')" "stdout w' = stdout ?w2 @ lines"
        "list_all2 (\<lambda>s3rawfpath line.
                   line = ''MVBS_'' @ path_stem s3rawfpath @ ''.nc created''
                   \<or> (\<exists>e. is_Exception e
                         \<and> line = ''Failed to process raw file '' @ path_name s3rawfpath
                                   @ '': '' @ exc_str e)) fs lines"
        by blast
      then show ?thesis
        using tb Inl out ex
        by (intro exI [of _ w'] exI [of _ "failed_message f e # lines"])
           (auto simp: failed_message_def)
    qed
  qed
next
  show "\<forall>s3rawfpath rest w0 e w1.
             s3rawfpath \<in> set s3rawfiles \<and> try_body sv cfg s3rawfpath w0 = (Inl e, w1)
             \<longrightarrow> main_loop sv cfg (s3rawfpath # rest) w0
                   = main_loop sv cfg rest
                       (w1\<lparr>stdout := stdout w1 @ [''Failed to process raw file ''
                                 @ path_name s3rawfpath @ '': '' @ exc_str e]\<rparr>)"
    using assms by (auto simp: failed_message_def)
qed

theorem main_loop_catches_and_continues_witness:
  "fst (main_loop example_services notebook_config example_listing empty_world) = Inr ()
   \<and> stdout (snd (main_loop example_services notebook_config example_listing empty_world))
       = [''MVBS_Summer2017-D20170723-T235959.nc created'',
          ''MVBS_Summer2017-D20170724-T000000.nc created'',
          ''Failed to process raw file Summer2017-D20170824-T120000.raw: corrupt datagram'',
          ''MVBS_Summer2017-D20170825-T000000.nc created'',
          ''MVBS_Summer2018-D20180724-T000000.nc created'']"
proof -
  have h: "\<forall>s3rawfpath \<in> set example_listing. \<forall>w e w'.
             try_body example_services notebook_config s3rawfpath w = (Inl e, w')
             \<longrightarrow> is_Exception e"
    by (auto simp: try_body_def example_services_def to_netcdf_def split: if_splits)
  have ev: "stdout (snd (main_loop example_services notebook_config example_listing empty_world))
       = [''MVBS_Summer2017-D20170723-T235959.nc created'',
          ''MVBS_Summer2017-D20170724-T000000.nc created'',
          ''Failed to process raw file Summer2017-D20170824-T120000.raw: corrupt datagram'',
          ''MVBS_Summer2017-D20170825-T000000.nc created'',
          ''MVBS_Summer2018-D20180724-T000000.nc created'']"
    using example_stems example_names example_opens
    by (simp add: example_listing_def try_body_def to_netcdf_def example_services_def
          empty_world_def mvbs_fname_def failed_message_def)
  from main_loop_catches_and_continues [OF h, of empty_world] ev
  show ?thesis by auto
qed

lemma example_dirs:
  "base_dpath example_services notebook_config
     = [''Hake_range=0.2_ping=2s_start=2017-07-24-00-00_end=2017-08-24-23-59'']"
  by code_simp

lemma example_lengths:
  "length (''s3://'' @ bucket @ ''/'' @ rawdirpath @ ''/Summer2017-D20170724-T000000.raw'') = 92"
  "length (''s3://'' @ colliding_first) = 42"
  "length (''s3://'' @ colliding_second) = 43"
  by code_simp+

lemma colliding_stems:
  "path_stem colliding_first = ''Summer2017-D20170724-T000000''"
  "path_stem colliding_second = ''Summer2017-D20170724-T000000''"
  "sublist ''D20170824'' (''s3://'' @ colliding_first) \<longleftrightarrow> False"
  "sublist ''D20170824'' (''s3://'' @ colliding_second) \<longleftrightarrow> False"
  by code_simp+

text \<open>
  C4. When the body of the \<^verbatim>\<open>try\<close> runs to its end for a remote file, the disk holds the
  binned product, the longitude track and the latitude track of that file, each in a file
  named \<^verbatim>\<open>MVBS_<stem>.nc\<close> with the stem of the remote path, under the calibrated-products,
  the longitude and the latitude directory. The three paths are different, and the
  iteration has changed no other path: exactly three files are written.
\<close>

theorem completed_iteration_writes_three_files:
  assumes "try_body sv cfg s3rawfpath w = (Inr (), w')"
  shows "\<exists>ed ds_Sv ds_MVBS ds_lon ds_lat.
           open_raw sv (''s3://'' @ s3rawfpath) = Inr ed
         \<and> compute_Sv sv ed = Inr ds_Sv
         \<and> compute_MVBS sv ds_Sv (range_meter_bin cfg) (ping_time_bin cfg) = Inr ds_MVBS
         \<and> platform_longitude sv ed = Inr ds_lon
         \<and> platform_latitude sv ed = Inr ds_lat
         \<and> disk w' (calibrated_dpath sv cfg @ [''MVBS_'' @ path_stem s3rawfpath @ ''.nc''])
             = Some (File ds_MVBS)
         \<and> disk w' (lon_dpath sv cfg @ [''MVBS_'' @ path_stem s3rawfpath @ ''.nc''])
             = Some (File ds_lon)
         \<and> disk w' (lat_dpath sv cfg @ [''MVBS_'' @ path_stem s3rawfpath @ ''.nc''])
             = Some (File ds_lat)
         \<and> distinct [calibrated_dpath sv cfg @ [''MVBS_'' @ path_stem s3rawfpath @ ''.nc''],
                      lon_dpath sv cfg @ [''MVBS_'' @ path_stem s3rawfpath @ ''.nc''],
                      lat_dpath sv cfg @ [''MVBS_'' @ path_stem s3rawfpath @ ''.nc'']]
         \<and> (\<forall>p. p \<notin> {calibrated_dpath sv cfg @ [''MVBS_'' @ path_stem s3rawfpath @ ''.nc''],
                        lon_dpath sv cfg @ [''MVBS_'' @ path_stem s3rawfpath @ ''.nc''],
                        lat_dpath sv cfg @ [''MVBS_'' @ path_stem s3rawfpath @ ''.nc'']}
                \<longrightarrow> disk w' p = disk w p)"
proof -
  note d = output_paths_distinct [of sv cfg "mvbs_fname s3rawfpath"]
  from assms obtain ed ds_Sv ds_MVBS ds_lon ds_lat where
    "open_raw sv (''s3://'' @ s3rawfpath) = Inr ed"
    "compute_Sv sv ed = Inr ds_Sv"
    "compute_MVBS sv ds_Sv (range_meter_bin cfg) (ping_time_bin cfg) = Inr ds_MVBS"
    "platform_longitude sv ed = Inr ds_lon"
    "platform_latitude sv ed = Inr ds_lat"
    "w' = w\<lparr>disk := (disk w)(calibrated_dpath sv cfg @ [mvbs_fname s3rawfpath] \<mapsto> File ds_MVBS,
                              lon_dpath sv cfg @ [mvbs_fname s3rawfpath] \<mapsto> File ds_lon,
                              lat_dpath sv cfg @ [mvbs_fname s3rawfpath] \<mapsto> File ds_lat),
              stdout := stdout w @ [mvbs_fname s3rawfpath @ '' created'']\<rparr>"
    by (rule try_body_Inr)
  then show ?thesis
    using d unfolding mvbs_fname_def
    by (intro exI [of _ ed] exI [of _ ds_Sv] exI [of _ ds_MVBS] exI [of _ ds_lon] exI [of _ ds_lat])
       auto
qed

theorem completed_iteration_writes_three_files_witness:
  "try_body example_services notebook_config
       (bucket @ ''/'' @ rawdirpath @ ''/Summer2017-D20170724-T000000.raw'') empty_world
     = (Inr (),
        \<lparr>disk = [[''Hake_range=0.2_ping=2s_start=2017-07-24-00-00_end=2017-08-24-23-59'',
                   ''HakeSurvey'', ''MVBS_Summer2017-D20170724-T000000.nc''] \<mapsto> File 94,
                  [''Hake_range=0.2_ping=2s_start=2017-07-24-00-00_end=2017-08-24-23-59'',
                   ''Lon'', ''MVBS_Summer2017-D20170724-T000000.nc''] \<mapsto> File 95,
                  [''Hake_range=0.2_ping=2s_start=2017-07-24-00-00_end=2017-08-24-23-59'',
                   ''Lat'', ''MVBS_Summer2017-D20170724-T000000.nc''] \<mapsto> File 96],
         stdout = [''MVBS_Summer2017-D20170724-T000000.nc created'']\<rparr>)
   \<and> calibrated_dpath example_services notebook_config
         @ [''MVBS_'' @ path_stem (bucket @ ''/'' @ rawdirpath @ ''/Summer2017-D20170724-T000000.raw'')
              @ ''.nc'']
       = [''Hake_range=0.2_ping=2s_start=2017-07-24-00-00_end=2017-08-24-23-59'',
          ''HakeSurvey'', ''MVBS_Summer2017-D20170724-T000000.nc'']"
proof -
  have ev: "try_body example_services notebook_config
       (bucket @ ''/'' @ rawdirpath @ ''/Summer2017-D20170724-T000000.raw'') empty_world
     = (Inr (),
        \<lparr>disk = [[''Hake_range=0.2_ping=2s_start=2017-07-24-00-00_end=2017-08-24-23-59'',
                   ''HakeSurvey'', ''MVBS_Summer2017-D20170724-T000000.nc''] \<mapsto> File 94,
                  [''Hake_range=0.2_ping=2s_start=2017-07-24-00-00_end=2017-08-24-23-59'',
                   ''Lon'', ''MVBS_Summer2017-D20170724-T000000.nc''] \<mapsto> File 95,
                  [''Hake_range=0.2_ping=2s_start=2017-07-24-00-00_end=2017-08-24-23-59'',
                   ''Lat'', ''MVBS_Summer2017-D20170724-T000000.nc''] \<mapsto> File 96],
         stdout = [''MVBS_Summer2017-D20170724-T000000.nc created'']\<rparr>)"
    using example_stems example_opens example_lengths example_dirs
    by (simp add: try_body_def to_netcdf_def example_services_def empty_world_def mvbs_fname_def
          calibrated_dpath_def lon_dpath_def lat_dpath_def)
  from completed_iteration_writes_three_files [OF ev] ev example_stems example_dirs
  show ?thesis by (simp add: calibrated_dpath_def)
qed

text \<open>
  C5. When the body of the \<^verbatim>\<open>try\<close> raises, nothing is printed by it and nothing is undone:
  no path of the disk is removed and only the three output paths of the file can have
  changed. Statement by statement: a failure of the conversion, of the calibration or of
  the binning leaves the disk as it was (the binned product is the first file written);
  a failure after a write leaves every file written before it with its product; and the
  write that fails leaves its own path untouched when it raises before opening the file,
  and holding an incomplete file when it raises later. The handler only prints: the loop
  goes on from that disk, and no later iteration removes a path.
\<close>

theorem failed_iteration_keeps_written_files:
  assumes "try_body sv cfg s3rawfpath w = (Inl e, w')"
  shows "stdout w' = stdout w
    \<and> (\<forall>p. disk w p \<noteq> None
          \<longrightarrow> disk w' p \<noteq> None)
    \<and> (\<forall>p. p \<notin> {calibrated_dpath sv cfg @ [mvbs_fname s3rawfpath],
                  lon_dpath sv cfg @ [mvbs_fname s3rawfpath],
                  lat_dpath sv cfg @ [mvbs_fname s3rawfpath]}
          \<longrightarrow> disk w' p = disk w p)
    \<and> (\<forall>e0. open_raw sv (''s3://'' @ s3rawfpath) = Inl e0
          \<longrightarrow> disk w' = disk w)
    \<and> (\<forall>ed e0. open_raw sv (''s3://'' @ s3rawfpath) = Inr ed \<and> compute_Sv sv ed = Inl e0
          \<longrightarrow> disk w' = disk w)
    \<and> (\<forall>ed ds_Sv e0. open_raw sv (''s3://'' @ s3rawfpath) = Inr ed \<and> compute_Sv sv ed = Inr ds_Sv
          \<and> compute_MVBS sv ds_Sv (range_meter_bin cfg) (ping_time_bin cfg) = Inl e0
          \<longrightarrow> disk w' = disk w)
    \<and> (\<forall>ed ds_Sv ds_MVBS flt. open_raw sv (''s3://'' @ s3rawfpath) = Inr ed \<and> compute_Sv sv ed = Inr ds_Sv
          \<and> compute_MVBS sv ds_Sv (range_meter_bin cfg) (ping_time_bin cfg) = Inr ds_MVBS
          \<and> write_fault sv (disk w) (calibrated_dpath sv cfg @ [mvbs_fname s3rawfpath]) ds_MVBS = Some flt
          \<longrightarrow> disk w' = (case flt of Before_open e0 \<Rightarrow> disk w
                            | After_open e0 r \<Rightarrow> (disk w)(calibrated_dpath sv cfg @ [mvbs_fname s3rawfpath] \<mapsto> File r)))
    \<and> (\<forall>ed ds_Sv ds_MVBS e0. open_raw sv (''s3://'' @ s3rawfpath) = Inr ed \<and> compute_Sv sv ed = Inr ds_Sv
          \<and> compute_MVBS sv ds_Sv (range_meter_bin cfg) (ping_time_bin cfg) = Inr ds_MVBS
          \<and> write_fault sv (disk w) (calibrated_dpath sv cfg @ [mvbs_fname s3rawfpath]) ds_MVBS = None
          \<and> platform_longitude sv ed = Inl e0
          \<longrightarrow> disk w' = (disk w)(calibrated_dpath sv cfg @ [mvbs_fname s3rawfpath] \<mapsto> File ds_MVBS))
    \<and> (\<forall>ed ds_Sv ds_MVBS ds_lon flt. open_raw sv (''s3://'' @ s3rawfpath) = Inr ed \<and> compute_Sv sv ed = Inr ds_Sv
          \<and> compute_MVBS sv ds_Sv (range_meter_bin cfg) (ping_time_bin cfg) = Inr ds_MVBS
          \<and> write_fault sv (disk w) (calibrated_dpath sv cfg @ [mvbs_fname s3rawfpath]) ds_MVBS = None
          \<and> platform_longitude sv ed = Inr ds_lon
          \<and> write_fault sv ((disk w)(calibrated_dpath sv cfg @ [mvbs_fname s3rawfpath] \<mapsto> File ds_MVBS)) (lon_dpath sv cfg @ [mvbs_fname s3rawfpath]) ds_lon = Some flt
          \<longrightarrow> disk w' = (case flt of Before_open e0 \<Rightarrow> (disk w)(calibrated_dpath sv cfg @ [mvbs_fname s3rawfpath] \<mapsto> File ds_MVBS)
                            | After_open e0 r \<Rightarrow> ((disk w)(calibrated_dpath sv cfg @ [mvbs_fname s3rawfpath] \<mapsto> File ds_MVBS))
                                                   (lon_dpath sv cfg @ [mvbs_fname s3rawfpath] \<mapsto> File r)))
    \<and> (\<forall>ed ds_Sv ds_MVBS ds_lon e0. open_raw sv (''s3://'' @ s3rawfpath) = Inr ed \<and> compute_Sv sv ed = Inr ds_Sv
          \<and> compute_MVBS sv ds_Sv (range_meter_bin cfg) (ping_time_bin cfg) = Inr ds_MVBS
          \<and> write_fault sv (disk w) (calibrated_dpath sv cfg @ [mvbs_fname s3rawfpath]) ds_MVBS = None
          \<and> platform_longitude sv ed = Inr ds_lon
          \<and> write_fault sv ((disk w)(calibrated_dpath sv cfg @ [mvbs_fname s3rawfpath] \<mapsto> File ds_MVBS)) (lon_dpath sv cfg @ [mvbs_fname s3rawfpath]) ds_lon = None
          \<and> platform_latitude sv ed = Inl e0
          \<longrightarrow> disk w' = (disk w)(calibrated_dpath sv cfg @ [mvbs_fname s3rawfpath] \<mapsto> File ds_MVBS,
                      lon_dpath sv cfg @ [mvbs_fname s3rawfpath] \<mapsto> File ds_lon))
    \<and> (\<forall>ed ds_Sv ds_MVBS ds_lon ds_lat flt. open_raw sv (''s3://'' @ s3rawfpath) = Inr ed \<and> compute_Sv sv ed = Inr ds_Sv
          \<and> compute_MVBS sv ds_Sv (range_meter_bin cfg) (ping_time_bin cfg) = Inr ds_MVBS
          \<and> write_fault sv (disk w) (calibrated_dpath sv cfg @ [mvbs_fname s3rawfpath]) ds_MVBS = None
          \<and> platform_longitude sv ed = Inr ds_lon
          \<and> write_fault sv ((disk w)(calibrated_dpath sv cfg @ [mvbs_fname s3rawfpath] \<mapsto> File ds_MVBS)) (lon_dpath sv cfg @ [mvbs_fname s3rawfpath]) ds_lon = None
          \<and> platform_latitude sv ed = Inr ds_lat
          \<and> write_fault sv ((disk w)(calibrated_dpath sv cfg @ [mvbs_fname s3rawfpath] \<mapsto> File ds_MVBS,
                      lon_dpath sv cfg @ [mvbs_fname s3rawfpath] \<mapsto> File ds_lon)) (lat_dpath sv cfg @ [mvbs_fname s3rawfpath]) ds_lat = Some flt
          \<longrightarrow> disk w' = (case flt of Before_open e0 \<Rightarrow> (disk w)(calibrated_dpath sv cfg @ [mvbs_fname s3rawfpath] \<mapsto> File ds_MVBS,
                      lon_dpath sv cfg @ [mvbs_fname s3rawfpath] \<mapsto> File ds_lon)
                            | After_open e0 r \<Rightarrow> ((disk w)(calibrated_dpath sv cfg @ [mvbs_fname s3rawfpath] \<mapsto> File ds_MVBS,
                      lon_dpath sv cfg @ [mvbs_fname s3rawfpath] \<mapsto> File ds_lon))
                                                   (lat_dpath sv cfg @ [mvbs_fname s3rawfpath] \<mapsto> File r)))
    \<and> (\<forall>rest. is_Exception e
          \<longrightarrow> main_loop sv cfg (s3rawfpath # rest) w
                = main_loop sv cfg rest (w'\<lparr>stdout := stdout w' @ [failed_message s3rawfpath e]\<rparr>))
    \<and> (\<forall>rest r w'' p. main_loop sv cfg (s3rawfpath # rest) w = (r, w'') \<and> disk w' p \<noteq> None
          \<longrightarrow> disk w'' p \<noteq> None)"
proof -
  note d = output_paths_distinct [of sv cfg "mvbs_fname s3rawfpath"]
  have 1: "stdout w' = stdout w"
    using try_body_stdout [OF assms] by simp
  have 2: "disk w' p \<noteq> None" if "disk w p \<noteq> None" for p
    using assms that by (rule try_body_keeps_paths)
  have 3: "disk w' p = disk w p"
    if "p \<notin> {calibrated_dpath sv cfg @ [mvbs_fname s3rawfpath],
                  lon_dpath sv cfg @ [mvbs_fname s3rawfpath],
                  lat_dpath sv cfg @ [mvbs_fname s3rawfpath]}" for p
    using assms by (rule try_body_Inl_cases) (use that in auto)
  have 4: "disk w' = disk w"
    if "open_raw sv (''s3://'' @ s3rawfpath) = Inl e0"
    for e0
    using assms that by (auto simp: try_body_def to_netcdf_def split: fault.splits)
  have 5: "disk w' = disk w"
    if "open_raw sv (''s3://'' @ s3rawfpath) = Inr ed \<and> compute_Sv sv ed = Inl e0"
    for ed e0
    using assms that by (auto simp: try_body_def to_netcdf_def split: fault.splits)
  have 6: "disk w' = disk w"
    if "open_raw sv (''s3://'' @ s3rawfpath) = Inr ed \<and> compute_Sv sv ed = Inr ds_Sv
          \<and> compute_MVBS sv ds_Sv (range_meter_bin cfg) (ping_time_bin cfg) = Inl e0"
    for ed ds_Sv e0
    using assms that by (auto simp: try_body_def to_netcdf_def split: fault.splits)
  have 7: "disk w' = (case flt of Before_open e0 \<Rightarrow> disk w
                            | After_open e0 r \<Rightarrow> (disk w)(calibrated_dpath sv cfg @ [mvbs_fname s3rawfpath] \<mapsto> File r))"
    if "open_raw sv (''s3://'' @ s3rawfpath) = Inr ed \<and> compute_Sv sv ed = Inr ds_Sv
          \<and> compute_MVBS sv ds_Sv (range_meter_bin cfg) (ping_time_bin cfg) = Inr ds_MVBS
          \<and> write_fault sv (disk w) (calibrated_dpath sv cfg @ [mvbs_fname s3rawfpath]) ds_MVBS = Some flt"
    for ed ds_Sv ds_MVBS flt
    using assms that by (auto simp: try_body_def to_netcdf_def split: fault.splits)
  have 8: "disk w' = (disk w)(calibrated_dpath sv cfg @ [mvbs_fname s3rawfpath] \<mapsto> File ds_MVBS)"
    if "open_raw sv (''s3://'' @ s3rawfpath) = Inr ed \<and> compute_Sv sv ed = Inr ds_Sv
          \<and> compute_MVBS sv ds_Sv (range_meter_bin cfg) (ping_time_bin cfg) = Inr ds_MVBS
          \<and> write_fault sv (disk w) (calibrated_dpath sv cfg @ [mvbs_fname s3rawfpath]) ds_MVBS = None
          \<and> platform_longitude sv ed = Inl e0"
    for ed ds_Sv ds_MVBS e0
    using assms that by (auto simp: try_body_def to_netcdf_def split: fault.splits)
  have 9: "disk w' = (case flt of Before_open e0 \<Rightarrow> (disk w)(calibrated_dpath sv cfg @ [mvbs_fname s3rawfpath] \<mapsto> File ds_MVBS)
                            | After_open e0 r \<Rightarrow> ((disk w)(calibrated_dpath sv cfg @ [mvbs_fname s3rawfpath] \<mapsto> File ds_MVBS))
                                                   (lon_dpath sv cfg @ [mvbs_fname s3rawfpath] \<mapsto> File r))"
    if "open_raw sv (''s3://'' @ s3rawfpath) = Inr ed \<and> compute_Sv sv ed = Inr ds_Sv
          \<and> compute_MVBS sv ds_Sv (range_meter_bin cfg) (ping_time_bin cfg) = Inr ds_MVBS
          \<and> write_fault sv (disk w) (calibrated_dpath sv cfg @ [mvbs_fname s3rawfpath]) ds_MVBS = None
          \<and> platform_longitude sv ed = Inr ds_lon
          \<and> write_fault sv ((disk w)(calibrated_dpath sv cfg @ [mvbs_fname s3rawfpath] \<mapsto> File ds_MVBS)) (lon_dpath sv cfg @ [mvbs_fname s3rawfpath]) ds_lon = Some flt"
    for ed ds_Sv ds_MVBS ds_lon flt
    using assms that by (auto simp: try_body_def to_netcdf_def split: fault.splits)
  have 10: "disk w' = (disk w)(calibrated_dpath sv cfg @ [mvbs_fname s3rawfpath] \<mapsto> File ds_MVBS,
                      lon_dpath sv cfg @ [mvbs_fname s3rawfpath] \<mapsto> File ds_lon)"
    if "open_raw sv (''s3://'' @ s3rawfpath) = Inr ed \<and> compute_Sv sv ed = Inr ds_Sv
          \<and> compute_MVBS sv ds_Sv (range_meter_bin cfg) (ping_time_bin cfg) = Inr ds_MVBS
          \<and> write_fault sv (disk w) (calibrated_dpath sv cfg @ [mvbs_fname s3rawfpath]) ds_MVBS = None
          \<and> platform_longitude sv ed = Inr ds_lon
          \<and> write_fault sv ((disk w)(calibrated_dpath sv cfg @ [mvbs_fname s3rawfpath] \<mapsto> File ds_MVBS)) (lon_dpath sv cfg @ [mvbs_fname s3rawfpath]) ds_lon = None
          \<and> platform_latitude sv ed = Inl e0"
    for ed ds_Sv ds_MVBS ds_lon e0
    using assms that by (auto simp: try_body_def to_netcdf_def split: fault.splits)
  have 11: "disk w' = (case flt of Before_open e0 \<Rightarrow> (disk w)(calibrated_dpath sv cfg @ [mvbs_fname s3rawfpath] \<mapsto> File ds_MVBS,
                      lon_dpath sv cfg @ [mvbs_fname s3rawfpath] \<mapsto> File ds_lon)
                            | After_open e0 r \<Rightarrow> ((disk w)(calibrated_dpath sv cfg @ [mvbs_fname s3rawfpath] \<mapsto> File ds_MVBS,
                      lon_dpath sv cfg @ [mvbs_fname s3rawfpath] \<mapsto> File ds_lon))
                                                   (lat_dpath sv cfg @ [mvbs_fname s3rawfpath] \<mapsto> File r))"
    if "open_raw sv (''s3://'' @ s3rawfpath) = Inr ed \<and> compute_Sv sv ed = Inr ds_Sv
          \<and> compute_MVBS sv ds_Sv (range_meter_bin cfg) (ping_time_bin cfg) = Inr ds_MVBS
          \<and> write_fault sv (disk w) (calibrated_dpath sv cfg @ [mvbs_fname s3rawfpath]) ds_MVBS = None
          \<and> platform_longitude sv ed = Inr ds_lon
          \<and> write_fault sv ((disk w)(calibrated_dpath sv cfg @ [mvbs_fname s3rawfpath] \<mapsto> File ds_MVBS)) (lon_dpath sv cfg @ [mvbs_fname s3rawfpath]) ds_lon = None
          \<and> platform_latitude sv ed = Inr ds_lat
          \<and> write_fault sv ((disk w)(calibrated_dpath sv cfg @ [mvbs_fname s3rawfpath] \<mapsto> File ds_MVBS,
                      lon_dpath sv cfg @ [mvbs_fname s3rawfpath] \<mapsto> File ds_lon)) (lat_dpath sv cfg @ [mvbs_fname s3rawfpath]) ds_lat = Some flt"
    for ed ds_Sv ds_MVBS ds_lon ds_lat flt
    using assms that by (auto simp: try_body_def to_netcdf_def split: fault.splits)
  have 12: "main_loop sv cfg (s3rawfpath # rest) w
             = main_loop sv cfg rest (w'\<lparr>stdout := stdout w' @ [failed_message s3rawfpath e]\<rparr>)"
    if "is_Exception e" for rest
    using assms that by (rule main_loop_step_failed)
  have 13: "disk w'' p \<noteq> None"
    if "main_loop sv cfg (s3rawfpath # rest) w = (r, w'') \<and> disk w' p \<noteq> None" for rest r w'' p
  proof (cases "is_Exception e")
    case True
    from that have "main_loop sv cfg rest (w'\<lparr>stdout := stdout w' @ [failed_message s3rawfpath e]\<rparr>)
                         = (r, w'')"
      unfolding 12 [OF True] by simp
    then show ?thesis by (rule main_loop_keeps_paths) (use that in simp)
  next
    case False
    with that assms have "w'' = w'" by simp
    with that show ?thesis by simp
  qed
  show ?thesis
    apply (intro conjI)
    subgoal by (rule 1)
    subgoal using 2 by blast
    subgoal using 3 by blast
    subgoal using 4 by blast
    subgoal using 5 by blast
    subgoal using 6 by blast
    subgoal using 7 by blast
    subgoal using 8 by blast
    subgoal using 9 by blast
    subgoal using 10 by blast
    subgoal using 11 by blast
    subgoal using 12 by blast
    subgoal using 13 by blast
    done
qed


text \<open>
  On the tree of a first run, a disk that fills up while the latitude track is written:
  the body of the \<^verbatim>\<open>try\<close> raises in the third write, and all three output paths of the
  file are taken then, the third by the incomplete file.
\<close>

lemma example_layout_paths:
  "base_dpath lat_write_fails notebook_config = [''Hake_range=0.2_ping=2s_start=2017-07-24-00-00_end=2017-08-24-23-59'']"
  "base_dpath lon_write_fails notebook_config = [''Hake_range=0.2_ping=2s_start=2017-07-24-00-00_end=2017-08-24-23-59'']"
  using example_dirs layout_paths_float_str(1) [of lat_write_fails example_services notebook_config]
    layout_paths_float_str(1) [of lon_write_fails example_services notebook_config]
  by (simp_all add: lat_write_fails_def lon_write_fails_def)

theorem interrupted_write_leaves_three_files:
  "outputs_present lat_write_fails notebook_config 
       (bucket @ ''/'' @ rawdirpath @ ''/Summer2017-D20170724-T000000.raw'') example_tree = 0
   \<and> try_body lat_write_fails notebook_config 
       (bucket @ ''/'' @ rawdirpath @ ''/Summer2017-D20170724-T000000.raw'') \<lparr>disk = example_tree, stdout = []\<rparr>
     = (Inl (Raise OSError ''No space left on device''),
        \<lparr>disk = example_tree
           ([''Hake_range=0.2_ping=2s_start=2017-07-24-00-00_end=2017-08-24-23-59'',
              ''HakeSurvey'', ''MVBS_Summer2017-D20170724-T000000.nc''] \<mapsto> File 94,
            [''Hake_range=0.2_ping=2s_start=2017-07-24-00-00_end=2017-08-24-23-59'',
              ''Lon'', ''MVBS_Summer2017-D20170724-T000000.nc''] \<mapsto> File 95,
            [''Hake_range=0.2_ping=2s_start=2017-07-24-00-00_end=2017-08-24-23-59'',
              ''Lat'', ''MVBS_Summer2017-D20170724-T000000.nc''] \<mapsto> File 0),
         stdout = []\<rparr>)
   \<and> write_fault lat_write_fails
         (example_tree
           ([''Hake_range=0.2_ping=2s_start=2017-07-24-00-00_end=2017-08-24-23-59'',
              ''HakeSurvey'', ''MVBS_Summer2017-D20170724-T000000.nc''] \<mapsto> File 94,
            [''Hake_range=0.2_ping=2s_start=2017-07-24-00-00_end=2017-08-24-23-59'',
              ''Lon'', ''MVBS_Summer2017-D20170724-T000000.nc''] \<mapsto> File 95))
         [''Hake_range=0.2_ping=2s_start=2017-07-24-00-00_end=2017-08-24-23-59'',
              ''Lat'', ''MVBS_Summer2017-D20170724-T000000.nc''] 96
       = Some (After_open (Raise OSError ''No space left on device'') 0)
   \<and> outputs_present lat_write_fails notebook_config 
       (bucket @ ''/'' @ rawdirpath @ ''/Summer2017-D20170724-T000000.raw'')
         (example_tree
           ([''Hake_range=0.2_ping=2s_start=2017-07-24-00-00_end=2017-08-24-23-59'',
              ''HakeSurvey'', ''MVBS_Summer2017-D20170724-T000000.nc''] \<mapsto> File 94,
            [''Hake_range=0.2_ping=2s_start=2017-07-24-00-00_end=2017-08-24-23-59'',
              ''Lon'', ''MVBS_Summer2017-D20170724-T000000.nc''] \<mapsto> File 95,
            [''Hake_range=0.2_ping=2s_start=2017-07-24-00-00_end=2017-08-24-23-59'',
              ''Lat'', ''MVBS_Summer2017-D20170724-T000000.nc''] \<mapsto> File 0)) = 3"
proof -
  have sv: "open_raw lat_write_fails = open_raw example_services"
    "compute_Sv lat_write_fails = compute_Sv example_services"
    "compute_MVBS lat_write_fails = compute_MVBS example_services"
    "platform_longitude lat_write_fails = platform_longitude example_services"
    "platform_latitude lat_write_fails = platform_latitude example_services"
    "write_fault lat_write_fails
       = (\<lambda>dk p ds. if last p = ''MVBS_Summer2017-D20170724-T000000.nc'' \<and> last (butlast p) = ''Lat''
                   then Some (After_open (Raise OSError ''No space left on device'') 0) else None)"
    by (simp_all add: lat_write_fails_def)
  have a: "outputs_present lat_write_fails notebook_config 
       (bucket @ ''/'' @ rawdirpath @ ''/Summer2017-D20170724-T000000.raw'') example_tree = 0"
    using example_stems
    by (simp add: outputs_present_def calibrated_dpath_def lon_dpath_def lat_dpath_def
          example_layout_paths mvbs_fname_def example_tree_def)
  have b: "try_body lat_write_fails notebook_config 
       (bucket @ ''/'' @ rawdirpath @ ''/Summer2017-D20170724-T000000.raw'') \<lparr>disk = example_tree, stdout = []\<rparr>
     = (Inl (Raise OSError ''No space left on device''),
        \<lparr>disk = example_tree
           ([''Hake_range=0.2_ping=2s_start=2017-07-24-00-00_end=2017-08-24-23-59'',
              ''HakeSurvey'', ''MVBS_Summer2017-D20170724-T000000.nc''] \<mapsto> File 94,
            [''Hake_range=0.2_ping=2s_start=2017-07-24-00-00_end=2017-08-24-23-59'',
              ''Lon'', ''MVBS_Summer2017-D20170724-T000000.nc''] \<mapsto> File 95,
            [''Hake_range=0.2_ping=2s_start=2017-07-24-00-00_end=2017-08-24-23-59'',
              ''Lat'', ''MVBS_Summer2017-D20170724-T000000.nc''] \<mapsto> File 0),
         stdout = []\<rparr>)"
    unfolding try_body_def calibrated_dpath_def lon_dpath_def lat_dpath_def example_layout_paths sv
    using example_stems example_opens example_lengths
    by (simp add: to_netcdf_def sv example_services_def mvbs_fname_def)
  have c: "write_fault lat_write_fails
         (example_tree
           ([''Hake_range=0.2_ping=2s_start=2017-07-24-00-00_end=2017-08-24-23-59'',
              ''HakeSurvey'', ''MVBS_Summer2017-D20170724-T000000.nc''] \<mapsto> File 94,
            [''Hake_range=0.2_ping=2s_start=2017-07-24-00-00_end=2017-08-24-23-59'',
              ''Lon'', ''MVBS_Summer2017-D20170724-T000000.nc''] \<mapsto> File 95))
         [''Hake_range=0.2_ping=2s_start=2017-07-24-00-00_end=2017-08-24-23-59'',
              ''Lat'', ''MVBS_Summer2017-D20170724-T000000.nc''] 96
       = Some (After_open (Raise OSError ''No space left on device'') 0)"
    by (simp add: sv)
  have d: "outputs_present lat_write_fails notebook_config 
       (bucket @ ''/'' @ rawdirpath @ ''/Summer2017-D20170724-T000000.raw'')
         (example_tree
           ([''Hake_range=0.2_ping=2s_start=2017-07-24-00-00_end=2017-08-24-23-59'',
              ''HakeSurvey'', ''MVBS_Summer2017-D20170724-T000000.nc''] \<mapsto> File 94,
            [''Hake_range=0.2_ping=2s_start=2017-07-24-00-00_end=2017-08-24-23-59'',
              ''Lon'', ''MVBS_Summer2017-D20170724-T000000.nc''] \<mapsto> File 95,
            [''Hake_range=0.2_ping=2s_start=2017-07-24-00-00_end=2017-08-24-23-59'',
              ''Lat'', ''MVBS_Summer2017-D20170724-T000000.nc''] \<mapsto> File 0)) = 3"
    using example_stems
    by (simp add: outputs_present_def calibrated_dpath_def lon_dpath_def lat_dpath_def
          example_layout_paths mvbs_fname_def)
  from a b c d show ?thesis by (intro conjI)
qed


theorem failed_iteration_keeps_written_files_witness:
  "try_body lon_write_fails notebook_config 
       (bucket @ ''/'' @ rawdirpath @ ''/Summer2017-D20170724-T000000.raw'') \<lparr>disk = example_tree, stdout = []\<rparr>
     = (Inl (Raise OSError ''Permission denied''),
        \<lparr>disk = example_tree
           ([''Hake_range=0.2_ping=2s_start=2017-07-24-00-00_end=2017-08-24-23-59'',
              ''HakeSurvey'', ''MVBS_Summer2017-D20170724-T000000.nc''] \<mapsto> File 94),
         stdout = []\<rparr>)
   \<and> main_loop lon_write_fails notebook_config [
       (bucket @ ''/'' @ rawdirpath @ ''/Summer2017-D20170724-T000000.raw'')] \<lparr>disk = example_tree, stdout = []\<rparr>
     = (Inr (),
        \<lparr>disk = example_tree
           ([''Hake_range=0.2_ping=2s_start=2017-07-24-00-00_end=2017-08-24-23-59'',
              ''HakeSurvey'', ''MVBS_Summer2017-D20170724-T000000.nc''] \<mapsto> File 94),
         stdout = [''Failed to process raw file Summer2017-D20170724-T000000.raw: Permission denied'']\<rparr>)"
proof -
  have sv: "open_raw lon_write_fails = open_raw example_services"
    "compute_Sv lon_write_fails = compute_Sv example_services"
    "compute_MVBS lon_write_fails = compute_MVBS example_services"
    "platform_longitude lon_write_fails = platform_longitude example_services"
    "platform_latitude lon_write_fails = platform_latitude example_services"
    "write_fault lon_write_fails
       = (\<lambda>dk p ds. if last (butlast p) = ''Lon''
                   then Some (Before_open (Raise OSError ''Permission denied'')) else None)"
    by (simp_all add: lon_write_fails_def)
  have b: "try_body lon_write_fails notebook_config 
       (bucket @ ''/'' @ rawdirpath @ ''/Summer2017-D20170724-T000000.raw'') \<lparr>disk = example_tree, stdout = []\<rparr>
     = (Inl (Raise OSError ''Permission denied''),
        \<lparr>disk = example_tree
           ([''Hake_range=0.2_ping=2s_start=2017-07-24-00-00_end=2017-08-24-23-59'',
              ''HakeSurvey'', ''MVBS_Summer2017-D20170724-T000000.nc''] \<mapsto> File 94),
         stdout = []\<rparr>)"
    unfolding try_body_def calibrated_dpath_def lon_dpath_def lat_dpath_def example_layout_paths sv
    using example_stems example_opens example_lengths
    by (simp add: to_netcdf_def sv example_services_def mvbs_fname_def)
  have n: "failed_message 
       (bucket @ ''/'' @ rawdirpath @ ''/Summer2017-D20170724-T000000.raw'') (Raise OSError ''Permission denied'')
           = ''Failed to process raw file Summer2017-D20170724-T000000.raw: Permission denied''"
    using example_names by (simp add: failed_message_def)
  from failed_iteration_keeps_written_files [OF b] b n
  show ?thesis by simp
qed

text \<open>
  C9. Two different remote paths with the same stem, the first processed without an
  exception and the second after it, with any files \<open>between\<close> them in the listing. If the
  services succeed for the second file (conversion, calibration, binning, the two tracks,
  and the three writes on the disk as they find it), then its iteration raises nothing:
  the body of the \<^verbatim>\<open>try\<close> runs to its end and the loop returns normally. It has written to
  the very three paths of the first file, which were taken, so that they hold the
  products of the second file and no path is added; it has printed the confirmation line
  and nothing else. Nothing in the loop looks at what a path held before.
\<close>

theorem same_stem_outputs_overwritten:
  assumes "s3rawfpath1 \<noteq> s3rawfpath2" and "path_stem s3rawfpath1 = path_stem s3rawfpath2"
    and "try_body sv cfg s3rawfpath1 w = (Inr (), w1)"
    and "main_loop sv cfg between w1 = (Inr (), wm)"
    and "open_raw sv (''s3://'' @ s3rawfpath2) = Inr ed"
    and "compute_Sv sv ed = Inr ds_Sv"
    and "compute_MVBS sv ds_Sv (range_meter_bin cfg) (ping_time_bin cfg) = Inr ds_MVBS"
    and "platform_longitude sv ed = Inr ds_lon"
    and "platform_latitude sv ed = Inr ds_lat"
    and "write_fault sv (disk wm) (calibrated_dpath sv cfg @ [mvbs_fname s3rawfpath2]) ds_MVBS = None"
    and "write_fault sv ((disk wm)(calibrated_dpath sv cfg @ [mvbs_fname s3rawfpath2] \<mapsto> File ds_MVBS))
           (lon_dpath sv cfg @ [mvbs_fname s3rawfpath2]) ds_lon = None"
    and "write_fault sv ((disk wm)(calibrated_dpath sv cfg @ [mvbs_fname s3rawfpath2] \<mapsto> File ds_MVBS,
                                   lon_dpath sv cfg @ [mvbs_fname s3rawfpath2] \<mapsto> File ds_lon))
           (lat_dpath sv cfg @ [mvbs_fname s3rawfpath2]) ds_lat = None"
  shows "mvbs_fname s3rawfpath1 = mvbs_fname s3rawfpath2
    \<and> try_body sv cfg s3rawfpath2 wm
        = (Inr (),
           wm\<lparr>disk := (disk wm)(calibrated_dpath sv cfg @ [mvbs_fname s3rawfpath1] \<mapsto> File ds_MVBS,
                                  lon_dpath sv cfg @ [mvbs_fname s3rawfpath1] \<mapsto> File ds_lon,
                                  lat_dpath sv cfg @ [mvbs_fname s3rawfpath1] \<mapsto> File ds_lat),
              stdout := stdout wm @ [mvbs_fname s3rawfpath1 @ '' created'']\<rparr>)
    \<and> main_loop sv cfg (s3rawfpath1 # between @ [s3rawfpath2]) w
        = (Inr (),
           wm\<lparr>disk := (disk wm)(calibrated_dpath sv cfg @ [mvbs_fname s3rawfpath1] \<mapsto> File ds_MVBS,
                                  lon_dpath sv cfg @ [mvbs_fname s3rawfpath1] \<mapsto> File ds_lon,
                                  lat_dpath sv cfg @ [mvbs_fname s3rawfpath1] \<mapsto> File ds_lat),
              stdout := stdout wm @ [mvbs_fname s3rawfpath1 @ '' created'']\<rparr>)
    \<and> (\<exists>ed1 ds_Sv1 ds_MVBS1 ds_lon1 ds_lat1.
          open_raw sv (''s3://'' @ s3rawfpath1) = Inr ed1
          \<and> compute_Sv sv ed1 = Inr ds_Sv1
          \<and> compute_MVBS sv ds_Sv1 (range_meter_bin cfg) (ping_time_bin cfg) = Inr ds_MVBS1
          \<and> platform_longitude sv ed1 = Inr ds_lon1
          \<and> platform_latitude sv ed1 = Inr ds_lat1
          \<and> disk w1 (calibrated_dpath sv cfg @ [mvbs_fname s3rawfpath1]) = Some (File ds_MVBS1)
          \<and> disk w1 (lon_dpath sv cfg @ [mvbs_fname s3rawfpath1]) = Some (File ds_lon1)
          \<and> disk w1 (lat_dpath sv cfg @ [mvbs_fname s3rawfpath1]) = Some (File ds_lat1))
    \<and> disk wm (calibrated_dpath sv cfg @ [mvbs_fname s3rawfpath1]) \<noteq> None
    \<and> disk wm (lon_dpath sv cfg @ [mvbs_fname s3rawfpath1]) \<noteq> None
    \<and> disk wm (lat_dpath sv cfg @ [mvbs_fname s3rawfpath1]) \<noteq> None
    \<and> dom ((disk wm)(calibrated_dpath sv cfg @ [mvbs_fname s3rawfpath1] \<mapsto> File ds_MVBS,
                       lon_dpath sv cfg @ [mvbs_fname s3rawfpath1] \<mapsto> File ds_lon,
                       lat_dpath sv cfg @ [mvbs_fname s3rawfpath1] \<mapsto> File ds_lat))
        = dom (disk wm)"
proof -
  note d = output_paths_distinct [of sv cfg "mvbs_fname s3rawfpath1"]
  have n: "mvbs_fname s3rawfpath2 = mvbs_fname s3rawfpath1"
    using assms(2) by (simp add: mvbs_fname_def)
  from assms(3) obtain ed1 sv1 m1 l1 a1 where
    1: "open_raw sv (''s3://'' @ s3rawfpath1) = Inr ed1" "compute_Sv sv ed1 = Inr sv1"
      "compute_MVBS sv sv1 (range_meter_bin cfg) (ping_time_bin cfg) = Inr m1"
      "platform_longitude sv ed1 = Inr l1" "platform_latitude sv ed1 = Inr a1"
    and w1: "w1 = w\<lparr>disk := (disk w)(calibrated_dpath sv cfg @ [mvbs_fname s3rawfpath1] \<mapsto> File m1,
                              lon_dpath sv cfg @ [mvbs_fname s3rawfpath1] \<mapsto> File l1,
                              lat_dpath sv cfg @ [mvbs_fname s3rawfpath1] \<mapsto> File a1),
              stdout := stdout w @ [mvbs_fname s3rawfpath1 @ '' created'']\<rparr>"
    by (rule try_body_Inr)
  let ?w2 = "wm\<lparr>disk := (disk wm)(calibrated_dpath sv cfg @ [mvbs_fname s3rawfpath1] \<mapsto> File ds_MVBS,
                                  lon_dpath sv cfg @ [mvbs_fname s3rawfpath1] \<mapsto> File ds_lon,
                                  lat_dpath sv cfg @ [mvbs_fname s3rawfpath1] \<mapsto> File ds_lat),
              stdout := stdout wm @ [mvbs_fname s3rawfpath1 @ '' created'']\<rparr>"
  have second: "try_body sv cfg s3rawfpath2 wm = (Inr (), ?w2)"
    using assms(5-12) unfolding n by (simp add: try_body_def to_netcdf_def n)
  have loop: "main_loop sv cfg (s3rawfpath1 # between @ [s3rawfpath2]) w = (Inr (), ?w2)"
    using assms(3,4) second by (simp add: main_loop_append)
  have first: "\<exists>ed1 ds_Sv1 ds_MVBS1 ds_lon1 ds_lat1.
          open_raw sv (''s3://'' @ s3rawfpath1) = Inr ed1
          \<and> compute_Sv sv ed1 = Inr ds_Sv1
          \<and> compute_MVBS sv ds_Sv1 (range_meter_bin cfg) (ping_time_bin cfg) = Inr ds_MVBS1
          \<and> platform_longitude sv ed1 = Inr ds_lon1
          \<and> platform_latitude sv ed1 = Inr ds_lat1
          \<and> disk w1 (calibrated_dpath sv cfg @ [mvbs_fname s3rawfpath1]) = Some (File ds_MVBS1)
          \<and> disk w1 (lon_dpath sv cfg @ [mvbs_fname s3rawfpath1]) = Some (File ds_lon1)
          \<and> disk w1 (lat_dpath sv cfg @ [mvbs_fname s3rawfpath1]) = Some (File ds_lat1)"
    using 1 w1 d by (intro exI [of _ ed1] exI [of _ sv1] exI [of _ m1] exI [of _ l1] exI [of _ a1]) simp
  have in1: "disk w1 (calibrated_dpath sv cfg @ [mvbs_fname s3rawfpath1]) \<noteq> None"
    "disk w1 (lon_dpath sv cfg @ [mvbs_fname s3rawfpath1]) \<noteq> None"
    "disk w1 (lat_dpath sv cfg @ [mvbs_fname s3rawfpath1]) \<noteq> None"
    using d by (simp_all add: w1)
  note inm = in1 [THEN main_loop_keeps_paths [OF assms(4)]]
  have dom: "dom ((disk wm)(calibrated_dpath sv cfg @ [mvbs_fname s3rawfpath1] \<mapsto> File ds_MVBS,
                       lon_dpath sv cfg @ [mvbs_fname s3rawfpath1] \<mapsto> File ds_lon,
                       lat_dpath sv cfg @ [mvbs_fname s3rawfpath1] \<mapsto> File ds_lat))
        = dom (disk wm)"
    using inm by auto
  from n second loop first inm dom show ?thesis by (intro conjI) simp_all
qed


theorem same_stem_outputs_overwritten_witness:
  "colliding_first \<noteq> colliding_second
   \<and> path_stem colliding_first = path_stem colliding_second
   \<and> try_body example_services notebook_config colliding_first
         \<lparr>disk = example_tree, stdout = []\<rparr>
     = (Inr (),
        \<lparr>disk = example_tree
           ([''Hake_range=0.2_ping=2s_start=2017-07-24-00-00_end=2017-08-24-23-59'',
              ''HakeSurvey'', ''MVBS_Summer2017-D20170724-T000000.nc''] \<mapsto> File 44,
            [''Hake_range=0.2_ping=2s_start=2017-07-24-00-00_end=2017-08-24-23-59'',
              ''Lon'', ''MVBS_Summer2017-D20170724-T000000.nc''] \<mapsto> File 45,
            [''Hake_range=0.2_ping=2s_start=2017-07-24-00-00_end=2017-08-24-23-59'',
              ''Lat'', ''MVBS_Summer2017-D20170724-T000000.nc''] \<mapsto> File 46),
         stdout = [''MVBS_Summer2017-D20170724-T000000.nc created'']\<rparr>)
   \<and> main_loop example_services notebook_config [colliding_first, colliding_second]
         \<lparr>disk = example_tree, stdout = []\<rparr>
     = (Inr (),
        \<lparr>disk = example_tree
           ([''Hake_range=0.2_ping=2s_start=2017-07-24-00-00_end=2017-08-24-23-59'',
              ''HakeSurvey'', ''MVBS_Summer2017-D20170724-T000000.nc''] \<mapsto> File 45,
            [''Hake_range=0.2_ping=2s_start=2017-07-24-00-00_end=2017-08-24-23-59'',
              ''Lon'', ''MVBS_Summer2017-D20170724-T000000.nc''] \<mapsto> File 46,
            [''Hake_range=0.2_ping=2s_start=2017-07-24-00-00_end=2017-08-24-23-59'',
              ''Lat'', ''MVBS_Summer2017-D20170724-T000000.nc''] \<mapsto> File 47),
         stdout = [''MVBS_Summer2017-D20170724-T000000.nc created'',
                   ''MVBS_Summer2017-D20170724-T000000.nc created'']\<rparr>)"
proof -
  let ?w1 = "\<lparr>disk = example_tree
           ([''Hake_range=0.2_ping=2s_start=2017-07-24-00-00_end=2017-08-24-23-59'',
              ''HakeSurvey'', ''MVBS_Summer2017-D20170724-T000000.nc''] \<mapsto> File 44,
            [''Hake_range=0.2_ping=2s_start=2017-07-24-00-00_end=2017-08-24-23-59'',
              ''Lon'', ''MVBS_Summer2017-D20170724-T000000.nc''] \<mapsto> File 45,
            [''Hake_range=0.2_ping=2s_start=2017-07-24-00-00_end=2017-08-24-23-59'',
              ''Lat'', ''MVBS_Summer2017-D20170724-T000000.nc''] \<mapsto> File 46),
         stdout = [''MVBS_Summer2017-D20170724-T000000.nc created'']\<rparr> :: nat world"
  have h1: "colliding_first \<noteq> colliding_second"
    by (simp add: colliding_first_def colliding_second_def)
  have h2: "path_stem colliding_first = path_stem colliding_second"
    by (simp add: colliding_stems)
  have h3: "try_body example_services notebook_config colliding_first
         \<lparr>disk = example_tree, stdout = []\<rparr>
     = (Inr (), ?w1)"
    using colliding_stems example_lengths example_dirs
    by (simp add: try_body_def to_netcdf_def example_services_def mvbs_fname_def
          calibrated_dpath_def lon_dpath_def lat_dpath_def)
  have h0: "main_loop example_services notebook_config [] ?w1 = (Inr (), ?w1)"
    by simp
  have s: "open_raw example_services (''s3://'' @ colliding_second) = Inr 43"
    "compute_Sv example_services 43 = Inr 44"
    "compute_MVBS example_services 44 (range_meter_bin notebook_config) (ping_time_bin notebook_config)
       = Inr 45"
    "platform_longitude example_services 43 = Inr 46"
    "platform_latitude example_services 43 = Inr 47"
    using colliding_stems example_lengths by (simp_all add: example_services_def)
  have f: "write_fault example_services dk p ds = None" for dk p ds
    by (simp add: example_services_def)
  note m = same_stem_outputs_overwritten [OF h1 h2 h3 h0 s f f f,
      THEN conjunct2, THEN conjunct2, THEN conjunct1, unfolded append_Nil]
  have r: "main_loop example_services notebook_config [colliding_first, colliding_second]
         \<lparr>disk = example_tree, stdout = []\<rparr>
     = (Inr (),
        \<lparr>disk = example_tree
           ([''Hake_range=0.2_ping=2s_start=2017-07-24-00-00_end=2017-08-24-23-59'',
              ''HakeSurvey'', ''MVBS_Summer2017-D20170724-T000000.nc''] \<mapsto> File 45,
            [''Hake_range=0.2_ping=2s_start=2017-07-24-00-00_end=2017-08-24-23-59'',
              ''Lon'', ''MVBS_Summer2017-D20170724-T000000.nc''] \<mapsto> File 46,
            [''Hake_range=0.2_ping=2s_start=2017-07-24-00-00_end=2017-08-24-23-59'',
              ''Lat'', ''MVBS_Summer2017-D20170724-T000000.nc''] \<mapsto> File 47),
         stdout = [''MVBS_Summer2017-D20170724-T000000.nc created'',
                   ''MVBS_Summer2017-D20170724-T000000.nc created'']\<rparr>)"
    using m colliding_stems example_dirs
    by (simp del: main_loop.simps
          add: mvbs_fname_def calibrated_dpath_def lon_dpath_def lat_dpath_def)
  from h1 h2 h3 r show ?thesis by (intro conjI)
qed

section \<open>The claim about the Output Layout Builder\<close>

lemma mkdir_exist_ok_result:
  assumes "mkdir_exist_ok dk p = Inr dk'"
  shows "dk' = (\<lambda>q. if q = p \<and> node_at dk p = None then Some Dir else dk q)"
  using assms
  by (rule mkdir_exist_ok_cases) (auto simp: node_at_def fun_eq_iff split: if_splits)

lemma mkdir_exist_ok_succeeds:
  assumes "node_at dk p = Some Dir \<or> node_at dk p = None \<and> node_at dk (butlast p) = Some Dir"
  shows "\<exists>dk'. mkdir_exist_ok dk p = Inr dk'"
  using assms by (auto simp: mkdir_exist_ok_def)

lemma mkdir_exist_ok_other:
  assumes "mkdir_exist_ok dk p = Inr dk'" "q \<noteq> p"
  shows "node_at dk' q = node_at dk q"
  using assms(1)
  by (rule mkdir_exist_ok_cases) (use assms(2) in \<open>auto simp: node_at_def\<close>)

lemma layout_builder_succeeds:
  assumes parent: "node_at dk (butlast (base_dpath sv cfg)) = Some Dir
                   \<or> node_at dk (base_dpath sv cfg) = Some Dir"
    and free: "\<forall>p \<in> {base_dpath sv cfg, calibrated_dpath sv cfg, lon_dpath sv cfg, lat_dpath sv cfg}.
                 node_at dk p = None \<or> node_at dk p = Some Dir"
  shows "\<exists>dk'. layout_builder sv cfg dk = (Inr (), dk')"
proof -
  let ?b = "base_dpath sv cfg" and ?c = "calibrated_dpath sv cfg"
  let ?o = "lon_dpath sv cfg" and ?a = "lat_dpath sv cfg"
  have ne: "?c \<noteq> ?b" "?o \<noteq> ?b" "?a \<noteq> ?b" "?o \<noteq> ?c" "?a \<noteq> ?c" "?a \<noteq> ?o"
    and bl: "butlast ?c = ?b" "butlast ?o = ?b" "butlast ?a = ?b"
    by (simp_all add: calibrated_dpath_def lon_dpath_def lat_dpath_def)
  from parent free obtain dk1 where 1: "mkdir_exist_ok dk ?b = Inr dk1"
    using mkdir_exist_ok_succeeds [of dk ?b] by auto
  note b1 = mkdir_exist_ok_is_dir [OF 1]
  have "node_at dk1 ?c = node_at dk ?c" using 1 ne(1) by (rule mkdir_exist_ok_other)
  with free b1 bl obtain dk2 where 2: "mkdir_exist_ok dk1 ?c = Inr dk2"
    using mkdir_exist_ok_succeeds [of dk1 ?c] by auto
  have b2: "node_at dk2 ?b = Some Dir" using 2 b1 by (rule mkdir_exist_ok_keeps)
  have "node_at dk2 ?o = node_at dk1 ?o" using 2 ne(4) by (rule mkdir_exist_ok_other)
  also have "\<dots> = node_at dk ?o" using 1 ne(2) by (rule mkdir_exist_ok_other)
  finally obtain dk3 where 3: "mkdir_exist_ok dk2 ?o = Inr dk3"
    using free b2 bl mkdir_exist_ok_succeeds [of dk2 ?o] by auto
  have b3: "node_at dk3 ?b = Some Dir" using 3 b2 by (rule mkdir_exist_ok_keeps)
  have "node_at dk3 ?a = node_at dk2 ?a" using 3 ne(6) by (rule mkdir_exist_ok_other)
  also have "\<dots> = node_at dk1 ?a" using 2 ne(5) by (rule mkdir_exist_ok_other)
  also have "\<dots> = node_at dk ?a" using 1 ne(3) by (rule mkdir_exist_ok_other)
  finally obtain dk4 where 4: "mkdir_exist_ok dk3 ?a = Inr dk4"
    using free b3 bl mkdir_exist_ok_succeeds [of dk3 ?a] by auto
  from 1 2 3 4 show ?thesis by (simp add: layout_builder_def)
qed

lemma layout_builder_result:
  assumes "layout_builder sv cfg dk = (Inr (), dk')"
  shows "dk' = (\<lambda>p. if p \<in> {base_dpath sv cfg, calibrated_dpath sv cfg, lon_dpath sv cfg,
                                lat_dpath sv cfg} \<and> node_at dk p = None
                      then Some Dir else dk p)"
proof -
  let ?b = "base_dpath sv cfg" and ?c = "calibrated_dpath sv cfg"
  let ?o = "lon_dpath sv cfg" and ?a = "lat_dpath sv cfg"
  have ne: "?c \<noteq> ?b" "?o \<noteq> ?b" "?a \<noteq> ?b" "?o \<noteq> ?c" "?a \<noteq> ?c" "?a \<noteq> ?o"
    by (simp_all add: calibrated_dpath_def lon_dpath_def lat_dpath_def)
  from assms obtain dk1 dk2 dk3 where
    1: "mkdir_exist_ok dk ?b = Inr dk1" and
    2: "mkdir_exist_ok dk1 ?c = Inr dk2" and
    3: "mkdir_exist_ok dk2 ?o = Inr dk3" and
    4: "mkdir_exist_ok dk3 ?a = Inr dk'"
    by (rule layout_builder_cases)
  have c: "node_at dk1 ?c = node_at dk ?c" using 1 ne(1) by (rule mkdir_exist_ok_other)
  have "node_at dk2 ?o = node_at dk1 ?o" using 2 ne(4) by (rule mkdir_exist_ok_other)
  also have "\<dots> = node_at dk ?o" using 1 ne(2) by (rule mkdir_exist_ok_other)
  finally have o: "node_at dk2 ?o = node_at dk ?o" .
  have "node_at dk3 ?a = node_at dk2 ?a" using 3 ne(6) by (rule mkdir_exist_ok_other)
  also have "\<dots> = node_at dk1 ?a" using 2 ne(5) by (rule mkdir_exist_ok_other)
  also have "\<dots> = node_at dk ?a" using 1 ne(3) by (rule mkdir_exist_ok_other)
  finally have a: "node_at dk3 ?a = node_at dk ?a" .
  note r1 = mkdir_exist_ok_result [OF 1]
    and r2 = mkdir_exist_ok_result [OF 2, unfolded c]
    and r3 = mkdir_exist_ok_result [OF 3, unfolded o]
    and r4 = mkdir_exist_ok_result [OF 4, unfolded a]
  show ?thesis
    unfolding r4 r3 r2 r1 using ne by (auto simp: fun_eq_iff)
qed

text \<open>
  C6. The layout builder is idempotent. After a run that raised nothing, a second run
  raises nothing and returns the disk unchanged; on a disk where the four directories
  exist, a run changes nothing. Where the parent of the root directory exists and none of
  the four paths is occupied by a file, the run succeeds, creates exactly the directories
  among the four that were absent, and leaves all four as directories. No run, failed or
  not, alters a node that existed before, directory or file. The root directory is named
  by formatting the survey label, the two bin sizes and the two datetimes; the three
  subdirectories have the fixed names \<^verbatim>\<open>HakeSurvey\<close>, \<^verbatim>\<open>Lon\<close> and \<^verbatim>\<open>Lat\<close>.
\<close>

theorem layout_builder_idempotent:
  "(\<forall>dk'. layout_builder sv cfg dk = (Inr (), dk') \<longrightarrow> layout_builder sv cfg dk' = (Inr (), dk'))
   \<and> (node_at dk (base_dpath sv cfg) = Some Dir \<and> node_at dk (calibrated_dpath sv cfg) = Some Dir
        \<and> node_at dk (lon_dpath sv cfg) = Some Dir \<and> node_at dk (lat_dpath sv cfg) = Some Dir
       \<longrightarrow> layout_builder sv cfg dk = (Inr (), dk))
   \<and> ((node_at dk (butlast (base_dpath sv cfg)) = Some Dir \<or> node_at dk (base_dpath sv cfg) = Some Dir)
        \<and> (\<forall>p \<in> {base_dpath sv cfg, calibrated_dpath sv cfg, lon_dpath sv cfg, lat_dpath sv cfg}.
               node_at dk p = None \<or> node_at dk p = Some Dir)
       \<longrightarrow> (\<exists>dk'. layout_builder sv cfg dk = (Inr (), dk')
                  \<and> dk' = (\<lambda>p. if p \<in> {base_dpath sv cfg, calibrated_dpath sv cfg,
                                            lon_dpath sv cfg, lat_dpath sv cfg}
                                      \<and> node_at dk p = None
                                  then Some Dir else dk p)
                  \<and> node_at dk' (base_dpath sv cfg) = Some Dir
                  \<and> node_at dk' (calibrated_dpath sv cfg) = Some Dir
                  \<and> node_at dk' (lon_dpath sv cfg) = Some Dir
                  \<and> node_at dk' (lat_dpath sv cfg) = Some Dir))
   \<and> (\<forall>r dk' p n. layout_builder sv cfg dk = (r, dk') \<and> node_at dk p = Some n
          \<longrightarrow> node_at dk' p = Some n)
   \<and> base_dpath sv cfg
       = path_parts (''./'' @ data_type cfg @ ''_range='' @ float_str sv (range_meter_bin cfg)
                       @ ''_ping='' @ ping_time_bin cfg
                       @ ''_start='' @ strftime_Ymd_HM (start_datetime cfg)
                       @ ''_end='' @ strftime_Ymd_HM (end_datetime cfg))
   \<and> calibrated_dpath sv cfg = base_dpath sv cfg @ [''HakeSurvey'']
   \<and> lon_dpath sv cfg = base_dpath sv cfg @ [''Lon'']
   \<and> lat_dpath sv cfg = base_dpath sv cfg @ [''Lat'']"
proof -
  have 1: "layout_builder sv cfg dk' = (Inr (), dk')"
    if "layout_builder sv cfg dk = (Inr (), dk')" for dk'
    by (rule layout_builder_existing) (rule layout_builder_dirs [OF that])+
  have 2: "layout_builder sv cfg dk = (Inr (), dk)"
    if "node_at dk (base_dpath sv cfg) = Some Dir \<and> node_at dk (calibrated_dpath sv cfg) = Some Dir
        \<and> node_at dk (lon_dpath sv cfg) = Some Dir \<and> node_at dk (lat_dpath sv cfg) = Some Dir"
    using that by (intro layout_builder_existing) simp_all
  have 3: "\<exists>dk'. layout_builder sv cfg dk = (Inr (), dk')
                  \<and> dk' = (\<lambda>p. if p \<in> {base_dpath sv cfg, calibrated_dpath sv cfg,
                                            lon_dpath sv cfg, lat_dpath sv cfg}
                                      \<and> node_at dk p = None
                                  then Some Dir else dk p)
                  \<and> node_at dk' (base_dpath sv cfg) = Some Dir
                  \<and> node_at dk' (calibrated_dpath sv cfg) = Some Dir
                  \<and> node_at dk' (lon_dpath sv cfg) = Some Dir
                  \<and> node_at dk' (lat_dpath sv cfg) = Some Dir"
    if "(node_at dk (butlast (base_dpath sv cfg)) = Some Dir \<or> node_at dk (base_dpath sv cfg) = Some Dir)
        \<and> (\<forall>p \<in> {base_dpath sv cfg, calibrated_dpath sv cfg, lon_dpath sv cfg, lat_dpath sv cfg}.
               node_at dk p = None \<or> node_at dk p = Some Dir)"
  proof -
    from that obtain dk' where ok: "layout_builder sv cfg dk = (Inr (), dk')"
      using layout_builder_succeeds [of dk sv cfg] by blast
    from ok layout_builder_result [OF ok] layout_builder_dirs [OF ok]
    show ?thesis by (intro exI [of _ dk'] conjI)
  qed
  have 4: "node_at dk' p = Some n"
    if "layout_builder sv cfg dk = (r, dk') \<and> node_at dk p = Some n" for r dk' p n
    using that layout_builder_keeps by blast
  show ?thesis
    apply (intro conjI)
    subgoal using 1 by blast
    subgoal using 2 by blast
    subgoal using 3 by blast
    subgoal using 4 by blast
    subgoal by (simp add: base_dpath_def root_name_def)
    subgoal by (simp add: calibrated_dpath_def)
    subgoal by (simp add: lon_dpath_def)
    subgoal by (simp add: lat_dpath_def)
    done
qed

theorem layout_builder_idempotent_witness:
  "layout_builder example_services notebook_config Map.empty = (Inr (), example_tree)
   \<and> layout_builder example_services notebook_config example_tree = (Inr (), example_tree)
   \<and> layout_builder example_services notebook_config example_tree_with_file
       = (Inr (), example_tree_with_file)"
proof -
  note dirs = example_dirs calibrated_dpath_def lon_dpath_def lat_dpath_def
  have a: "layout_builder example_services notebook_config Map.empty = (Inr (), example_tree)"
    by (simp add: layout_builder_def mkdir_exist_ok_def node_at_def dirs example_tree_def)
  have b: "node_at example_tree_with_file (base_dpath example_services notebook_config) = Some Dir
        \<and> node_at example_tree_with_file (calibrated_dpath example_services notebook_config) = Some Dir
        \<and> node_at example_tree_with_file (lon_dpath example_services notebook_config) = Some Dir
        \<and> node_at example_tree_with_file (lat_dpath example_services notebook_config) = Some Dir"
    by (simp add: node_at_def dirs example_tree_with_file_def)
  note idem = layout_builder_idempotent [where sv = example_services and cfg = notebook_config]
  from idem [where dk = "Map.empty", THEN conjunct1] a
  have c: "layout_builder example_services notebook_config example_tree = (Inr (), example_tree)"
    by blast
  from idem [where dk = example_tree_with_file, THEN conjunct2, THEN conjunct1] b
  have d: "layout_builder example_services notebook_config example_tree_with_file
             = (Inr (), example_tree_with_file)"
    by blast
  from a c d show ?thesis by (intro conjI)
qed

section \<open>The claim about the Merger\<close>






lemma history_text:
  "history sv = utcnow_str sv @ '' +00:00. Interpolated from Platform latitude/longitude.''"
  "history sv \<noteq> []"
  by (simp_all add: history_def)










section \<open>The claim about the run as a whole\<close>













end
